(* ===== verification/Coordinator_Prelude.thy ===== *)
theory Coordinator_Prelude
  imports Complex_Main "HOL-Library.AList"
begin

text \<open>
  Shared vocabulary of the coordinator model.

  \<^item> JavaScript numbers that come from outside and are range-checked by the code are values of
    \<open>number\<close>: a finite double is the rational it denotes, beside the two infinities and NaN.
  \<^item> A JavaScript \<open>Map\<close> is an association list in insertion order: \<open>set\<close> on a present key
    replaces in place and on a new key appends (\<open>AList.update\<close>), \<open>get\<close> is \<open>map_of\<close>, and
    \<open>delete\<close> is \<open>AList.delete\<close>.
  \<^item> Clock readings are integers (milliseconds). One synchronous segment of the code, between two
    \<open>await\<close> points, reads the clock once in the model.
  \<^item> \<open>Array.prototype.slice(0, n)\<close> and the index \<open>Math.floor(random() * n)\<close>, with their lemmas.
\<close>

named_theorems js_map_simps \<open>lookups in an insertion-ordered map\<close>
named_theorems registry_defs \<open>definitions of the registry operations\<close>

type_synonym time = int
type_synonym ('k, 'v) js_map = "('k \<times> 'v) list"

abbreviation map_get :: "('k, 'v) js_map \<Rightarrow> 'k \<Rightarrow> 'v option" where
  "map_get m k \<equiv> map_of m k"

abbreviation map_set :: "'k \<Rightarrow> 'v \<Rightarrow> ('k, 'v) js_map \<Rightarrow> ('k, 'v) js_map" where
  "map_set \<equiv> AList.update"

abbreviation map_delete :: "'k \<Rightarrow> ('k, 'v) js_map \<Rightarrow> ('k, 'v) js_map" where
  "map_delete \<equiv> AList.delete"

text \<open>A JavaScript Map holds each key once.\<close>

abbreviation keys_distinct :: "('k, 'v) js_map \<Rightarrow> bool" where
  "keys_distinct m \<equiv> distinct (map fst m)"

subsection \<open>Numbers\<close>

datatype number = Fin rat | PosInf | NegInf | NaN

fun is_integer :: "number \<Rightarrow> bool" where
  "is_integer (Fin r) = (of_int \<lfloor>r\<rfloor> = r)"
| "is_integer _ = False"

fun is_finite :: "number \<Rightarrow> bool" where
  "is_finite (Fin r) = True"
| "is_finite _ = False"

text \<open>The comparisons \<open>n < c\<close>, \<open>n <= c\<close> and \<open>n > c\<close> with a finite right operand; each is false on NaN.\<close>

fun num_lt :: "number \<Rightarrow> rat \<Rightarrow> bool" where
  "num_lt (Fin r) c = (r < c)"
| "num_lt NegInf c = True"
| "num_lt _ c = False"

fun num_le :: "number \<Rightarrow> rat \<Rightarrow> bool" where
  "num_le (Fin r) c = (r \<le> c)"
| "num_le NegInf c = True"
| "num_le _ c = False"

fun num_gt :: "number \<Rightarrow> rat \<Rightarrow> bool" where
  "num_gt (Fin r) c = (r > c)"
| "num_gt PosInf c = True"
| "num_gt _ c = False"

text \<open>The value of a number that a check has shown finite.\<close>

fun num_value :: "number \<Rightarrow> rat" where
  "num_value (Fin r) = r"
| "num_value _ = 0"

lemma is_integer_finite: "is_integer n \<Longrightarrow> is_finite n"
  by (cases n) auto

lemma is_integer_value: "is_integer n \<Longrightarrow> of_int \<lfloor>num_value n\<rfloor> = num_value n"
  by (cases n) auto

lemma is_integer_of_int [simp]: "is_integer (Fin (of_int i))"
  by simp

subsection \<open>Maps in insertion order\<close>

lemma map_get_set [js_map_simps]: "map_get (map_set k v m) k' = (if k' = k then Some v else map_get m k')"
  by (simp add: AList.update_conv')

lemma map_get_delete [js_map_simps]: "map_get (map_delete k m) k' = (if k' = k then None else map_get m k')"
  by (simp add: AList.delete_conv')

lemma keys_distinct_set [intro]: "keys_distinct m \<Longrightarrow> keys_distinct (map_set k v m)"
  by (rule AList.distinct_update)

lemma keys_distinct_delete [intro]: "keys_distinct m \<Longrightarrow> keys_distinct (map_delete k m)"
  by (rule AList.distinct_delete)

lemma keys_distinct_filter [intro]: "keys_distinct m \<Longrightarrow> keys_distinct (filter P m)"
  by (induction m) auto

lemma map_get_mem: "map_get m k = Some v \<Longrightarrow> (k, v) \<in> set m"
  by (rule map_of_SomeD)

lemma map_get_iff: "keys_distinct m \<Longrightarrow> map_get m k = Some v \<longleftrightarrow> (k, v) \<in> set m"
  by simp

lemma map_get_filter [js_map_simps]:
  "keys_distinct m \<Longrightarrow>
   map_get (filter (\<lambda>(k, v). P v) m) k =
     (case map_get m k of None \<Rightarrow> None | Some v \<Rightarrow> if P v then Some v else None)"
proof (induction m)
  case Nil
  then show ?case by simp
next
  case (Cons kv m)
  obtain k' v' where kv: "kv = (k', v')" by (cases kv)
  show ?case
  proof (cases "k = k'")
    case True
    with Cons.prems kv have "map_get m k = None" by (simp add: map_of_eq_None_iff)
    with Cons kv True show ?thesis by auto
  next
    case False
    with Cons kv show ?thesis by auto
  qed
qed

lemma set_map_set:
  "keys_distinct m \<Longrightarrow> set (map_set k v m) = {(k, v)} \<union> {(k', v'). (k', v') \<in> set m \<and> k' \<noteq> k}"
  by (induction m) (auto simp: image_iff)

lemma set_map_set_subset: "set (map_set k v m) \<subseteq> insert (k, v) (set m)"
  by (induction m) auto

lemma set_map_delete: "set (map_delete k m) = {(k', v'). (k', v') \<in> set m \<and> k' \<noteq> k}"
  by (auto simp: AList.delete_eq)

lemma length_map_set: "length (map_set k v m) = (if k \<in> fst ` set m then length m else Suc (length m))"
  by (induction m) auto

subsection \<open>Arrays\<close>

text \<open>
  \<open>xs.slice(0, n)\<close>: a negative end counts from the end of the array.
\<close>

definition js_slice0 :: "'a list \<Rightarrow> int \<Rightarrow> 'a list" where
  "js_slice0 xs n = take (nat (if n < 0 then int (length xs) + n else n)) xs"

lemma js_slice0_nonneg: "0 \<le> n \<Longrightarrow> js_slice0 xs n = take (nat n) xs"
  by (simp add: js_slice0_def)

lemma set_js_slice0: "set (js_slice0 xs n) \<subseteq> set xs"
  by (simp add: js_slice0_def set_take_subset)

lemma distinct_js_slice0 [intro]: "distinct xs \<Longrightarrow> distinct (js_slice0 xs n)"
  by (simp add: js_slice0_def)

text \<open>
  \<open>Math.floor(random() * n)\<close> as an index into an array of length \<open>n\<close>. The generator's contract
  is a value in [0, 1), and within it the index is the floor of the product
  (\<open>rand_index_contract\<close>); outside it the index is clamped, so that the model is total.
\<close>

definition rand_index :: "rat \<Rightarrow> nat \<Rightarrow> nat" where
  "rand_index r n = min (n - 1) (nat \<lfloor>r * of_nat n\<rfloor>)"

lemma rand_index_less [simp]: "0 < n \<Longrightarrow> rand_index r n < n"
  by (simp add: rand_index_def min_def) linarith

lemma rand_index_contract:
  assumes "0 \<le> r" and "r < 1" and "0 < n"
  shows "rand_index r n = nat \<lfloor>r * of_nat n\<rfloor>"
proof -
  have "r * of_nat n < of_nat n" using assms by simp
  then have "\<lfloor>r * of_nat n\<rfloor> < int n" by (simp add: floor_less_iff)
  then show ?thesis using assms by (simp add: rand_index_def)
qed

lemma find_SomeD: "find P xs = Some x \<Longrightarrow> x \<in> set xs \<and> P x"
  by (auto simp: find_Some_iff)

end
