(* ===== verification/Expiring_Registry.thy ===== *)
theory Expiring_Registry
  imports Coordinator_Prelude
begin

text \<open>
  The contract the three registries of the coordinator share (nodes, peers, launchers): an entry
  carries the time it was last heard of, a heartbeat renews an entry that is still within the
  timeout and drops one that is past it, and listing drops every entry past the timeout. The
  locale \<open>expiring_registry\<close> names these operations and their laws; its lemmas are what the
  clients rely on: whether a heartbeat succeeds depends on the entry's age only and never on
  which other calls have pruned the registry before, an entry past the timeout is never revived,
  and heartbeats paced within the timeout keep an entry forever.
\<close>

text \<open>An entry's recorded time is within the timeout at \<open>now\<close>.\<close>

fun within_timeout :: "time \<Rightarrow> time \<Rightarrow> time option \<Rightarrow> bool" where
  "within_timeout tmo now None = False"
| "within_timeout tmo now (Some seen) = (now - seen \<le> tmo)"

lemma within_timeout_mono:
  "within_timeout tmo now' s \<Longrightarrow> now \<le> now' \<Longrightarrow> within_timeout tmo now s"
  by (cases s) auto

text \<open>A schedule of times that starts at \<open>t\<close> and never pauses for longer than \<open>gap\<close>.\<close>

fun paced :: "time \<Rightarrow> time \<Rightarrow> time list \<Rightarrow> bool" where
  "paced gap t [] = True"
| "paced gap t (u # us) = (t \<le> u \<and> u - t \<le> gap \<and> paced gap u us)"

lemma paced_weaken: "paced gap t us \<Longrightarrow> gap \<le> gap' \<Longrightarrow> paced gap' t us"
  by (induction us arbitrary: t) auto

locale expiring_registry =
  fixes last_seen :: "'r \<Rightarrow> string \<Rightarrow> time option"
    and timeout :: "'r \<Rightarrow> time"
    and beat :: "string \<Rightarrow> time \<Rightarrow> 'r \<Rightarrow> bool \<times> 'r"
    and listing :: "time \<Rightarrow> 'r \<Rightarrow> string list \<times> 'r"
    and admitted :: "string \<Rightarrow> bool"
    and invar :: "'r \<Rightarrow> bool"
  assumes beat_reply: "fst (beat k now r) \<longleftrightarrow> within_timeout (timeout r) now (last_seen r k)"
    and beat_renews: "within_timeout (timeout r) now (last_seen r k) \<Longrightarrow>
          last_seen (snd (beat k now r)) = (last_seen r)(k := Some now)"
    and beat_drops: "\<not> within_timeout (timeout r) now (last_seen r k) \<Longrightarrow>
          last_seen (snd (beat k now r)) = (last_seen r)(k := None)"
    and beat_timeout: "timeout (snd (beat k now r)) = timeout r"
    and listing_prunes: "invar r \<Longrightarrow> last_seen (snd (listing now r)) j =
          (if within_timeout (timeout r) now (last_seen r j) then last_seen r j else None)"
    and listing_timeout: "timeout (snd (listing now r)) = timeout r"
    and listed_iff: "invar r \<Longrightarrow> j \<in> set (fst (listing now r)) \<longleftrightarrow>
          within_timeout (timeout r) now (last_seen r j) \<and> admitted j"
    and invar_beat: "invar r \<Longrightarrow> invar (snd (beat k now r))"
    and invar_listing: "invar r \<Longrightarrow> invar (snd (listing now r))"
begin

lemma beat_after_listing:
  assumes "invar r" and "now \<le> now'"
  shows "fst (beat k now' (snd (listing now r))) = fst (beat k now' r)"
  using assms within_timeout_mono [OF _ assms(2)]
  by (auto simp: beat_reply listing_prunes listing_timeout)

lemma listing_after_listing:
  assumes "invar r" and "now \<le> now'"
  shows "set (fst (listing now' (snd (listing now r)))) = set (fst (listing now' r))"
  using assms within_timeout_mono [OF _ assms(2)]
  by (auto simp: listed_iff invar_listing listing_prunes listing_timeout split: if_splits)

lemma beat_other:
  assumes "j \<noteq> k"
  shows "last_seen (snd (beat k now r)) j = last_seen r j"
  using assms
  by (cases "within_timeout (timeout r) now (last_seen r k)") (simp_all add: beat_renews beat_drops)

lemma lapsed_not_revived_by_beat:
  assumes "\<not> within_timeout (timeout r) now (last_seen r k)" and "now \<le> now'"
  shows "\<not> within_timeout (timeout r) now' (last_seen (snd (beat j now' r)) k)"
proof (cases "j = k")
  case True
  have "\<not> within_timeout (timeout r) now' (last_seen r k)"
    using assms within_timeout_mono by blast
  with True show ?thesis by (simp add: beat_drops)
next
  case False
  then show ?thesis using assms within_timeout_mono by (auto simp: beat_other)
qed

lemma lapsed_not_revived_by_listing:
  assumes "invar r" and "\<not> within_timeout (timeout r) now (last_seen r k)" and "now \<le> now'"
  shows "\<not> within_timeout (timeout r) now' (last_seen (snd (listing now' r)) k)"
  using assms within_timeout_mono [OF _ assms(3)] by (auto simp: listing_prunes)

lemma paced_beats_timeout: "timeout (fold (\<lambda>t r. snd (beat k t r)) us r) = timeout r"
  by (induction us arbitrary: r) (auto simp: beat_timeout)

lemma paced_beats_invar: "invar r \<Longrightarrow> invar (fold (\<lambda>t r. snd (beat k t r)) us r)"
  by (induction us arbitrary: r) (auto simp: invar_beat)

lemma paced_beats_keep:
  assumes "last_seen r k = Some t" and "paced (timeout r) t us"
  shows "last_seen (fold (\<lambda>t r. snd (beat k t r)) us r) k = Some (last (t # us))"
  using assms
proof (induction us arbitrary: r t)
  case Nil
  then show ?case by simp
next
  case (Cons u us)
  have "last_seen (snd (beat k u r)) k = Some u"
    using Cons.prems by (simp add: beat_renews)
  moreover have "paced (timeout (snd (beat k u r))) u us"
    using Cons.prems by (simp add: beat_timeout)
  ultimately show ?case using Cons.IH by simp
qed

lemma paced_beats_listed:
  assumes "invar r" and "last_seen r k = Some t" and "paced (timeout r) t (us @ [now])"
    and "admitted k"
  shows "k \<in> set (fst (listing now (fold (\<lambda>t r. snd (beat k t r)) us r)))"
proof -
  have split: "paced g u (vs @ [w]) \<Longrightarrow> paced g u vs \<and> last (u # vs) \<le> w \<and> w - last (u # vs) \<le> g"
    for g u vs w by (induction vs arbitrary: u) auto
  from split [OF assms(3)] have "paced (timeout r) t us" and "now - last (t # us) \<le> timeout r"
    by auto
  then show ?thesis using assms paced_beats_keep
    by (simp add: listed_iff paced_beats_invar paced_beats_timeout del: last.simps)
qed

end

end
