(* ===== verification/Endpoint_Registry.thy ===== *)
theory Endpoint_Registry
  imports Expiring_Registry
begin

text \<open>
  What the peer and the launcher registry add to the expiring registry: an entry is found by its
  endpoint, a registration of an endpoint that is still within its timeout refreshes the entry in
  place, and any other registration gets a new identity. Both classes run the same loop over
  their Map; \<open>endpoint_scan\<close> is that loop over the accessors of an entry, and its two lemmas say
  what the loop leaves in the Map on a match and without one. The locale \<open>endpoint_registry\<close>
  extends \<open>expiring_registry\<close> by the laws of registration.
\<close>

fun endpoint_scan ::
  "('v \<Rightarrow> time) \<Rightarrow> ('v \<Rightarrow> string) \<Rightarrow> ('v \<Rightarrow> 'v) \<Rightarrow> time \<Rightarrow> time \<Rightarrow> string \<Rightarrow>
   (string, 'v) js_map \<Rightarrow> string option \<times> (string, 'v) js_map" where
  "endpoint_scan seen ep renew tmo now e [] = (None, [])"
| "endpoint_scan seen ep renew tmo now e ((k, v) # rest) =
     (if now - seen v > tmo then endpoint_scan seen ep renew tmo now e rest
      else if ep v = e then (Some k, (k, renew v) # rest)
      else (let (found, kept) = endpoint_scan seen ep renew tmo now e rest in (found, (k, v) # kept)))"

lemma endpoint_scan_None:
  assumes "endpoint_scan seen ep renew tmo now e m = (None, kept)"
  shows "kept = filter (\<lambda>(k, v). now - seen v \<le> tmo) m \<and> (\<forall>(k, v) \<in> set kept. ep v \<noteq> e)"
  using assms
  by (induction m arbitrary: kept) (fastforce split: if_splits prod.splits)+

lemma endpoint_scan_Some:
  assumes "endpoint_scan seen ep renew tmo now e m = (Some j, kept)"
  obtains pre v post where "m = pre @ (j, v) # post"
    and "now - seen v \<le> tmo" and "ep v = e"
    and "kept = filter (\<lambda>(k, v). now - seen v \<le> tmo) pre @ (j, renew v) # post"
proof -
  have "\<exists>pre v post. m = pre @ (j, v) # post \<and> now - seen v \<le> tmo \<and> ep v = e \<and>
      kept = filter (\<lambda>(k, v). now - seen v \<le> tmo) pre @ (j, renew v) # post"
    using assms
  proof (induction m arbitrary: kept)
    case Nil
    then show ?case by simp
  next
    case (Cons kv m)
    obtain k v where kv: "kv = (k, v)" by (cases kv)
    consider (lapsed) "now - seen v > tmo"
      | (hit) "now - seen v \<le> tmo" "ep v = e"
      | (miss) "now - seen v \<le> tmo" "ep v \<noteq> e"
      by linarith
    then show ?case
    proof cases
      case lapsed
      with Cons.prems kv have "endpoint_scan seen ep renew tmo now e m = (Some j, kept)" by simp
      then obtain pre w post where "m = pre @ (j, w) # post" "now - seen w \<le> tmo" "ep w = e"
        "kept = filter (\<lambda>(k, v). now - seen v \<le> tmo) pre @ (j, renew w) # post"
        using Cons.IH by blast
      with kv lapsed show ?thesis by (intro exI [of _ "kv # pre"]) auto
    next
      case hit
      with Cons.prems kv show ?thesis by (intro exI [of _ "[]"]) auto
    next
      case miss
      with Cons.prems kv obtain kept' where
        "endpoint_scan seen ep renew tmo now e m = (Some j, kept')" "kept = (k, v) # kept'"
        by (auto split: prod.splits)
      moreover from Cons.IH [OF this(1)] obtain pre w post where
        "m = pre @ (j, w) # post" "now - seen w \<le> tmo" "ep w = e"
        "kept' = filter (\<lambda>(k, v). now - seen v \<le> tmo) pre @ (j, renew w) # post"
        by blast
      ultimately show ?thesis using kv miss by (intro exI [of _ "kv # pre"]) auto
    qed
  qed
  then show thesis using that by blast
qed

text \<open>Registration over the scan: refresh on a match, a new entry otherwise.\<close>

definition endpoint_enter ::
  "('v \<Rightarrow> time) \<Rightarrow> ('v \<Rightarrow> string) \<Rightarrow> ('v \<Rightarrow> 'v) \<Rightarrow> 'v \<Rightarrow> time \<Rightarrow> time \<Rightarrow> string \<Rightarrow> string \<Rightarrow>
   (string, 'v) js_map \<Rightarrow> string \<times> (string, 'v) js_map" where
  "endpoint_enter seen ep renew new tmo now e u m =
     (case endpoint_scan seen ep renew tmo now e m of
        (Some j, kept) \<Rightarrow> (j, kept)
      | (None, kept) \<Rightarrow> (u, map_set u new kept))"

definition entries_wf :: "('v \<Rightarrow> string) \<Rightarrow> ('v \<Rightarrow> string) \<Rightarrow> (string, 'v) js_map \<Rightarrow> bool" where
  "entries_wf ident ep m \<longleftrightarrow> keys_distinct m \<and> (\<forall>(k, v) \<in> set m. k = ident v) \<and>
     distinct (map (\<lambda>(k, v). ep v) m)"

lemma entries_wf_filter: "entries_wf ident ep m \<Longrightarrow> entries_wf ident ep (filter P m)"
  by (auto simp: entries_wf_def distinct_map_filter)

lemma map_endpoint_set:
  assumes "map_get m k = Some v" and "keys_distinct m" and "f w = f v"
  shows "map (\<lambda>(k, v). f v) (map_set k w m) = map (\<lambda>(k, v). f v) m"
  using assms by (induction m) (auto split: if_splits)

lemma distinct_map_prune: "distinct (map f (xs @ ys)) \<Longrightarrow> distinct (map f (filter P xs @ ys))"
  by (induction xs) auto

lemma entries_wf_prune:
  assumes "entries_wf ident ep (xs @ ys)"
  shows "entries_wf ident ep (filter P xs @ ys)"
proof -
  have "keys_distinct (filter P xs @ ys)"
    using assms unfolding entries_wf_def by (intro distinct_map_prune) blast
  moreover have "distinct (map (\<lambda>(k, v). ep v) (filter P xs @ ys))"
    using assms unfolding entries_wf_def by (intro distinct_map_prune) blast
  ultimately show ?thesis using assms by (auto simp: entries_wf_def)
qed

lemma distinct_map_set_new:
  assumes "distinct (map f m)" and "f (k, v) \<notin> f ` set m"
  shows "distinct (map f (map_set k v m))"
  using assms
proof (induction m)
  case Nil
  then show ?case by simp
next
  case (Cons kw m)
  have "f ` set (map_set k v m) \<subseteq> insert (f (k, v)) (f ` set m)"
    using image_mono [OF set_map_set_subset [of k v m], of f] by simp
  with Cons show ?case by auto
qed

lemma entries_wf_renew:
  assumes "entries_wf ident ep m" and "map_get m k = Some v"
    and "ident w = ident v" and "ep w = ep v"
  shows "entries_wf ident ep (map_set k w m)"
  using assms map_endpoint_set [OF assms(2), of ep w] map_get_mem [OF assms(2)]
  by (auto simp: entries_wf_def set_map_set)

lemma entries_wf_delete: "entries_wf ident ep m \<Longrightarrow> entries_wf ident ep (map_delete k m)"
  by (simp add: AList.delete_eq entries_wf_filter)

lemma entries_wf_unique:
  assumes "entries_wf ident ep m" and "map_get m i = Some v" and "map_get m j = Some w"
    and "ep v = ep w"
  shows "i = j"
proof -
  have "inj_on (\<lambda>(k, v). ep v) (set m)"
    using assms(1) by (simp add: entries_wf_def distinct_map)
  from inj_onD [OF this, of "(i, v)" "(j, w)"] show ?thesis
    using assms map_get_mem by fastforce
qed

lemma entries_wf_set_new:
  assumes "entries_wf ident ep m" and "ident v = k" and "\<forall>(k, w) \<in> set m. ep w \<noteq> ep v"
  shows "entries_wf ident ep (map_set k v m)"
proof -
  have "(\<lambda>(k, v). ep v) (k, v) \<notin> (\<lambda>(k, v). ep v) ` set m"
    using assms(3) by fastforce
  then have "distinct (map (\<lambda>(k, v). ep v) (map_set k v m))"
    using assms(1) by (intro distinct_map_set_new) (auto simp: entries_wf_def)
  with assms show ?thesis by (auto simp: entries_wf_def set_map_set)
qed

text \<open>
  The facts of a registration, for a \<open>renew\<close> that keeps identity and endpoint and stamps the
  entry, and a new entry with the given identity, endpoint and stamp.
\<close>

lemma endpoint_enter_wf:
  assumes wf: "entries_wf ident ep m"
    and renew: "\<And>v. ident (renew v) = ident v" "\<And>v. ep (renew v) = ep v"
    and new: "ident new = u" "ep new = e"
  shows "entries_wf ident ep (snd (endpoint_enter seen ep renew new tmo now e u m))"
proof (cases "endpoint_scan seen ep renew tmo now e m")
  case (Pair found kept)
  show ?thesis
  proof (cases found)
    case None
    with Pair endpoint_scan_None [of seen ep renew tmo now e m kept]
    have "kept = filter (\<lambda>(k, v). now - seen v \<le> tmo) m" and "\<forall>(k, v) \<in> set kept. ep v \<noteq> e"
      by simp_all
    with Pair None wf new show ?thesis
      by (simp add: endpoint_enter_def entries_wf_set_new entries_wf_filter)
  next
    case (Some j)
    with Pair have "endpoint_scan seen ep renew tmo now e m = (Some j, kept)" by simp
    then obtain pre v post where m: "m = pre @ (j, v) # post"
      and kept: "kept = filter (\<lambda>(k, v). now - seen v \<le> tmo) pre @ (j, renew v) # post"
      by (rule endpoint_scan_Some)
    have "entries_wf ident ep (pre @ (j, renew v) # post)"
      using wf renew by (auto simp: m entries_wf_def)
    then have "entries_wf ident ep kept"
      unfolding kept by (rule entries_wf_prune)
    with Pair Some show ?thesis by (simp add: endpoint_enter_def)
  qed
qed

lemma endpoint_enter_live:
  assumes wf: "entries_wf ident ep m" and j: "map_get m j = Some v" "ep v = e" "now - seen v \<le> tmo"
  shows "fst (endpoint_enter seen ep renew new tmo now e u m) = j"
proof (cases "endpoint_scan seen ep renew tmo now e m")
  case (Pair found kept)
  show ?thesis
  proof (cases found)
    case None
    with Pair endpoint_scan_None [of seen ep renew tmo now e m kept] j map_get_mem [OF j(1)]
    show ?thesis by auto
  next
    case (Some i)
    with Pair have "endpoint_scan seen ep renew tmo now e m = (Some i, kept)" by simp
    then obtain pre w post where "m = pre @ (i, w) # post" "ep w = e"
      by (rule endpoint_scan_Some)
    then have "map_get m i = Some w"
      using wf map_get_iff [of m i w] by (auto simp: entries_wf_def)
    with entries_wf_unique [OF wf this j(1)] j \<open>ep w = e\<close> Pair Some show ?thesis
      by (simp add: endpoint_enter_def)
  qed
qed

lemma endpoint_enter_new:
  assumes "keys_distinct m"
    and "\<And>j v. map_get m j = Some v \<Longrightarrow> ep v = e \<Longrightarrow> now - seen v > tmo"
  shows "fst (endpoint_enter seen ep renew new tmo now e u m) = u"
proof (cases "endpoint_scan seen ep renew tmo now e m")
  case (Pair found kept)
  show ?thesis
  proof (cases found)
    case None
    with Pair show ?thesis by (simp add: endpoint_enter_def)
  next
    case (Some i)
    with Pair have "endpoint_scan seen ep renew tmo now e m = (Some i, kept)" by simp
    then obtain pre w post where "m = pre @ (i, w) # post" "ep w = e" "now - seen w \<le> tmo"
      by (rule endpoint_scan_Some)
    moreover from this have "map_get m i = Some w"
      using assms(1) map_get_iff [of m i w] by auto
    ultimately show ?thesis using assms(2) [of i w] by simp
  qed
qed

lemma endpoint_enter_entry:
  assumes wf: "entries_wf ident ep m"
    and enter: "endpoint_enter seen ep renew new tmo now e u m = (j, m')"
    and renew: "\<And>v. ep (renew v) = ep v" "\<And>v. seen (renew v) = now"
    and new: "ep new = e" "seen new = now"
  shows "\<exists>v. map_get m' j = Some v \<and> seen v = now \<and> ep v = e"
proof (cases "endpoint_scan seen ep renew tmo now e m")
  case (Pair found kept)
  show ?thesis
  proof (cases found)
    case None
    with Pair enter new show ?thesis by (auto simp: endpoint_enter_def js_map_simps)
  next
    case (Some i)
    with Pair enter have "endpoint_scan seen ep renew tmo now e m = (Some j, m')"
      by (simp add: endpoint_enter_def)
    then obtain pre v post where m: "m = pre @ (j, v) # post" "ep v = e"
      and m': "m' = filter (\<lambda>(k, v). now - seen v \<le> tmo) pre @ (j, renew v) # post"
      by (rule endpoint_scan_Some)
    have "j \<notin> fst ` set pre" using wf by (auto simp: entries_wf_def m)
    then have "map_get (filter (\<lambda>(k, v). now - seen v \<le> tmo) pre) j = None"
      by (force simp: map_of_eq_None_iff)
    then show ?thesis using renew m(2) by (simp add: m' map_add_def)
  qed
qed

locale endpoint_registry = expiring_registry last_seen timeout beat listing admitted invar
  for last_seen :: "'r \<Rightarrow> string \<Rightarrow> time option"
    and timeout :: "'r \<Rightarrow> time"
    and beat :: "string \<Rightarrow> time \<Rightarrow> 'r \<Rightarrow> bool \<times> 'r"
    and listing :: "time \<Rightarrow> 'r \<Rightarrow> string list \<times> 'r"
    and admitted :: "string \<Rightarrow> bool"
    and invar :: "'r \<Rightarrow> bool" +
  fixes address :: "'r \<Rightarrow> string \<Rightarrow> string option"
    and enter :: "'e \<Rightarrow> string \<Rightarrow> time \<Rightarrow> 'r \<Rightarrow> string \<times> 'r"
    and addr :: "'e \<Rightarrow> string"
  assumes address_unique: "invar r \<Longrightarrow> address r i = Some a \<Longrightarrow> address r j = Some a \<Longrightarrow> i = j"
    and enter_live: "invar r \<Longrightarrow> address r j = Some (addr e) \<Longrightarrow>
          within_timeout (timeout r) now (last_seen r j) \<Longrightarrow> fst (enter e u now r) = j"
    and enter_new: "invar r \<Longrightarrow> (\<And>j. address r j = Some (addr e) \<Longrightarrow>
          \<not> within_timeout (timeout r) now (last_seen r j)) \<Longrightarrow> fst (enter e u now r) = u"
    and enter_seen: "invar r \<Longrightarrow> enter e u now r = (j, r') \<Longrightarrow>
          last_seen r' j = Some now \<and> address r' j = Some (addr e)"
    and enter_timeout: "timeout (snd (enter e u now r)) = timeout r"
    and enter_invar: "invar r \<Longrightarrow> invar (snd (enter e u now r))"
begin

lemma reenter_within_timeout:
  assumes "invar r" and "enter e u now r = (j, r')" and "addr e' = addr e"
    and "now' - now \<le> timeout r"
  shows "fst (enter e' u' now' r') = j"
proof (rule enter_live)
  show "invar r'" using enter_invar [OF assms(1), of e u now] assms(2) by simp
  show "address r' j = Some (addr e')" using enter_seen [OF assms(1,2)] assms(3) by simp
  have "timeout r' = timeout r" using enter_timeout [of e u now r] assms(2) by simp
  then show "within_timeout (timeout r') now' (last_seen r' j)"
    using enter_seen [OF assms(1,2)] assms(4) by simp
qed

lemma reenter_after_timeout:
  assumes "invar r" and "enter e u now r = (j, r')" and "addr e' = addr e"
    and "now' - now > timeout r"
  shows "fst (enter e' u' now' r') = u'"
proof (rule enter_new)
  show inv: "invar r'" using enter_invar [OF assms(1), of e u now] assms(2) by simp
  fix i assume "address r' i = Some (addr e')"
  with enter_seen [OF assms(1,2)] assms(3) inv have "i = j"
    using address_unique by metis
  moreover have "timeout r' = timeout r" using enter_timeout [of e u now r] assms(2) by simp
  ultimately show "\<not> within_timeout (timeout r') now' (last_seen r' i)"
    using enter_seen [OF assms(1,2)] assms(4) by simp
qed

end

end
