(* ===== verification/Launcher_Registry.thy ===== *)
theory Launcher_Registry
  imports Endpoint_Registry
begin

text \<open>
  The registry of swarm launchers, \<^verbatim>\<open>coordinator/src/launcher_registry.ts\<close>: \<open>register\<close>, which
  also picks up new models and a new agent port when it refreshes an entry, \<open>heartbeat\<close>,
  \<open>listActive\<close>, \<open>findForModel\<close> and \<open>listForModel\<close>. \<open>randomUUID()\<close> is the argument \<open>uuid\<close> of
  \<open>register_launcher\<close>. It is the second interpretation of \<open>endpoint_registry\<close>: a launcher that
  re-registers after its entry has lapsed gets a new identity, which is why the pool planner
  claims launchers by endpoint as well.
\<close>

record launcher_info =
  launcherId :: string
  launcher_endpoint :: string
  servesModels :: "string list"
  agentPort :: int

record stored_launcher = launcher_info +
  launcher_lastSeen :: time

record launcher_registry =
  launcher_timeoutMs :: time
  launchers :: "(string, stored_launcher) js_map"

definition new_launcher_registry :: "time \<Rightarrow> launcher_registry" where
  "new_launcher_registry tmo = \<lparr>launcher_timeoutMs = tmo, launchers = []\<rparr>"

fun register_launcher_loop ::
  "time \<Rightarrow> time \<Rightarrow> string \<Rightarrow> string list \<Rightarrow> int \<Rightarrow> (string, stored_launcher) js_map \<Rightarrow>
   string option \<times> (string, stored_launcher) js_map" where
  "register_launcher_loop tmo now endpoint models port [] = (None, [])"
| "register_launcher_loop tmo now endpoint models port ((lid, launcher) # rest) =
     (if now - launcher_lastSeen launcher > tmo
      then register_launcher_loop tmo now endpoint models port rest
      else if launcher_endpoint launcher = endpoint
      then (Some (launcherId launcher),
            (lid, launcher\<lparr>servesModels := models, agentPort := port, launcher_lastSeen := now\<rparr>) # rest)
      else (let (found, kept) = register_launcher_loop tmo now endpoint models port rest
            in (found, (lid, launcher) # kept)))"

definition register_launcher ::
  "string \<Rightarrow> string list \<Rightarrow> int \<Rightarrow> string \<Rightarrow> time \<Rightarrow> launcher_registry \<Rightarrow> string \<times> launcher_registry" where
  "register_launcher endpoint models port uuid now r =
     (case register_launcher_loop (launcher_timeoutMs r) now endpoint models port (launchers r) of
        (Some lid, kept) \<Rightarrow> (lid, r\<lparr>launchers := kept\<rparr>)
      | (None, kept) \<Rightarrow>
          (uuid, r\<lparr>launchers := map_set uuid
             \<lparr>launcherId = uuid, launcher_endpoint = endpoint, servesModels = models,
              agentPort = port, launcher_lastSeen = now\<rparr> kept\<rparr>))"

definition launcher_heartbeat :: "string \<Rightarrow> time \<Rightarrow> launcher_registry \<Rightarrow> bool \<times> launcher_registry" where
  "launcher_heartbeat lid now r =
     (case map_get (launchers r) lid of
        None \<Rightarrow> (False, r)
      | Some launcher \<Rightarrow>
          if now - launcher_lastSeen launcher > launcher_timeoutMs r
          then (False, r\<lparr>launchers := map_delete lid (launchers r)\<rparr>)
          else (True, r\<lparr>launchers := map_set lid (launcher\<lparr>launcher_lastSeen := now\<rparr>) (launchers r)\<rparr>))"

fun list_launchers_loop ::
  "time \<Rightarrow> time \<Rightarrow> (string, stored_launcher) js_map \<Rightarrow>
   launcher_info list \<times> (string, stored_launcher) js_map" where
  "list_launchers_loop tmo now [] = ([], [])"
| "list_launchers_loop tmo now ((lid, launcher) # rest) =
     (let (active, kept) = list_launchers_loop tmo now rest
      in if now - launcher_lastSeen launcher \<le> tmo
         then (launcher_info.truncate launcher # active, (lid, launcher) # kept)
         else (active, kept))"

definition list_launchers :: "time \<Rightarrow> launcher_registry \<Rightarrow> launcher_info list \<times> launcher_registry" where
  "list_launchers now r =
     (let (active, kept) = list_launchers_loop (launcher_timeoutMs r) now (launchers r)
      in (active, r\<lparr>launchers := kept\<rparr>))"

definition find_for_model ::
  "string \<Rightarrow> time \<Rightarrow> launcher_registry \<Rightarrow> launcher_info option \<times> launcher_registry" where
  "find_for_model modelId now r =
     (let (active, r') = list_launchers now r
      in (find (\<lambda>l. modelId \<in> set (servesModels l)) active, r'))"

definition list_for_model ::
  "string \<Rightarrow> time \<Rightarrow> launcher_registry \<Rightarrow> launcher_info list \<times> launcher_registry" where
  "list_for_model modelId now r =
     (let (active, r') = list_launchers now r
      in (filter (\<lambda>l. modelId \<in> set (servesModels l)) active, r'))"

subsection \<open>Loops as filters\<close>

lemma list_launchers_eq:
  "list_launchers now r =
     (map (\<lambda>(k, l). launcher_info.truncate l)
        (filter (\<lambda>(k, l). now - launcher_lastSeen l \<le> launcher_timeoutMs r) (launchers r)),
      r\<lparr>launchers := filter (\<lambda>(k, l). now - launcher_lastSeen l \<le> launcher_timeoutMs r) (launchers r)\<rparr>)"
proof -
  have "list_launchers_loop tmo now m =
      (map (\<lambda>(k, l). launcher_info.truncate l) (filter (\<lambda>(k, l). now - launcher_lastSeen l \<le> tmo) m),
       filter (\<lambda>(k, l). now - launcher_lastSeen l \<le> tmo) m)" for tmo m
    by (induction m) auto
  then show ?thesis by (simp add: list_launchers_def)
qed

lemma list_for_model_serves:
  "l \<in> set (fst (list_for_model m now r)) \<Longrightarrow> m \<in> set (servesModels l)"
  by (auto simp: list_for_model_def split: prod.splits)

definition renew_launcher :: "string list \<Rightarrow> int \<Rightarrow> time \<Rightarrow> stored_launcher \<Rightarrow> stored_launcher" where
  "renew_launcher models port now l = l\<lparr>servesModels := models, agentPort := port, launcher_lastSeen := now\<rparr>"

lemma renew_launcher_simps [simp]:
  "launcherId (renew_launcher models port now l) = launcherId l"
  "launcher_endpoint (renew_launcher models port now l) = launcher_endpoint l"
  "launcher_lastSeen (renew_launcher models port now l) = now"
  by (simp_all add: renew_launcher_def)

lemma register_launcher_loop_eq:
  assumes "\<forall>(k, l) \<in> set m. k = launcherId l"
  shows "register_launcher_loop tmo now e models port m =
    endpoint_scan launcher_lastSeen launcher_endpoint (renew_launcher models port now) tmo now e m"
  using assms by (induction m) (auto simp: renew_launcher_def)

subsection \<open>The invariant: one entry per endpoint\<close>

abbreviation launchers_wf :: "launcher_registry \<Rightarrow> bool" where
  "launchers_wf r \<equiv> entries_wf launcherId launcher_endpoint (launchers r)"

lemma register_launcher_eq:
  assumes "launchers_wf r"
  shows "register_launcher e models port u now r =
    map_prod id (\<lambda>m. r\<lparr>launchers := m\<rparr>)
      (endpoint_enter launcher_lastSeen launcher_endpoint (renew_launcher models port now)
        \<lparr>launcherId = u, launcher_endpoint = e, servesModels = models, agentPort = port,
          launcher_lastSeen = now\<rparr> (launcher_timeoutMs r) now e u (launchers r))"
  using assms register_launcher_loop_eq [of "launchers r"]
  by (simp add: register_launcher_def endpoint_enter_def entries_wf_def split: prod.splits option.splits)

lemma launchers_wf_new [simp]: "launchers_wf (new_launcher_registry tmo)"
  by (simp add: new_launcher_registry_def entries_wf_def)

lemma launchers_wf_register:
  assumes "launchers_wf r"
  shows "launchers_wf (snd (register_launcher e models port u now r))"
  using endpoint_enter_wf [OF assms, of "renew_launcher models port now"
      "\<lparr>launcherId = u, launcher_endpoint = e, servesModels = models, agentPort = port,
          launcher_lastSeen = now\<rparr>" u e launcher_lastSeen "launcher_timeoutMs r" now]
  by (simp add: register_launcher_eq [OF assms])

lemma launchers_wf_heartbeat:
  assumes "launchers_wf r"
  shows "launchers_wf (snd (launcher_heartbeat lid now r))"
  using assms
  by (auto simp: launcher_heartbeat_def entries_wf_delete intro: entries_wf_renew split: option.splits)

lemma launchers_wf_list: "launchers_wf r \<Longrightarrow> launchers_wf (snd (list_launchers now r))"
  by (simp add: list_launchers_eq entries_wf_filter)

subsection \<open>The registry as an endpoint registry\<close>

definition launcher_seen :: "launcher_registry \<Rightarrow> string \<Rightarrow> time option" where
  "launcher_seen r lid = map_option launcher_lastSeen (map_get (launchers r) lid)"

definition launcher_address :: "launcher_registry \<Rightarrow> string \<Rightarrow> string option" where
  "launcher_address r lid = map_option launcher_endpoint (map_get (launchers r) lid)"

definition listed_launchers :: "time \<Rightarrow> launcher_registry \<Rightarrow> string list \<times> launcher_registry" where
  "listed_launchers now r = map_prod (map launcherId) id (list_launchers now r)"

lemma listed_launcher_iff:
  assumes wf: "launchers_wf r"
  shows "j \<in> set (map launcherId (fst (list_launchers now r))) \<longleftrightarrow>
    within_timeout (launcher_timeoutMs r) now (launcher_seen r j)"
proof -
  have mem: "(k, p) \<in> set (launchers r) \<longleftrightarrow> map_get (launchers r) k = Some p" for k p
    using wf by (simp add: entries_wf_def)
  have ident: "(k, p) \<in> set (launchers r) \<Longrightarrow> launcherId p = k" for k p
    using wf by (auto simp: entries_wf_def)
  have "j \<in> set (map launcherId (fst (list_launchers now r))) \<longleftrightarrow>
      (\<exists>p. map_get (launchers r) j = Some p \<and> now - launcher_lastSeen p \<le> launcher_timeoutMs r)"
    using ident by (fastforce simp: list_launchers_eq launcher_info.truncate_def image_iff mem [symmetric])
  also have "\<dots> \<longleftrightarrow> within_timeout (launcher_timeoutMs r) now (launcher_seen r j)"
    by (cases "map_get (launchers r) j") (auto simp: launcher_seen_def)
  finally show ?thesis .
qed

interpretation launcherregistry:
  endpoint_registry launcher_seen launcher_timeoutMs launcher_heartbeat listed_launchers "\<lambda>_. True" launchers_wf
    launcher_address "\<lambda>d. register_launcher (fst d) (fst (snd d)) (snd (snd d))" fst
proof unfold_locales
  fix k now r j
  show "fst (launcher_heartbeat k now r) \<longleftrightarrow> within_timeout (launcher_timeoutMs r) now (launcher_seen r k)"
    by (cases "map_get (launchers r) k") (simp_all add: launcher_heartbeat_def launcher_seen_def not_less)
  show "within_timeout (launcher_timeoutMs r) now (launcher_seen r k) \<Longrightarrow>
      launcher_seen (snd (launcher_heartbeat k now r)) = (launcher_seen r)(k := Some now)"
    by (cases "map_get (launchers r) k") (simp_all add: launcher_heartbeat_def launcher_seen_def fun_eq_iff js_map_simps)
  show "\<not> within_timeout (launcher_timeoutMs r) now (launcher_seen r k) \<Longrightarrow>
      launcher_seen (snd (launcher_heartbeat k now r)) = (launcher_seen r)(k := None)"
    by (cases "map_get (launchers r) k") (auto simp: launcher_heartbeat_def launcher_seen_def fun_eq_iff js_map_simps)
  show "launcher_timeoutMs (snd (launcher_heartbeat k now r)) = launcher_timeoutMs r"
    by (auto simp: launcher_heartbeat_def split: option.splits)
  show "launcher_timeoutMs (snd (listed_launchers now r)) = launcher_timeoutMs r"
    by (simp add: listed_launchers_def list_launchers_eq)
  show "launchers_wf r \<Longrightarrow> launcher_seen (snd (listed_launchers now r)) j =
      (if within_timeout (launcher_timeoutMs r) now (launcher_seen r j) then launcher_seen r j else None)"
    by (auto simp: listed_launchers_def list_launchers_eq launcher_seen_def map_get_filter entries_wf_def split: option.splits)
  show "launchers_wf r \<Longrightarrow> (j \<in> set (fst (listed_launchers now r))) =
      (within_timeout (launcher_timeoutMs r) now (launcher_seen r j) \<and> True)"
    using listed_launcher_iff by (simp add: listed_launchers_def)
  show "launchers_wf r \<Longrightarrow> launchers_wf (snd (launcher_heartbeat k now r))"
    by (rule launchers_wf_heartbeat)
  show "launchers_wf r \<Longrightarrow> launchers_wf (snd (listed_launchers now r))"
    by (simp add: listed_launchers_def launchers_wf_list)
next
  fix r i j a u now r' and d :: "string \<times> string list \<times> int"
  let ?e = "fst d" and ?ms = "fst (snd d)" and ?port = "snd (snd d)"
  show "launchers_wf r \<Longrightarrow> launcher_address r i = Some a \<Longrightarrow> launcher_address r j = Some a \<Longrightarrow> i = j"
    by (auto simp: launcher_address_def intro: entries_wf_unique)
  show "launchers_wf r \<Longrightarrow> launcher_address r j = Some ?e \<Longrightarrow>
      within_timeout (launcher_timeoutMs r) now (launcher_seen r j) \<Longrightarrow> fst (register_launcher ?e ?ms ?port u now r) = j"
    by (auto simp: register_launcher_eq launcher_address_def launcher_seen_def intro: endpoint_enter_live)
  show "fst (register_launcher ?e ?ms ?port u now r) = u"
    if "launchers_wf r" and "\<And>j. launcher_address r j = Some ?e \<Longrightarrow>
      \<not> within_timeout (launcher_timeoutMs r) now (launcher_seen r j)"
  proof -
    have old: "launcher_timeoutMs r < now - launcher_lastSeen p"
      if "map_get (launchers r) j = Some p" and "launcher_endpoint p = ?e" for j p
      using that \<open>\<And>j. launcher_address r j = Some ?e \<Longrightarrow> _\<close> [of j]
      by (simp add: launcher_address_def launcher_seen_def)
    have "keys_distinct (launchers r)" using \<open>launchers_wf r\<close> by (simp add: entries_wf_def)
    then show ?thesis unfolding register_launcher_eq [OF \<open>launchers_wf r\<close>]
      by (simp only: fst_map_prod id_apply) (rule endpoint_enter_new, assumption, rule old)
  qed
  show "launchers_wf r \<Longrightarrow> register_launcher ?e ?ms ?port u now r = (j, r') \<Longrightarrow>
      launcher_seen r' j = Some now \<and> launcher_address r' j = Some ?e"
    by (auto simp: register_launcher_eq launcher_address_def launcher_seen_def map_prod_def split: prod.splits
        dest: endpoint_enter_entry)
  show "launcher_timeoutMs (snd (register_launcher ?e ?ms ?port u now r)) = launcher_timeoutMs r"
    by (simp add: register_launcher_def split: prod.splits option.splits)
  show "launchers_wf r \<Longrightarrow> launchers_wf (snd (register_launcher ?e ?ms ?port u now r))"
    by (rule launchers_wf_register)
qed

subsection \<open>Properties\<close>

text \<open>
  A launcher that registers again at the same endpoint, with whatever models and port, keeps
  its id while its entry is within the timeout and gets a fresh one afterwards. This is the
  rotation that makes an id alone an unreliable name of a machine.
\<close>

theorem launcher_reregistration:
  assumes "launchers_wf r" and "register_launcher e ms port u now r = (lid, r')"
  shows "fst (register_launcher e ms' port' u' now' r') =
    (if now' - now \<le> launcher_timeoutMs r then lid else u')"
  using launcherregistry.reenter_within_timeout [of r "(e, ms, port)" u now lid r' "(e, ms', port')" now' u']
    launcherregistry.reenter_after_timeout [of r "(e, ms, port)" u now lid r' "(e, ms', port')" now' u'] assms
  by auto

theorem launcher_reregistration_witness:
  "fst (register_launcher ''e'' [''m''] 1 ''v'' 40000
     (snd (register_launcher ''e'' [] 2 ''u'' 0 (new_launcher_registry 30000)))) = ''v''"
  using launcher_reregistration [of "new_launcher_registry 30000" "''e''" "[]" 2 "''u''" 0 "''u''"
      "snd (register_launcher ''e'' [] 2 ''u'' 0 (new_launcher_registry 30000))" "[''m'']" 1 "''v''" 40000]
  by (simp add: new_launcher_registry_def entries_wf_def register_launcher_def)

end
