(* ===== verification/Model_Catalog.thy ===== *)
theory Model_Catalog
  imports Coordinator_Prelude
begin

text \<open>
  The model catalog, \<^verbatim>\<open>coordinator/src/catalog.ts\<close>. A declared \<open>maxPipelines\<close> is an arbitrary
  JavaScript number (the code guards against NaN, fractions and values below 1); a declared
  \<open>requiredNodeCount\<close> is a whole number, as every entry of the code's catalogs declares it.
\<close>

record catalog_entry =
  entry_id :: string
  displayName :: string
  minActiveNodes :: rat
  entry_requiredNodeCount :: "int option"
  entry_maxPipelines :: "number option"

type_synonym catalog = "catalog_entry list"

definition DEFAULT_CATALOG :: catalog where
  "DEFAULT_CATALOG =
    [\<lparr>entry_id = ''tinyllama-1.1b'', displayName = ''TinyLlama 1.1B'', minActiveNodes = 0,
      entry_requiredNodeCount = None, entry_maxPipelines = None\<rparr>,
     \<lparr>entry_id = ''qwen2.5-0.5b'', displayName = ''Qwen2.5 0.5B Instruct'', minActiveNodes = 0,
      entry_requiredNodeCount = None, entry_maxPipelines = None\<rparr>,
     \<lparr>entry_id = ''deepseek-r1-distill-qwen-1.5b'', displayName = ''DeepSeek-R1-Distill-Qwen 1.5B'',
      minActiveNodes = 0, entry_requiredNodeCount = None, entry_maxPipelines = None\<rparr>,
     \<lparr>entry_id = ''small-7b'', displayName = ''Small 7-8B dense model'', minActiveNodes = 2,
      entry_requiredNodeCount = None, entry_maxPipelines = None\<rparr>,
     \<lparr>entry_id = ''mixtral-8x7b'', displayName = ''Mixtral 8x7B'', minActiveNodes = 5,
      entry_requiredNodeCount = None, entry_maxPipelines = None\<rparr>,
     \<lparr>entry_id = ''mixtral-8x22b'', displayName = ''Mixtral 8x22B'', minActiveNodes = 10,
      entry_requiredNodeCount = None, entry_maxPipelines = None\<rparr>]"

definition availability :: "rat \<Rightarrow> catalog \<Rightarrow> (catalog_entry \<times> bool) list" where
  "availability activeNodeCount c = map (\<lambda>e. (e, activeNodeCount \<ge> minActiveNodes e)) c"

definition has_model :: "catalog \<Rightarrow> string \<Rightarrow> bool" where
  "has_model c mid \<longleftrightarrow> (\<exists>e \<in> set c. entry_id e = mid)"

definition required_node_count :: "catalog \<Rightarrow> string \<Rightarrow> int" where
  "required_node_count c mid =
     (case find (\<lambda>e. entry_id e = mid) c of
        None \<Rightarrow> 1
      | Some e \<Rightarrow> (case entry_requiredNodeCount e of None \<Rightarrow> 1 | Some n \<Rightarrow> n))"

definition max_pipelines :: "catalog \<Rightarrow> string \<Rightarrow> int" where
  "max_pipelines c mid =
     (case find (\<lambda>e. entry_id e = mid) c of
        None \<Rightarrow> 1
      | Some e \<Rightarrow>
          (case entry_maxPipelines e of
             None \<Rightarrow> 1
           | Some declared \<Rightarrow>
               if is_integer declared \<and> \<not> num_lt declared 1 then \<lfloor>num_value declared\<rfloor> else 1))"

definition multi_pipeline_model_ids :: "catalog \<Rightarrow> string list" where
  "multi_pipeline_model_ids c =
     map entry_id (filter (\<lambda>e. (case entry_requiredNodeCount e of None \<Rightarrow> 1 | Some n \<Rightarrow> n) > 1) c)"

subsection \<open>What the pool code relies on\<close>

lemma max_pipelines_ge_1: "1 \<le> max_pipelines c mid"
proof -
  have "is_integer n \<Longrightarrow> \<not> num_lt n 1 \<Longrightarrow> 1 \<le> \<lfloor>num_value n\<rfloor>" for n
    by (cases n) (auto simp: le_floor_iff)
  then show ?thesis by (auto simp: max_pipelines_def split: option.splits)
qed

lemma multi_pipeline_covers:
  assumes "1 < required_node_count c mid"
  shows "mid \<in> set (multi_pipeline_model_ids c)"
proof -
  from assms obtain e n where "find (\<lambda>e. entry_id e = mid) c = Some e"
    and "entry_requiredNodeCount e = Some n" and "1 < n"
    by (auto simp: required_node_count_def split: option.splits)
  then show ?thesis
    using find_SomeD [of "\<lambda>e. entry_id e = mid" c e]
    by (force simp: multi_pipeline_model_ids_def)
qed

text \<open>The converse needs the ids of the catalog to be distinct.\<close>

lemma multi_pipeline_iff:
  assumes "distinct (map entry_id c)"
  shows "mid \<in> set (multi_pipeline_model_ids c) \<longleftrightarrow> 1 < required_node_count c mid"
proof
  assume "mid \<in> set (multi_pipeline_model_ids c)"
  then obtain e where e: "e \<in> set c" "entry_id e = mid"
    and n: "(case entry_requiredNodeCount e of None \<Rightarrow> 1 | Some n \<Rightarrow> n) > 1"
    by (auto simp: multi_pipeline_model_ids_def)
  have "find (\<lambda>e. entry_id e = mid) c = Some e"
    using e assms by (induction c) (force simp: image_iff)+
  then show "1 < required_node_count c mid"
    using n by (simp add: required_node_count_def)
qed (rule multi_pipeline_covers)

lemma has_model_default_single:
  "multi_pipeline_model_ids DEFAULT_CATALOG = []"
  by (simp add: multi_pipeline_model_ids_def DEFAULT_CATALOG_def)

end
