(* ===== verification/Pipeline_Tracker.thy ===== *)
theory Pipeline_Tracker
  imports Coordinator_Prelude
begin

text \<open>
  The pool of assembled pipelines per model, \<^verbatim>\<open>coordinator/src/pipeline_tracker.ts\<close>. The code's
  pool arrays are shared by reference: \<open>getPool\<close> hands out the array that \<open>addEntry\<close>,
  \<open>removeEntry\<close> and \<open>markEntryFailed\<close> mutate, and callers change an entry's \<open>lastUsedAt\<close> in
  place (\<open>touch_entry\<close>). In the model a caller reads the pool again where the code reads through
  a shared reference.
\<close>

datatype pipeline_state = Warm | Assembling | Failed

record pooled_pipeline =
  pipelineId :: string
  driverNodeId :: string
  computeNodeIds :: "string list"
  entry_launcherId :: string
  entry_launcherEndpoint :: "string option"
  entry_state :: pipeline_state
  lastUsedAt :: time

type_synonym pipeline_tracker = "(string, pooled_pipeline list) js_map"

definition new_pipeline_tracker :: pipeline_tracker where
  "new_pipeline_tracker = []"

definition get_pool :: "pipeline_tracker \<Rightarrow> string \<Rightarrow> pooled_pipeline list" where
  "get_pool t modelId = (case map_get t modelId of None \<Rightarrow> [] | Some pool \<Rightarrow> pool)"

definition add_entry :: "string \<Rightarrow> pooled_pipeline \<Rightarrow> pipeline_tracker \<Rightarrow> pipeline_tracker" where
  "add_entry modelId e t =
     (case map_get t modelId of
        Some pool \<Rightarrow> map_set modelId (pool @ [e]) t
      | None \<Rightarrow> map_set modelId [e] t)"

text \<open>\<open>findIndex\<close> then \<open>splice(index, 1)\<close>: the first entry with the id goes.\<close>

fun remove_first :: "string \<Rightarrow> pooled_pipeline list \<Rightarrow> pooled_pipeline list" where
  "remove_first pid [] = []"
| "remove_first pid (e # es) = (if pipelineId e = pid then es else e # remove_first pid es)"

definition remove_entry :: "string \<Rightarrow> string \<Rightarrow> pipeline_tracker \<Rightarrow> pipeline_tracker" where
  "remove_entry modelId pid t =
     (case map_get t modelId of
        None \<Rightarrow> t
      | Some pool \<Rightarrow> map_set modelId (remove_first pid pool) t)"

text \<open>\<open>find\<close> then an assignment to the entry found: the first entry with the id changes.\<close>

fun update_first :: "string \<Rightarrow> (pooled_pipeline \<Rightarrow> pooled_pipeline) \<Rightarrow> pooled_pipeline list \<Rightarrow> pooled_pipeline list" where
  "update_first pid f [] = []"
| "update_first pid f (e # es) = (if pipelineId e = pid then f e # es else e # update_first pid f es)"

definition mark_entry_failed :: "string \<Rightarrow> string \<Rightarrow> pipeline_tracker \<Rightarrow> pipeline_tracker" where
  "mark_entry_failed modelId pid t =
     (case map_get t modelId of
        None \<Rightarrow> t
      | Some pool \<Rightarrow> map_set modelId (update_first pid (\<lambda>e. e\<lparr>entry_state := Failed\<rparr>) pool) t)"

definition touch_entry :: "string \<Rightarrow> string \<Rightarrow> time \<Rightarrow> pipeline_tracker \<Rightarrow> pipeline_tracker" where
  "touch_entry modelId pid now t =
     (case map_get t modelId of
        None \<Rightarrow> t
      | Some pool \<Rightarrow> map_set modelId (update_first pid (\<lambda>e. e\<lparr>lastUsedAt := now\<rparr>) pool) t)"

named_theorems pool_simps \<open>what an operation does to each model's pool\<close>

lemma get_pool_add [pool_simps]:
  "get_pool (add_entry m e t) m' = (if m' = m then get_pool t m @ [e] else get_pool t m')"
  by (auto simp: get_pool_def add_entry_def js_map_simps split: option.splits)

lemma get_pool_remove [pool_simps]:
  "get_pool (remove_entry m pid t) m' =
     (if m' = m then remove_first pid (get_pool t m) else get_pool t m')"
  by (auto simp: get_pool_def remove_entry_def js_map_simps split: option.splits)

lemma get_pool_mark [pool_simps]:
  "get_pool (mark_entry_failed m pid t) m' =
     (if m' = m then update_first pid (\<lambda>e. e\<lparr>entry_state := Failed\<rparr>) (get_pool t m) else get_pool t m')"
  by (auto simp: get_pool_def mark_entry_failed_def js_map_simps split: option.splits)

lemma get_pool_touch [pool_simps]:
  "get_pool (touch_entry m pid now t) m' =
     (if m' = m then update_first pid (\<lambda>e. e\<lparr>lastUsedAt := now\<rparr>) (get_pool t m) else get_pool t m')"
  by (auto simp: get_pool_def touch_entry_def js_map_simps split: option.splits)

lemma get_pool_new [simp]: "get_pool new_pipeline_tracker m = []"
  by (simp add: get_pool_def new_pipeline_tracker_def)

subsection \<open>Pools with distinct pipeline ids\<close>

abbreviation ids_distinct :: "pooled_pipeline list \<Rightarrow> bool" where
  "ids_distinct es \<equiv> distinct (map pipelineId es)"

lemma set_remove_first_subset: "set (remove_first pid es) \<subseteq> set es"
  by (induction es) auto

lemma remove_first_distinct:
  "ids_distinct es \<Longrightarrow> remove_first pid es = filter (\<lambda>e. pipelineId e \<noteq> pid) es"
  by (induction es) (auto simp: image_iff intro!: filter_True [symmetric])

lemma update_first_distinct:
  "ids_distinct es \<Longrightarrow> update_first pid f es = map (\<lambda>e. if pipelineId e = pid then f e else e) es"
  by (induction es) (auto simp: image_iff intro!: map_idI [symmetric])

lemma length_update_first [simp]: "length (update_first pid f es) = length es"
  by (induction es) auto

lemma map_update_first: "(\<And>e. g (f e) = g e) \<Longrightarrow> map g (update_first pid f es) = map g es"
  by (induction es) auto

lemma length_remove_first:
  "length (remove_first pid es) = length es - (if pid \<in> pipelineId ` set es then 1 else 0)"
  by (induction es) (auto dest: length_pos_if_in_set)

lemma remove_first_absent: "pid \<notin> pipelineId ` set es \<Longrightarrow> remove_first pid es = es"
  by (induction es) auto

lemma remove_first_append:
  "pid \<notin> pipelineId ` set es \<Longrightarrow> remove_first pid (es @ fs) = es @ remove_first pid fs"
  by (induction es) auto

end
