(* ===== verification/Js_Doubles.thy ===== *)
theory Js_Doubles
  imports Coordinator_Prelude "HOL-Library.Log_Nat"
begin

text \<open>
  Division of JavaScript's numbers. A quotient of two doubles is the exact quotient rounded to 53
  significant bits, to the nearest such number and on a tie to the one with the even last bit. The
  model covers positive quotients within the exponent range of a double, which every quotient of
  event counts is. The lemmas: rounding is monotone, keeps doubles as they are, and moves a
  quotient by at most half a unit in its last place.
\<close>

text \<open>The exponent \<open>e\<close> with \<open>2 powi e \<le> q < 2 powi (e + 1)\<close>.\<close>

definition binary_exponent :: "rat \<Rightarrow> int" where
  "binary_exponent q =
     (let (n, d) = quotient_of q; e = bitlen n - bitlen d
      in if 2 powi e \<le> q then e else e - 1)"

definition round_even :: "rat \<Rightarrow> int" where
  "round_even x =
     (let f = \<lfloor>x\<rfloor>; r = x - of_int f
      in if r < 1 / 2 \<or> r = 1 / 2 \<and> even f then f else f + 1)"

definition last_place :: "rat \<Rightarrow> rat" where
  "last_place q = 2 powi (binary_exponent q - 52)"

definition round_double :: "rat \<Rightarrow> rat" where
  "round_double q = (if q \<le> 0 then 0 else of_int (round_even (q / last_place q)) * last_place q)"

definition js_div :: "rat \<Rightarrow> rat \<Rightarrow> rat" where
  "js_div x y = round_double (x / y)"

text \<open>A positive number is a double if rounding leaves it alone.\<close>

definition is_double :: "rat \<Rightarrow> bool" where
  "is_double q \<longleftrightarrow> round_double q = q"

subsection \<open>The exponent\<close>

lemma binary_exponent_bounds:
  assumes "0 < q"
  shows "2 powi binary_exponent q \<le> q \<and> q < 2 powi (binary_exponent q + 1)"
proof -
  obtain n d where nd: "quotient_of q = (n, d)" by force
  have d: "0 < d" by (rule quotient_of_denom_pos [OF nd])
  have q: "q = of_int n / of_int d" by (rule quotient_of_div [OF nd])
  then have n: "0 < n" using assms d by (simp add: zero_less_divide_iff)
  let ?e = "bitlen n - bitlen d"
  have pow: "0 < x \<Longrightarrow> (2 :: rat) powi (bitlen x - 1) \<le> of_int x \<and> of_int x < (2 :: rat) powi bitlen x" for x
  proof -
    assume x: "0 < x"
    then have len: "1 \<le> bitlen x" by (metis bitlen_eq_zero_iff bitlen_nonneg leD linorder_not_le order_le_less zero_less_imp_eq_int int_one_le_iff_zero_less)
    from bitlen_bounds [OF x] have "of_int (2 ^ nat (bitlen x - 1)) \<le> (of_int x :: rat)" "(of_int x :: rat) < of_int (2 ^ nat (bitlen x))"
      by (simp_all only: of_int_le_iff of_int_less_iff)
    with len show ?thesis by (simp add: power_int_def)
  qed
  have two: "(2 :: rat) powi (i + j) = 2 powi i * 2 powi j" for i j by (simp add: power_int_add)
  have "2 powi (?e - 1) * of_int d < (2 :: rat) powi (?e - 1) * 2 powi bitlen d"
    using pow [OF d] by simp
  also have "\<dots> = 2 powi (bitlen n - 1)" by (simp flip: two)
  also have "\<dots> \<le> of_int n" using pow [OF n] by simp
  finally have low: "2 powi (?e - 1) < q" using d q by (simp add: pos_less_divide_eq)
  have "of_int n < (2 :: rat) powi bitlen n" using pow [OF n] by simp
  also have "\<dots> = 2 powi (?e + 1) * 2 powi (bitlen d - 1)" by (simp flip: two)
  also have "\<dots> \<le> 2 powi (?e + 1) * of_int d" using pow [OF d] by simp
  finally have high: "q < 2 powi (?e + 1)" using d q by (simp add: pos_divide_less_eq)
  show ?thesis using low high nd by (auto simp: binary_exponent_def Let_def)
qed

lemma powi_mono: "i \<le> j \<Longrightarrow> (2 :: rat) powi i \<le> 2 powi j"
  by (rule power_int_increasing) simp_all

lemma powi_less: "(2 :: rat) powi i < 2 powi j \<Longrightarrow> i < j"
  using powi_mono [of j i] by force

lemma binary_exponent_mono:
  assumes "0 < p" and "p \<le> q"
  shows "binary_exponent p \<le> binary_exponent q"
proof -
  have "2 powi binary_exponent p < (2 :: rat) powi (binary_exponent q + 1)"
    using binary_exponent_bounds [of p] binary_exponent_bounds [of q] assms by linarith
  then show ?thesis using powi_less by force
qed

lemma last_place_pos: "0 < last_place q"
  by (simp add: last_place_def)

subsection \<open>Rounding to an integer\<close>

lemma round_even_of_int [simp]: "round_even (of_int n) = n"
  by (simp add: round_even_def)

lemma round_even_error: "\<bar>of_int (round_even x) - x\<bar> \<le> 1 / 2"
  by (simp add: round_even_def Let_def abs_if) linarith

lemma round_even_mono:
  assumes "x \<le> y"
  shows "round_even x \<le> round_even y"
proof (cases "\<lfloor>x\<rfloor> = \<lfloor>y\<rfloor>")
  case True
  then show ?thesis using assms by (auto simp: round_even_def Let_def)
next
  case False
  then have "\<lfloor>x\<rfloor> + 1 \<le> \<lfloor>y\<rfloor>" using floor_mono [OF assms] by linarith
  moreover have "round_even x \<le> \<lfloor>x\<rfloor> + 1" "\<lfloor>y\<rfloor> \<le> round_even y" by (simp_all add: round_even_def Let_def)
  ultimately show ?thesis by linarith
qed

subsection \<open>Rounding to a double\<close>

lemma scaled_last_place:
  "2 ^ 52 * last_place q = 2 powi binary_exponent q" "2 ^ 53 * last_place q = 2 powi (binary_exponent q + 1)"
proof -
  have "2 powi (52 :: int) * last_place q = 2 powi (52 + (binary_exponent q - 52))"
    "2 powi (53 :: int) * last_place q = 2 powi (53 + (binary_exponent q - 52))"
    unfolding last_place_def by (rule power_int_add [symmetric], simp)+
  moreover have "53 + (binary_exponent q - 52) = binary_exponent q + 1" by simp
  ultimately show "2 ^ 52 * last_place q = 2 powi binary_exponent q"
    "2 ^ 53 * last_place q = 2 powi (binary_exponent q + 1)" by simp_all
qed

lemma scaled_bounds:
  assumes "0 < q"
  shows "2 ^ 52 \<le> q / last_place q \<and> q / last_place q < 2 ^ 53"
proof -
  show ?thesis
    using binary_exponent_bounds [OF assms] last_place_pos [of q] scaled_last_place [of q]
    by (simp add: pos_le_divide_eq pos_divide_less_eq)
qed

lemma round_double_range:
  assumes "0 < q"
  shows "2 powi binary_exponent q \<le> round_double q \<and> round_double q \<le> 2 powi (binary_exponent q + 1)"
proof -
  have "round_even (of_int (2 ^ 52)) \<le> round_even (q / last_place q)"
    "round_even (q / last_place q) \<le> round_even (of_int (2 ^ 53))"
    using scaled_bounds [OF assms] by (intro round_even_mono; simp)+
  then have r: "2 ^ 52 \<le> round_even (q / last_place q)" "round_even (q / last_place q) \<le> 2 ^ 53"
    by (simp_all only: round_even_of_int)
  then have "of_int (2 ^ 52) * last_place q \<le> of_int (round_even (q / last_place q)) * last_place q"
    "of_int (round_even (q / last_place q)) * last_place q \<le> of_int (2 ^ 53) * last_place q"
    using last_place_pos [of q] by (simp_all only: mult_right_mono of_int_le_iff less_imp_le)
  then show ?thesis using assms scaled_last_place [of q] by (simp add: round_double_def)
qed

lemma round_double_pos: "0 < q \<Longrightarrow> 0 < round_double q"
  using round_double_range [of q] zero_less_power_int [of "2 :: rat" "binary_exponent q"] by linarith

lemma round_double_mono:
  assumes "p \<le> q"
  shows "round_double p \<le> round_double q"
proof (cases "0 < p")
  case True
  then have q: "0 < q" using assms by simp
  show ?thesis
  proof (cases "binary_exponent p = binary_exponent q")
    case True
    then have u: "last_place p = last_place q" by (simp add: last_place_def)
    have "p / last_place q \<le> q / last_place q" using assms last_place_pos [of q] by (simp add: divide_right_mono)
    then have "round_even (p / last_place q) \<le> round_even (q / last_place q)" by (rule round_even_mono)
    then show ?thesis using \<open>0 < p\<close> q last_place_pos [of q] by (simp add: round_double_def u)
  next
    case False
    then have "binary_exponent p + 1 \<le> binary_exponent q" using binary_exponent_mono [OF True assms] by simp
    then have "2 powi (binary_exponent p + 1) \<le> (2 :: rat) powi binary_exponent q" by (rule powi_mono)
    then show ?thesis using round_double_range [OF True] round_double_range [OF q] by linarith
  qed
next
  case False
  then show ?thesis using round_double_pos [of q] by (cases "0 < q") (auto simp: round_double_def)
qed

lemma round_double_error:
  assumes "0 < q"
  shows "\<bar>round_double q - q\<bar> \<le> last_place q / 2"
proof -
  let ?u = "last_place q"
  have "round_double q - q = (of_int (round_even (q / ?u)) - q / ?u) * ?u"
    using assms last_place_pos [of q] by (simp add: round_double_def field_simps)
  then have "\<bar>round_double q - q\<bar> = \<bar>of_int (round_even (q / ?u)) - q / ?u\<bar> * ?u"
    using last_place_pos [of q] by (simp add: abs_mult)
  also have "\<dots> \<le> 1 / 2 * ?u"
    using round_even_error [of "q / ?u"] last_place_pos [of q] by (intro mult_right_mono) simp_all
  finally show ?thesis by simp
qed

text \<open>Comparing a rounded quotient with a double.\<close>

lemma round_double_less_iff:
  assumes "is_double t"
  shows "round_double q < t \<longleftrightarrow> q < t \<and> round_double q \<noteq> t"
proof -
  have "t \<le> q \<Longrightarrow> t \<le> round_double q" using round_double_mono [of t q] assms by (simp add: is_double_def)
  moreover have "q \<le> t \<Longrightarrow> round_double q \<le> t" using round_double_mono [of q t] assms by (simp add: is_double_def)
  ultimately show ?thesis by force
qed

text \<open>One half is far enough from every smaller quotient of counts.\<close>

lemma js_div_half:
  assumes "0 < t" and "t \<le> (2 :: nat) ^ 53"
  shows "js_div (of_nat d) (of_nat t) < 1 / 2 \<longleftrightarrow> 2 * d < t"
proof -
  let ?q = "of_nat d / of_nat t :: rat"
  have half: "is_double (1 / 2)" by code_simp
  have t: "0 < (of_nat t :: rat)" using assms(1) by simp
  have q: "?q < 1 / 2 \<longleftrightarrow> 2 * d < t"
  proof -
    have "?q < 1 / 2 \<longleftrightarrow> of_nat (2 * d) < (of_nat t :: rat)" using t by (simp add: pos_divide_less_eq mult.commute)
    then show ?thesis by (simp only: of_nat_less_iff)
  qed
  have "round_double ?q \<noteq> 1 / 2" if less: "?q < 1 / 2"
  proof (cases "0 < ?q")
    case True
    have "(2 :: rat) powi (- 1) = 1 / 2" by (simp add: power_int_minus)
    with binary_exponent_bounds [OF True] less have "2 powi binary_exponent ?q < (2 :: rat) powi (- 1)" by linarith
    from powi_less [OF this] have "binary_exponent ?q - 52 \<le> - 54" by simp
    then have "last_place ?q \<le> 2 powi (- 54)" unfolding last_place_def by (rule powi_mono)
    then have err: "round_double ?q \<le> ?q + 2 powi (- 54) / 2" using round_double_error [OF True] by linarith
    have "2 * d + 1 \<le> t" using less q by simp
    then have "of_nat (2 * d + 1) \<le> (of_nat t :: rat)" by (simp only: of_nat_le_iff)
    then have "?q \<le> 1 / 2 - 1 / (2 * of_nat t)" using t by (simp add: field_simps)
    moreover have "of_nat t \<le> (of_nat (2 ^ 53) :: rat)" using assms(2) by (simp only: of_nat_le_iff)
    then have "2 powi (- 54) \<le> 1 / (2 * (of_nat t :: rat))" using t by (simp add: power_int_minus field_simps)
    moreover have "0 < (2 :: rat) powi (- 54)" by simp
    ultimately show ?thesis using err by linarith
  next
    case False
    then show ?thesis by (simp add: round_double_def)
  qed
  then show ?thesis using round_double_less_iff [OF half, of ?q] q by (auto simp: js_div_def)
qed

text \<open>
  Whole numbers up to \<open>2 ^ 53\<close> are doubles, and the ceiling of a quotient of counts is not moved by
  rounding.
\<close>

lemma is_double_scaled:
  assumes "q = of_int k * last_place q" and "0 < q"
  shows "is_double q"
proof -
  from assms(1) last_place_pos [of q] have "q / last_place q = of_int k" by (simp add: divide_eq_eq)
  then show ?thesis using assms by (simp add: is_double_def round_double_def)
qed

lemma whole_is_double:
  assumes "0 < n" and "n \<le> (2 :: int) ^ 53"
  shows "is_double (of_int n)"
proof (cases "binary_exponent (of_int n) \<le> 52")
  case True
  let ?k = "nat (52 - binary_exponent (of_int n))"
  have "(2 :: rat) powi int ?k * last_place (of_int n) = 2 powi (int ?k + (binary_exponent (of_int n) - 52))"
    unfolding last_place_def by (rule power_int_add [symmetric]) simp
  also have "\<dots> = 1" using True by simp
  finally have "(2 :: rat) ^ ?k * last_place (of_int n) = 1" by (simp only: power_int_of_nat)
  then have "(of_int n :: rat) = of_int (n * 2 ^ ?k) * last_place (of_int n)" by (simp add: mult.assoc)
  then show ?thesis using assms(1) by (intro is_double_scaled [where k = "n * 2 ^ ?k"]) simp_all
next
  case False
  have n: "0 < (of_int n :: rat)" using assms(1) by simp
  have "(2 :: rat) ^ 53 = 2 powi 53" by simp
  also have "\<dots> \<le> 2 powi binary_exponent (of_int n)" using False by (intro powi_mono) simp
  also have "\<dots> \<le> of_int n" using binary_exponent_bounds [OF n] by simp
  finally have "of_int (2 ^ 53) \<le> (of_int n :: rat)" by simp
  then have "n = 2 ^ 53" using assms(2) by (simp only: of_int_le_iff)
  moreover have "is_double (of_int (2 ^ 53))" by code_simp
  ultimately show ?thesis by simp
qed

lemma js_div_ceiling:
  assumes "0 < t" and "d < (2 :: nat) ^ 53"
  shows "\<lceil>js_div (of_nat d) (of_nat t)\<rceil> = \<lceil>(of_nat d / of_nat t :: rat)\<rceil>"
proof (cases "d = 0")
  case True
  then show ?thesis by (simp add: js_div_def round_double_def)
next
  case False
  let ?q = "of_nat d / of_nat t :: rat" and ?n = "\<lceil>of_nat d / of_nat t :: rat\<rceil>"
  have t: "0 < (of_nat t :: rat)" and q: "0 < ?q" using assms(1) False by simp_all
  have n: "0 < ?n" using q by (simp add: less_ceiling_iff)
  have "1 \<le> (of_nat t :: rat)" using assms(1) by (simp add: Suc_leI)
  then have "?q \<le> of_nat d" using t using mult_left_mono [of 1 "of_nat t :: rat" "of_nat d"]
    by (simp add: pos_divide_le_eq del: mult_left_mono)
  then have "?n \<le> int d" by (simp add: ceiling_le_iff)
  also have "int d < int (2 ^ 53)" using assms(2) by (simp only: of_nat_less_iff)
  then have "int d \<le> 2 ^ 53" by simp
  finally have "is_double (of_int ?n)" using n by (intro whole_is_double)
  then have upper: "round_double ?q \<le> of_int ?n"
    using round_double_mono [of ?q "of_int ?n"] by (simp add: is_double_def le_of_int_ceiling)
  have "of_int (?n - 1) < ?q" using ceiling_correct [of ?q] by simp
  then have "of_int (?n - 1) * of_nat t < (of_nat d :: rat)" using t by (simp add: pos_less_divide_eq)
  then have "of_int ((?n - 1) * int t) < (of_int (int d) :: rat)" by simp
  then have "(?n - 1) * int t + 1 \<le> int d" by (simp only: of_int_less_iff)
  then have "of_int ((?n - 1) * int t + 1) \<le> (of_int (int d) :: rat)" by (simp only: of_int_le_iff)
  then have "of_int (?n - 1) * of_nat t + 1 \<le> (of_nat d :: rat)" by simp
  then have "(of_int (?n - 1) * of_nat t + 1) / of_nat t \<le> ?q" using t by (intro divide_right_mono) simp_all
  then have gap: "of_int (?n - 1) + 1 / of_nat t \<le> ?q" using t by (simp only: add_divide_distrib) simp
  have "last_place ?q * 2 ^ 52 \<le> ?q"
    using scaled_last_place(1) [of ?q] binary_exponent_bounds [OF q] by (simp add: mult.commute)
  moreover have "of_nat d < (of_nat (2 ^ 53) :: rat)" using assms(2) by (simp only: of_nat_less_iff)
  then have "?q < 2 ^ 53 * (1 / of_nat t)" using t by (simp add: divide_strict_right_mono)
  ultimately have "last_place ?q / 2 < 1 / of_nat t" by simp
  then have "of_int (?n - 1) < round_double ?q" using round_double_error [OF q] gap by linarith
  with upper show ?thesis unfolding js_div_def by (simp add: ceiling_eq_iff)
qed

end
