(* ===== verification/Pool_Planner.thy ===== *)
theory Pool_Planner
  imports Launcher_Registry Model_Catalog Pipeline_Tracker Js_Doubles
begin

text \<open>
  The pure half of the pool manager, \<^verbatim>\<open>coordinator/src/pipeline_pool_manager.ts\<close>: how many
  pipelines a model should have (\<open>desired_pipeline_count\<close>), which launchers are spoken for
  (\<open>claimed_launcher_ids\<close>, \<open>is_launcher_claimed\<close>) and who claims what in a tick
  (\<open>plan_allocations\<close>). A launcher is claimed under its id and under its endpoint; the two strings
  of a launcher are its \<open>claim_keys\<close>. The lemmas show the plan's invariants: no preemption, no
  double claim, no launcher left idle that an under-provisioned model could use, and the busiest
  model first.

  The division in \<open>desired_pipeline_count\<close> is exact. For a whole number of requests per pipeline, as
  the default 10 is, the ceiling of the code's rounded quotient is the same (\<open>desired_division\<close>);
  for a fractional one the rounding can move it.
\<close>

definition desired_pipeline_count :: "nat \<Rightarrow> int \<Rightarrow> int \<Rightarrow> rat \<Rightarrow> int" where
  "desired_pipeline_count demand maxPipelines requiredNodeCount requestsPerPipeline =
     (if requiredNodeCount \<le> 1 then 0
      else (let fromDemand = \<lceil>of_nat demand / requestsPerPipeline\<rceil>
            in max 1 (min fromDemand maxPipelines)))"

definition is_launcher_claimed :: "string set \<Rightarrow> launcher_info \<Rightarrow> bool" where
  "is_launcher_claimed claimed l \<longleftrightarrow> launcherId l \<in> claimed \<or> launcher_endpoint l \<in> claimed"

record pool_demand_snapshot =
  snap_modelId :: string
  demand :: nat
  currentCount :: nat
  desiredCount :: int

record pipeline_claim =
  claim_modelId :: string
  claim_launcher :: launcher_info

text \<open>The inner loop over a model's launchers, and the outer loop over the models.\<close>

fun claim_loop ::
  "string \<Rightarrow> launcher_info list \<Rightarrow> int \<Rightarrow> string set \<Rightarrow> pipeline_claim list \<Rightarrow>
   string set \<times> pipeline_claim list" where
  "claim_loop m [] deficit claimed claims = (claimed, claims)"
| "claim_loop m (l # ls) deficit claimed claims =
     (if deficit \<le> 0 then (claimed, claims)
      else if is_launcher_claimed claimed l then claim_loop m ls deficit claimed claims
      else claim_loop m ls (deficit - 1)
             (insert (launcher_endpoint l) (insert (launcherId l) claimed))
             (claims @ [\<lparr>claim_modelId = m, claim_launcher = l\<rparr>]))"

fun plan_loop ::
  "(string \<Rightarrow> launcher_info list) \<Rightarrow> pool_demand_snapshot list \<Rightarrow> string set \<Rightarrow> pipeline_claim list \<Rightarrow>
   string set \<times> pipeline_claim list" where
  "plan_loop launchersFor [] claimed claims = (claimed, claims)"
| "plan_loop launchersFor (s # ss) claimed claims =
     (let (claimed', claims') = claim_loop (snap_modelId s) (launchersFor (snap_modelId s))
            (desiredCount s - int (currentCount s)) claimed claims
      in plan_loop launchersFor ss claimed' claims')"

definition under_provisioned :: "pool_demand_snapshot list \<Rightarrow> pool_demand_snapshot list" where
  "under_provisioned ss =
     sort_key (\<lambda>s. - int (demand s)) (filter (\<lambda>s. desiredCount s > int (currentCount s)) ss)"

definition plan_allocations ::
  "pool_demand_snapshot list \<Rightarrow> (string \<Rightarrow> launcher_info list) \<Rightarrow> string set \<Rightarrow> pipeline_claim list" where
  "plan_allocations snapshots launchersFor claimed =
     snd (plan_loop launchersFor (under_provisioned snapshots) claimed [])"

text \<open>
  The tally of busy launchers. \<open>entry === exclude\<close> compares references; an entry is one object
  with an id of its own, so the model compares values. The endpoint counts when it is a non-empty
  string.
\<close>

fun tally_pool :: "pooled_pipeline option \<Rightarrow> pooled_pipeline list \<Rightarrow> string set \<Rightarrow> string set" where
  "tally_pool exclude [] claimed = claimed"
| "tally_pool exclude (e # es) claimed =
     (if exclude = Some e then tally_pool exclude es claimed
      else tally_pool exclude es
        (let claimed' = insert (entry_launcherId e) claimed
         in case entry_launcherEndpoint e of
              None \<Rightarrow> claimed'
            | Some a \<Rightarrow> if a = [] then claimed' else insert a claimed'))"

definition claimed_launcher_ids :: "catalog \<Rightarrow> pipeline_tracker \<Rightarrow> pooled_pipeline option \<Rightarrow> string set" where
  "claimed_launcher_ids c t exclude =
     fold (\<lambda>m. tally_pool exclude (get_pool t m)) (multi_pipeline_model_ids c) {}"

subsection \<open>Which strings the tally holds\<close>

definition claim_keys :: "launcher_info \<Rightarrow> string set" where
  "claim_keys l = {launcherId l, launcher_endpoint l}"

definition entry_keys :: "pooled_pipeline \<Rightarrow> string set" where
  "entry_keys e = insert (entry_launcherId e) (set_option (entry_launcherEndpoint e) - {[]})"

lemma is_launcher_claimed_iff: "is_launcher_claimed claimed l \<longleftrightarrow> claim_keys l \<inter> claimed \<noteq> {}"
  by (auto simp: is_launcher_claimed_def claim_keys_def)

lemma tally_pool_eq: "tally_pool x es claimed = claimed \<union> (\<Union>e \<in> {e \<in> set es. x \<noteq> Some e}. entry_keys e)"
  by (induction x es claimed rule: tally_pool.induct)
    (auto simp: entry_keys_def Let_def split: option.splits if_splits)

lemma claimed_launcher_ids_eq:
  "claimed_launcher_ids c t x =
     (\<Union>m \<in> set (multi_pipeline_model_ids c). \<Union>e \<in> {e \<in> set (get_pool t m). x \<noteq> Some e}. entry_keys e)"
proof -
  have "fold (\<lambda>m. tally_pool x (get_pool t m)) ms K =
      K \<union> (\<Union>m \<in> set ms. \<Union>e \<in> {e \<in> set (get_pool t m). x \<noteq> Some e}. entry_keys e)" for ms K
    by (induction ms arbitrary: K) (auto simp: tally_pool_eq)
  then show ?thesis by (simp add: claimed_launcher_ids_def)
qed

lemma unclaimed_entry_disjoint:
  assumes "\<not> is_launcher_claimed (claimed_launcher_ids c t x) l"
    and "m \<in> set (multi_pipeline_model_ids c)" and "e \<in> set (get_pool t m)" and "x \<noteq> Some e"
  shows "claim_keys l \<inter> entry_keys e = {}"
  using assms by (auto simp: is_launcher_claimed_iff claimed_launcher_ids_eq)

subsection \<open>The desired count\<close>

lemma desired_division:
  "0 < t \<Longrightarrow> d < 2 ^ 53 \<Longrightarrow> \<lceil>(of_nat d / of_nat t :: rat)\<rceil> = \<lceil>js_div (of_nat d) (of_nat t)\<rceil>"
  by (rule js_div_ceiling [symmetric])

lemma desired_single: "req \<le> 1 \<Longrightarrow> desired_pipeline_count d mx req rpp = 0"
  by (simp add: desired_pipeline_count_def)

lemma desired_bounds:
  assumes "1 < req"
  shows "1 \<le> desired_pipeline_count d mx req rpp \<and> desired_pipeline_count d mx req rpp \<le> max 1 mx"
  using assms by (simp add: desired_pipeline_count_def Let_def)

lemma desired_mono:
  assumes "d \<le> d'" and "0 < rpp"
  shows "desired_pipeline_count d mx req rpp \<le> desired_pipeline_count d' mx req rpp"
proof -
  have "of_nat d / rpp \<le> of_nat d' / rpp" using assms by (simp add: divide_right_mono)
  then have "\<lceil>of_nat d / rpp\<rceil> \<le> \<lceil>of_nat d' / rpp\<rceil>" by (rule ceiling_mono)
  then show ?thesis by (simp add: desired_pipeline_count_def Let_def) linarith
qed

subsection \<open>The plan\<close>

text \<open>
  What the inner loop adds: the launchers it takes are a subsequence of the model's, free before
  and disjoint from each other, at most the deficit, and all free ones if they are fewer.
\<close>

definition keys_of :: "pipeline_claim list \<Rightarrow> string set" where
  "keys_of cs = (\<Union>c \<in> set cs. claim_keys (claim_launcher c))"

definition pairwise_free :: "pipeline_claim list \<Rightarrow> bool" where
  "pairwise_free cs \<longleftrightarrow>
     sorted_wrt (\<lambda>a b. claim_keys (claim_launcher a) \<inter> claim_keys (claim_launcher b) = {}) cs"

lemma keys_of_simps [simp]:
  "keys_of [] = {}" "keys_of (c # cs) = claim_keys (claim_launcher c) \<union> keys_of cs"
  "keys_of (cs @ ds) = keys_of cs \<union> keys_of ds"
  by (auto simp: keys_of_def)

lemma claim_loop_spec:
  "\<exists>new. claim_loop m ls deficit claimed claims = (claimed \<union> keys_of new, claims @ new) \<and>
     (\<forall>c \<in> set new. claim_modelId c = m \<and> claim_launcher c \<in> set ls) \<and>
     keys_of new \<inter> claimed = {} \<and> pairwise_free new \<and>
     int (length new) \<le> max 0 deficit \<and>
     (int (length new) < deficit \<longrightarrow> (\<forall>l \<in> set ls. is_launcher_claimed (claimed \<union> keys_of new) l))"
proof (induction ls arbitrary: deficit claimed claims)
  case Nil
  then show ?case by (intro exI [of _ "[]"]) (auto simp: pairwise_free_def)
next
  case (Cons l ls)
  consider (full) "deficit \<le> 0" | (skip) "0 < deficit" "is_launcher_claimed claimed l"
    | (take) "0 < deficit" "\<not> is_launcher_claimed claimed l" by linarith
  then show ?case
  proof cases
    case full
    then show ?thesis by (intro exI [of _ "[]"]) (auto simp: pairwise_free_def)
  next
    case skip
    obtain new where new: "claim_loop m ls deficit claimed claims = (claimed \<union> keys_of new, claims @ new)"
      "\<forall>c \<in> set new. claim_modelId c = m \<and> claim_launcher c \<in> set ls"
      "keys_of new \<inter> claimed = {}" "pairwise_free new" "int (length new) \<le> max 0 deficit"
      "int (length new) < deficit \<longrightarrow> (\<forall>l \<in> set ls. is_launcher_claimed (claimed \<union> keys_of new) l)"
      using Cons.IH [of deficit claimed claims] by blast
    then show ?thesis using skip
      by (intro exI [of _ new]) (auto simp: is_launcher_claimed_def)
  next
    case take
    let ?c = "\<lparr>claim_modelId = m, claim_launcher = l\<rparr>"
    let ?claimed = "insert (launcher_endpoint l) (insert (launcherId l) claimed)"
    have K: "?claimed = claimed \<union> claim_keys l" by (auto simp: claim_keys_def)
    obtain new where new: "claim_loop m ls (deficit - 1) ?claimed (claims @ [?c]) =
        (?claimed \<union> keys_of new, (claims @ [?c]) @ new)"
      "\<forall>c \<in> set new. claim_modelId c = m \<and> claim_launcher c \<in> set ls"
      "keys_of new \<inter> ?claimed = {}" "pairwise_free new" "int (length new) \<le> max 0 (deficit - 1)"
      "int (length new) < deficit - 1 \<longrightarrow> (\<forall>l \<in> set ls. is_launcher_claimed (?claimed \<union> keys_of new) l)"
      using Cons.IH [of "deficit - 1" ?claimed "claims @ [?c]"] by blast
    have free: "claim_keys l \<inter> claimed = {}" using take by (simp add: is_launcher_claimed_iff)
    have "claim_loop m (l # ls) deficit claimed claims =
        (claimed \<union> keys_of (?c # new), claims @ ?c # new)"
      using take new(1) K by (simp add: Un_assoc)
    moreover have "pairwise_free (?c # new)"
      using new(3,4) K by (auto simp: pairwise_free_def keys_of_def)
    moreover have "int (length (?c # new)) < deficit \<longrightarrow>
        (\<forall>l' \<in> set (l # ls). is_launcher_claimed (claimed \<union> keys_of (?c # new)) l')"
      using new(6) K by (auto simp: is_launcher_claimed_def claim_keys_def)
    ultimately show ?thesis using new(2,3,5) free take(1) K
      by (intro exI [of _ "?c # new"]) auto
  qed
qed

text \<open>
  The outer loop, for snapshots of distinct models. The last conjunct is the order of service: a
  launcher that a model could have used goes to a later model only once the earlier one has its
  whole deficit.
\<close>

definition claims_for :: "string \<Rightarrow> pipeline_claim list \<Rightarrow> pipeline_claim list" where
  "claims_for m cs = filter (\<lambda>c. claim_modelId c = m) cs"

definition deficit_of :: "pool_demand_snapshot \<Rightarrow> int" where
  "deficit_of s = desiredCount s - int (currentCount s)"

lemma claims_for_simps [simp]:
  "claims_for m [] = []"
  "claims_for m (cs @ ds) = claims_for m cs @ claims_for m ds"
  by (simp_all add: claims_for_def)

lemma claims_for_all: "\<forall>c \<in> set cs. claim_modelId c = m \<Longrightarrow> claims_for m cs = cs"
  by (simp add: claims_for_def)

lemma claims_for_none: "\<forall>c \<in> set cs. claim_modelId c \<noteq> m \<Longrightarrow> claims_for m cs = []"
  by (auto simp: claims_for_def filter_empty_conv)

definition plan_ok ::
  "(string \<Rightarrow> launcher_info list) \<Rightarrow> pool_demand_snapshot list \<Rightarrow> string set \<Rightarrow> pipeline_claim list \<Rightarrow> bool" where
  "plan_ok L ss claimed new \<longleftrightarrow>
     (\<forall>c \<in> set new. claim_modelId c \<in> snap_modelId ` set ss \<and> claim_launcher c \<in> set (L (claim_modelId c))) \<and>
     keys_of new \<inter> claimed = {} \<and> pairwise_free new \<and>
     (\<forall>s \<in> set ss. int (length (claims_for (snap_modelId s) new)) \<le> max 0 (deficit_of s) \<and>
        (int (length (claims_for (snap_modelId s) new)) < deficit_of s \<longrightarrow>
           (\<forall>l \<in> set (L (snap_modelId s)). is_launcher_claimed (claimed \<union> keys_of new) l)))"

definition served_in_order ::
  "(string \<Rightarrow> launcher_info list) \<Rightarrow> pool_demand_snapshot list \<Rightarrow> pipeline_claim list \<Rightarrow> bool" where
  "served_in_order L ss new \<longleftrightarrow>
     sorted_wrt (\<lambda>s s'. int (length (claims_for (snap_modelId s) new)) < deficit_of s \<longrightarrow>
        (\<forall>c \<in> set (claims_for (snap_modelId s') new). claim_launcher c \<notin> set (L (snap_modelId s)))) ss"

lemma is_launcher_claimed_mono: "is_launcher_claimed K l \<Longrightarrow> K \<subseteq> K' \<Longrightarrow> is_launcher_claimed K' l"
  by (auto simp: is_launcher_claimed_def)

lemma claim_key_in: "c \<in> set cs \<Longrightarrow> claim_keys (claim_launcher c) \<subseteq> keys_of cs"
  by (auto simp: keys_of_def)

lemma pairwise_free_append:
  "pairwise_free cs \<Longrightarrow> pairwise_free ds \<Longrightarrow> keys_of ds \<inter> keys_of cs = {} \<Longrightarrow> pairwise_free (cs @ ds)"
  unfolding pairwise_free_def sorted_wrt_append using claim_key_in by fast

lemma plan_loop_spec:
  assumes "distinct (map snap_modelId ss)"
  shows "\<exists>new. plan_loop L ss claimed claims = (claimed \<union> keys_of new, claims @ new) \<and>
    plan_ok L ss claimed new \<and> served_in_order L ss new"
  using assms
proof (induction ss arbitrary: claimed claims)
  case Nil
  then show ?case
    by (intro exI [of _ "[]"]) (simp add: plan_ok_def served_in_order_def pairwise_free_def)
next
  case (Cons s ss)
  let ?m = "snap_modelId s"
  have dist: "distinct (map snap_modelId ss)" and "?m \<notin> snap_modelId ` set ss"
    using Cons.prems by simp_all
  then have fresh: "\<forall>s' \<in> set ss. snap_modelId s' \<noteq> ?m" by (metis imageI)
  obtain mine where mine: "claim_loop ?m (L ?m) (deficit_of s) claimed claims = (claimed \<union> keys_of mine, claims @ mine)"
    "\<forall>c \<in> set mine. claim_modelId c = ?m \<and> claim_launcher c \<in> set (L ?m)"
    "keys_of mine \<inter> claimed = {}" "pairwise_free mine" "int (length mine) \<le> max 0 (deficit_of s)"
    and idle: "int (length mine) < deficit_of s \<longrightarrow> (\<forall>l \<in> set (L ?m). is_launcher_claimed (claimed \<union> keys_of mine) l)"
    using claim_loop_spec by blast
  obtain rest where rest: "plan_loop L ss (claimed \<union> keys_of mine) (claims @ mine) =
      (claimed \<union> keys_of mine \<union> keys_of rest, (claims @ mine) @ rest)"
    and ok: "plan_ok L ss (claimed \<union> keys_of mine) rest" and order: "served_in_order L ss rest"
    using Cons.IH [OF dist] by blast
  let ?new = "mine @ rest"
  have rest_ids: "\<forall>c \<in> set rest. claim_modelId c \<noteq> ?m"
    using ok fresh by (force simp: plan_ok_def)
  have for_s: "claims_for ?m ?new = mine"
    using mine(2) rest_ids by (simp add: claims_for_all claims_for_none)
  have for_s': "claims_for (snap_modelId s') ?new = claims_for (snap_modelId s') rest" if "s' \<in> set ss" for s'
  proof -
    have "\<forall>c \<in> set mine. claim_modelId c \<noteq> snap_modelId s'" using mine(2) fresh that by metis
    then show ?thesis by (simp add: claims_for_none)
  qed
  have "plan_loop L (s # ss) claimed claims = (claimed \<union> keys_of ?new, claims @ ?new)"
    using mine(1) rest by (simp add: deficit_of_def Un_assoc)
  moreover have "plan_ok L (s # ss) claimed ?new"
    unfolding plan_ok_def
  proof (intro conjI ballI)
    show "keys_of ?new \<inter> claimed = {}" using mine(3) ok by (auto simp: plan_ok_def)
    show "pairwise_free ?new"
      using mine(4) ok by (intro pairwise_free_append) (auto simp: plan_ok_def)
    fix c assume "c \<in> set ?new"
    then show "claim_modelId c \<in> snap_modelId ` set (s # ss)" and "claim_launcher c \<in> set (L (claim_modelId c))"
      using mine(2) ok by (auto simp: plan_ok_def)
  next
    fix s' assume s': "s' \<in> set (s # ss)"
    let ?n = "int (length (claims_for (snap_modelId s') ?new))"
    have "?n \<le> max 0 (deficit_of s') \<and> (?n < deficit_of s' \<longrightarrow>
        (\<forall>l \<in> set (L (snap_modelId s')). is_launcher_claimed (claimed \<union> keys_of ?new) l))"
    proof (cases "s' = s")
      case True
      with for_s mine(5) idle show ?thesis by (auto elim: is_launcher_claimed_mono)
    next
      case False
      with s' have "s' \<in> set ss" by simp
      with ok for_s' show ?thesis by (simp add: plan_ok_def Un_assoc)
    qed
    then show "?n \<le> max 0 (deficit_of s')" and "?n < deficit_of s' \<longrightarrow>
        (\<forall>l \<in> set (L (snap_modelId s')). is_launcher_claimed (claimed \<union> keys_of ?new) l)"
      by blast+
  qed
  moreover have "served_in_order L (s # ss) ?new"
  proof -
    have "claim_launcher c \<notin> set (L ?m)" if "int (length mine) < deficit_of s" and "c \<in> set rest" for c
    proof
      assume "claim_launcher c \<in> set (L ?m)"
      with idle that(1) have "claim_keys (claim_launcher c) \<inter> (claimed \<union> keys_of mine) \<noteq> {}"
        by (simp add: is_launcher_claimed_iff)
      with claim_key_in [OF that(2)] ok show False by (auto simp: plan_ok_def)
    qed
    then have "\<forall>s' \<in> set ss. int (length (claims_for ?m ?new)) < deficit_of s \<longrightarrow>
        (\<forall>c \<in> set (claims_for (snap_modelId s') ?new). claim_launcher c \<notin> set (L ?m))"
      using for_s for_s' by (auto simp: claims_for_def)
    moreover have "served_in_order L ss ?new"
      using order unfolding served_in_order_def
      by (rule sorted_wrt_mono_rel [rotated]) (simp add: for_s' del: claims_for_simps)
    ultimately show ?thesis by (simp add: served_in_order_def)
  qed
  ultimately show ?case by blast
qed

lemma under_provisioned_set:
  "set (under_provisioned ss) = {s \<in> set ss. desiredCount s > int (currentCount s)}"
  by (simp add: under_provisioned_def)

lemma under_provisioned_distinct:
  "distinct (map snap_modelId ss) \<Longrightarrow> distinct (map snap_modelId (under_provisioned ss))"
  by (simp add: under_provisioned_def distinct_map inj_on_def)

lemma under_provisioned_sorted:
  "sorted_wrt (\<lambda>s s'. demand s' \<le> demand s) (under_provisioned ss)"
proof -
  have "sorted (map (\<lambda>s. - int (demand s)) (under_provisioned ss))"
    by (simp add: under_provisioned_def)
  then show ?thesis by (simp add: sorted_map)
qed

lemma plan_allocations_spec:
  assumes "distinct (map snap_modelId ss)"
  shows "plan_ok L (under_provisioned ss) claimed (plan_allocations ss L claimed) \<and>
    served_in_order L (under_provisioned ss) (plan_allocations ss L claimed)"
  using plan_loop_spec [OF under_provisioned_distinct [OF assms], of L claimed "[]"]
  by (auto simp: plan_allocations_def)

subsection \<open>Properties\<close>

text \<open>
  C19: No preemption and no double claim. For any snapshots of distinct models and any launcher
  lists, every planned claim gives an under-provisioned model a launcher from that model's list;
  no claimed launcher shares its id or its endpoint with a busy launcher or with another claim;
  and no model gets more launchers than it is short of.
\<close>

theorem plan_no_preemption_no_double_claim:
  assumes "distinct (map snap_modelId ss)"
  shows "let plan = plan_allocations ss L busy in
    (\<forall>c \<in> set plan. \<not> is_launcher_claimed busy (claim_launcher c) \<and>
       claim_launcher c \<in> set (L (claim_modelId c)) \<and>
       (\<exists>s \<in> set ss. snap_modelId s = claim_modelId c \<and> int (currentCount s) < desiredCount s \<and>
          int (currentCount s) + int (length (filter (\<lambda>c'. claim_modelId c' = claim_modelId c) plan))
            \<le> desiredCount s)) \<and>
    (\<forall>i j. i < j \<longrightarrow> j < length plan \<longrightarrow>
       launcherId (claim_launcher (plan ! i)) \<noteq> launcherId (claim_launcher (plan ! j)) \<and>
       launcher_endpoint (claim_launcher (plan ! i)) \<noteq> launcher_endpoint (claim_launcher (plan ! j)))"
proof -
  let ?plan = "plan_allocations ss L busy"
  note ok = conjunct1 [OF plan_allocations_spec [OF assms, of L busy], unfolded plan_ok_def]
  have "\<not> is_launcher_claimed busy (claim_launcher c) \<and> claim_launcher c \<in> set (L (claim_modelId c)) \<and>
       (\<exists>s \<in> set ss. snap_modelId s = claim_modelId c \<and> int (currentCount s) < desiredCount s \<and>
          int (currentCount s) + int (length (filter (\<lambda>c'. claim_modelId c' = claim_modelId c) ?plan))
            \<le> desiredCount s)" if c: "c \<in> set ?plan" for c
  proof -
    from ok c obtain s where s: "s \<in> set (under_provisioned ss)" "snap_modelId s = claim_modelId c" by force
    then have "int (length (claims_for (claim_modelId c) ?plan)) \<le> max 0 (deficit_of s)"
      using ok by metis
    moreover have "s \<in> set ss" "int (currentCount s) < desiredCount s"
      using s(1) by (simp_all add: under_provisioned_set)
    ultimately have "\<exists>s \<in> set ss. snap_modelId s = claim_modelId c \<and> int (currentCount s) < desiredCount s \<and>
          int (currentCount s) + int (length (filter (\<lambda>c'. claim_modelId c' = claim_modelId c) ?plan))
            \<le> desiredCount s"
      using s(2) by (intro bexI [of _ s]) (simp_all add: claims_for_def deficit_of_def)
    moreover have "\<not> is_launcher_claimed busy (claim_launcher c)"
      using ok claim_key_in [OF c] by (auto simp: is_launcher_claimed_iff)
    ultimately show ?thesis using ok c by blast
  qed
  moreover have "launcherId (claim_launcher (?plan ! i)) \<noteq> launcherId (claim_launcher (?plan ! j)) \<and>
      launcher_endpoint (claim_launcher (?plan ! i)) \<noteq> launcher_endpoint (claim_launcher (?plan ! j))"
    if "i < j" "j < length ?plan" for i j
  proof -
    have "claim_keys (claim_launcher (?plan ! i)) \<inter> claim_keys (claim_launcher (?plan ! j)) = {}"
      using ok that by (simp add: pairwise_free_def sorted_wrt_iff_nth_less)
    then show ?thesis by (auto simp: claim_keys_def)
  qed
  ultimately show ?thesis unfolding Let_def by blast
qed

theorem plan_no_preemption_no_double_claim_witness:
  "\<not> is_launcher_claimed {''e1''} (claim_launcher (hd (plan_allocations
      [\<lparr>snap_modelId = ''m'', demand = 3, currentCount = 0, desiredCount = 1\<rparr>]
      (\<lambda>_. [\<lparr>launcherId = ''l1'', launcher_endpoint = ''e1'', servesModels = [''m''], agentPort = 1\<rparr>,
            \<lparr>launcherId = ''l2'', launcher_endpoint = ''e2'', servesModels = [''m''], agentPort = 1\<rparr>]) {''e1''})))"
  using plan_no_preemption_no_double_claim [of "[\<lparr>snap_modelId = ''m'', demand = 3, currentCount = 0, desiredCount = 1\<rparr>]"
      "\<lambda>_. [\<lparr>launcherId = ''l1'', launcher_endpoint = ''e1'', servesModels = [''m''], agentPort = 1\<rparr>,
            \<lparr>launcherId = ''l2'', launcher_endpoint = ''e2'', servesModels = [''m''], agentPort = 1\<rparr>]" "{''e1''}"]
  by (simp add: plan_allocations_def under_provisioned_def is_launcher_claimed_def)

text \<open>
  C20: The plan leaves no usable launcher idle and serves the busiest model first. A model that gets
  less than it is short of finds every launcher of its list busy or planned; and a launcher such a
  model could have used never goes to a model with less demand.
\<close>

theorem plan_maximal_and_busiest_first:
  assumes "distinct (map snap_modelId ss)" and "s \<in> set ss"
    and "int (currentCount s) + int (length (filter (\<lambda>c. claim_modelId c = snap_modelId s) (plan_allocations ss L busy)))
           < desiredCount s"
  shows "(\<forall>l \<in> set (L (snap_modelId s)). is_launcher_claimed busy l \<or>
      (\<exists>c \<in> set (plan_allocations ss L busy). claim_keys (claim_launcher c) \<inter> claim_keys l \<noteq> {})) \<and>
    (\<forall>c \<in> set (plan_allocations ss L busy). \<forall>s' \<in> set ss.
       snap_modelId s' = claim_modelId c \<longrightarrow> demand s' < demand s \<longrightarrow>
       claim_launcher c \<notin> set (L (snap_modelId s)))"
proof -
  let ?plan = "plan_allocations ss L busy" and ?us = "under_provisioned ss"
  note spec = plan_allocations_spec [OF assms(1), of L busy]
  note ok = conjunct1 [OF spec, unfolded plan_ok_def]
  have s: "s \<in> set ?us" using assms(2,3) by (simp add: under_provisioned_set)
  have short: "int (length (claims_for (snap_modelId s) ?plan)) < deficit_of s"
    using assms(3) by (simp add: claims_for_def deficit_of_def)
  have "\<forall>l \<in> set (L (snap_modelId s)). is_launcher_claimed (busy \<union> keys_of ?plan) l"
    using ok s short by blast
  then have idle: "\<forall>l \<in> set (L (snap_modelId s)). is_launcher_claimed busy l \<or>
      (\<exists>c \<in> set ?plan. claim_keys (claim_launcher c) \<inter> claim_keys l \<noteq> {})"
    unfolding is_launcher_claimed_iff keys_of_def by blast
  have "claim_launcher c \<notin> set (L (snap_modelId s))"
    if c: "c \<in> set ?plan" and s': "s' \<in> set ss" "snap_modelId s' = claim_modelId c" "demand s' < demand s" for c s'
  proof -
    obtain i where i: "i < length ?us" "?us ! i = s" using s by (metis in_set_conv_nth)
    from ok c obtain s0 where "s0 \<in> set ?us" "snap_modelId s0 = claim_modelId c" by force
    moreover have "inj_on snap_modelId (set ss)" using assms(1) by (simp add: distinct_map)
    then have "s0 = s'"
      by (rule inj_onD) (use calculation s'(1,2) in \<open>simp_all add: under_provisioned_set\<close>)
    ultimately obtain j where j: "j < length ?us" "?us ! j = s'" by (metis in_set_conv_nth)
    have "i < j"
    proof (rule ccontr)
      assume "\<not> i < j"
      with s'(3) i j have "j < i" by (metis less_irrefl nat_neq_iff)
      with under_provisioned_sorted [of ss] i j have "demand s \<le> demand s'"
        by (auto simp: sorted_wrt_iff_nth_less)
      with s'(3) show False by simp
    qed
    with conjunct2 [OF spec] i j short c s'(2) show ?thesis
      unfolding served_in_order_def sorted_wrt_iff_nth_less by (force simp: claims_for_def)
  qed
  with idle show ?thesis by blast
qed

theorem plan_maximal_and_busiest_first_witness:
  "\<exists>c. c \<in> set (plan_allocations
      [\<lparr>snap_modelId = ''m'', demand = 9, currentCount = 0, desiredCount = 2\<rparr>,
       \<lparr>snap_modelId = ''n'', demand = 3, currentCount = 0, desiredCount = 1\<rparr>]
      (\<lambda>_. [\<lparr>launcherId = ''l1'', launcher_endpoint = ''e1'', servesModels = [''m''], agentPort = 1\<rparr>]) {})"
  using plan_maximal_and_busiest_first [of
      "[\<lparr>snap_modelId = ''m'', demand = 9, currentCount = 0, desiredCount = 2\<rparr>,
        \<lparr>snap_modelId = ''n'', demand = 3, currentCount = 0, desiredCount = 1\<rparr>]"
      "\<lparr>snap_modelId = ''m'', demand = 9, currentCount = 0, desiredCount = 2\<rparr>"
      "\<lambda>_. [\<lparr>launcherId = ''l1'', launcher_endpoint = ''e1'', servesModels = [''m''], agentPort = 1\<rparr>]" "{}"]
  by (simp add: plan_allocations_def under_provisioned_def is_launcher_claimed_def)

text \<open>
  C35: The desired count is 0 for a single-node model; otherwise it lies between 1 and the declared
  ceiling (at least 1, whatever the ceiling), it is enough for the demand unless the ceiling
  stops it, it never exceeds what the demand needs by a whole pipeline, and it grows with demand.
\<close>

theorem desired_count_correct:
  assumes "0 < rpp"
  shows "let n = desired_pipeline_count d mx req rpp in
    (req \<le> 1 \<longrightarrow> n = 0) \<and>
    (1 < req \<longrightarrow> 1 \<le> n \<and> n \<le> max 1 mx \<and>
       (of_nat d \<le> of_int n * rpp \<or> n = max 1 mx) \<and> (n = 1 \<or> of_int (n - 1) * rpp < of_nat d) \<and>
       n \<le> desired_pipeline_count (d + d') mx req rpp)"
proof (cases "1 < req")
  case True
  let ?c = "\<lceil>rat_of_nat d / rpp\<rceil>" and ?n = "desired_pipeline_count d mx req rpp"
  have n: "?n = max 1 (min ?c mx)" using True by (simp add: desired_pipeline_count_def)
  have enough: "of_nat d \<le> of_int k * rpp" if "?c \<le> k" for k
    using that assms by (simp add: ceiling_le_iff pos_divide_le_eq)
  have tight: "of_int (k - 1) * rpp < of_nat d" if "k \<le> ?c" for k
  proof -
    have "k - 1 < ?c" using that by simp
    then have "of_int (k - 1) < rat_of_nat d / rpp" by (simp only: less_ceiling_iff)
    then show ?thesis using assms by (simp add: pos_less_divide_eq)
  qed
  have "of_nat d \<le> of_int ?n * rpp \<or> ?n = max 1 mx"
    using n enough [of ?n] by (cases "?c \<le> mx") auto
  moreover have "?n = 1 \<or> of_int (?n - 1) * rpp < of_nat d"
  proof (cases "?n = 1")
    case False
    moreover have "max 1 (min c mx) \<noteq> 1 \<Longrightarrow> max 1 (min c mx) \<le> c" for c :: int by linarith
    ultimately have "?n \<le> ?c" unfolding n by blast
    then show ?thesis using tight by blast
  qed simp
  moreover have "?n \<le> desired_pipeline_count (d + d') mx req rpp"
    using assms by (intro desired_mono) simp_all
  ultimately show ?thesis using True desired_bounds [OF True] by (simp add: Let_def)
next
  case False
  then show ?thesis by (simp add: desired_single)
qed

theorem desired_count_correct_witness:
  "desired_pipeline_count 25 4 2 10 \<le> desired_pipeline_count (25 + 30) 4 2 10"
  using desired_count_correct [of 10 25 4 2 30] by (simp add: Let_def)

end
