(* ===== verification/Reputation.thy ===== *)
theory Reputation
  imports Js_Doubles
begin

text \<open>
  The reputation ledger, \<^verbatim>\<open>coordinator/src/reputation_tracker.ts\<close>: the counters per node
  (\<open>node_stats\<close>), the tracker's state and its constructor's checks (\<open>new_reputation_tracker\<close>),
  the two recording operations, the trust verdict (\<open>is_trusted\<close>) and the smoothed score
  (\<open>score\<close>). The lemmas tie every verdict to the history of recorded events: the counters are
  the number of events of each kind, whatever their interleaving with other nodes' events.

  The score and the disagreement rate are quotients of counters, rounded as JavaScript rounds them
  (\<open>js_div\<close>); the threshold they are compared with is a double. A share just below the threshold
  may round up to it, and then the node is not trusted. The counters are natural numbers: the
  code's stop growing at \<open>2 ^ 53\<close> events of one kind.
\<close>

record node_stats =
  agreements :: nat
  disagreements :: nat

record reputation_tracker =
  minSamples :: rat
  disagreementThreshold :: rat
  stats :: "(string, node_stats) js_map"

datatype reputation_error = BadMinSamples | BadThreshold

definition no_stats :: node_stats where
  "no_stats = \<lparr>agreements = 0, disagreements = 0\<rparr>"

definition new_reputation_tracker :: "number \<Rightarrow> number \<Rightarrow> reputation_error + reputation_tracker" where
  "new_reputation_tracker ms th =
     (if \<not> is_integer ms \<or> num_lt ms 1 then Inl BadMinSamples
      else if \<not> is_finite th \<or> num_le th 0 \<or> num_gt th 1 then Inl BadThreshold
      else Inr \<lparr>minSamples = num_value ms, disagreementThreshold = num_value th, stats = []\<rparr>)"

definition default_reputation :: reputation_tracker where
  "default_reputation = \<lparr>minSamples = 5, disagreementThreshold = 1 / 2, stats = []\<rparr>"

text \<open>\<open>getOrCreate\<close> returns the entry and leaves the map with an entry for the node.\<close>

definition get_or_create :: "string \<Rightarrow> reputation_tracker \<Rightarrow> node_stats \<times> reputation_tracker" where
  "get_or_create nid r =
     (case map_get (stats r) nid of
        Some e \<Rightarrow> (e, r)
      | None \<Rightarrow> (no_stats, r\<lparr>stats := map_set nid no_stats (stats r)\<rparr>))"

definition record_agreement :: "string \<Rightarrow> reputation_tracker \<Rightarrow> reputation_tracker" where
  "record_agreement nid r =
     (let (e, r') = get_or_create nid r
      in r'\<lparr>stats := map_set nid (e\<lparr>agreements := agreements e + 1\<rparr>) (stats r')\<rparr>)"

definition record_disagreement :: "string \<Rightarrow> reputation_tracker \<Rightarrow> reputation_tracker" where
  "record_disagreement nid r =
     (let (e, r') = get_or_create nid r
      in r'\<lparr>stats := map_set nid (e\<lparr>disagreements := disagreements e + 1\<rparr>) (stats r')\<rparr>)"

definition is_trusted :: "reputation_tracker \<Rightarrow> string \<Rightarrow> bool" where
  "is_trusted r nid =
     (case map_get (stats r) nid of
        None \<Rightarrow> True
      | Some e \<Rightarrow>
          (let total = agreements e + disagreements e
           in if of_nat total < minSamples r then True
              else js_div (of_nat (disagreements e)) (of_nat total) < disagreementThreshold r))"

definition get_stats :: "reputation_tracker \<Rightarrow> string \<Rightarrow> node_stats" where
  "get_stats r nid = (case map_get (stats r) nid of Some e \<Rightarrow> e | None \<Rightarrow> no_stats)"

definition score :: "reputation_tracker \<Rightarrow> string \<Rightarrow> rat" where
  "score r nid =
     (let s = get_stats r nid
      in js_div (of_nat (agreements s + 1)) (of_nat (agreements s + disagreements s + 2)))"

subsection \<open>What the recording operations change\<close>

lemmas record_defs = record_agreement_def record_disagreement_def get_or_create_def no_stats_def

lemma get_stats_record_agreement:
  "get_stats (record_agreement nid r) n =
     (if n = nid then (get_stats r n)\<lparr>agreements := agreements (get_stats r n) + 1\<rparr> else get_stats r n)"
  by (auto simp: get_stats_def record_defs js_map_simps split: option.splits)

lemma get_stats_record_disagreement:
  "get_stats (record_disagreement nid r) n =
     (if n = nid then (get_stats r n)\<lparr>disagreements := disagreements (get_stats r n) + 1\<rparr> else get_stats r n)"
  by (auto simp: get_stats_def record_defs js_map_simps split: option.splits)

lemma record_parameters [simp]:
  "minSamples (record_agreement nid r) = minSamples r"
  "minSamples (record_disagreement nid r) = minSamples r"
  "disagreementThreshold (record_agreement nid r) = disagreementThreshold r"
  "disagreementThreshold (record_disagreement nid r) = disagreementThreshold r"
  by (auto simp: record_defs split: option.splits)

subsection \<open>The constructor's checks\<close>

definition reputation_ok :: "reputation_tracker \<Rightarrow> bool" where
  "reputation_ok r \<longleftrightarrow> 1 \<le> minSamples r \<and> 0 < disagreementThreshold r \<and> disagreementThreshold r \<le> 1"

lemma new_reputation_tracker_ok: "new_reputation_tracker ms th = Inr r \<Longrightarrow> reputation_ok r"
  by (cases ms; cases th) (auto simp: new_reputation_tracker_def reputation_ok_def split: if_splits)

lemma default_reputation_constructed:
  "new_reputation_tracker (Fin 5) (Fin (1 / 2)) = Inr default_reputation"
  by (simp add: new_reputation_tracker_def default_reputation_def)

lemma reputation_ok_record [simp]:
  "reputation_ok (record_agreement nid r) = reputation_ok r"
  "reputation_ok (record_disagreement nid r) = reputation_ok r"
  by (simp_all add: reputation_ok_def)

text \<open>A tracked and an untracked node with no events get the same verdict.\<close>

lemma is_trusted_stats:
  assumes "reputation_ok r"
  shows "is_trusted r nid \<longleftrightarrow>
    (let s = get_stats r nid; total = agreements s + disagreements s
     in of_nat total < minSamples r \<or> js_div (of_nat (disagreements s)) (of_nat total) < disagreementThreshold r)"
  using assms by (cases "map_get (stats r) nid")
    (simp_all add: is_trusted_def get_stats_def no_stats_def reputation_ok_def Let_def)

subsection \<open>The ledger as an abstraction of the event history\<close>

datatype verdict = Agree | Disagree

text \<open>The history of recorded events, oldest first, replayed through the tracker.\<close>

fun record_event :: "string \<times> verdict \<Rightarrow> reputation_tracker \<Rightarrow> reputation_tracker" where
  "record_event (nid, Agree) r = record_agreement nid r"
| "record_event (nid, Disagree) r = record_disagreement nid r"

definition replay :: "(string \<times> verdict) list \<Rightarrow> reputation_tracker \<Rightarrow> reputation_tracker" where
  "replay es r = fold record_event es r"

lemma record_event_parameters [simp]:
  "minSamples (record_event e r) = minSamples r"
  "disagreementThreshold (record_event e r) = disagreementThreshold r"
  by (cases e; cases "snd e"; simp)+

lemma replay_parameters:
  "minSamples (replay es r) = minSamples r \<and>
   disagreementThreshold (replay es r) = disagreementThreshold r"
  unfolding replay_def by (induction es arbitrary: r) auto

lemma replay_ok: "reputation_ok (replay es r) = reputation_ok r"
  using replay_parameters [of es r] by (simp add: reputation_ok_def)

lemma replay_counts:
  "agreements (get_stats (replay es r) n) =
     agreements (get_stats r n) + count_list es (n, Agree) \<and>
   disagreements (get_stats (replay es r) n) =
     disagreements (get_stats r n) + count_list es (n, Disagree)"
  unfolding replay_def
proof (induction es arbitrary: r)
  case Nil
  then show ?case by simp
next
  case (Cons e es)
  obtain nid v where "e = (nid, v)" by (cases e)
  with Cons show ?case
    by (cases v) (auto simp: get_stats_record_agreement get_stats_record_disagreement)
qed

subsection \<open>Properties\<close>

text \<open>
  C27: The verdict on a node is a function of the history of recorded events only. For every tracker
  the constructor accepts, with a double as its threshold, and every history of agreements and
  disagreements, a node is trusted exactly when it has fewer events than \<open>minSamples\<close> or its share
  of disagreements is below the threshold and does not round to it; the events of other nodes do not
  matter. With the default threshold of one half rounding plays no part up to \<open>2 ^ 53\<close> events: the
  node is trusted exactly when it has fewer than \<open>minSamples\<close> events or more agreements than
  disagreements.
\<close>

theorem trusted_by_history:
  assumes made: "new_reputation_tracker ms th = Inr r" and double: "is_double (num_value th)"
    and a: "a = count_list es (n, Agree)" and d: "d = count_list es (n, Disagree)"
  shows "(is_trusted (replay es r) n \<longleftrightarrow>
      of_nat (a + d) < num_value ms \<or>
      of_nat d < num_value th * of_nat (a + d) \<and> js_div (of_nat d) (of_nat (a + d)) \<noteq> num_value th) \<and>
    (num_value th = 1 / 2 \<longrightarrow> a + d \<le> 2 ^ 53 \<longrightarrow>
      (is_trusted (replay es r) n \<longleftrightarrow> of_nat (a + d) < num_value ms \<or> d < a))"
proof -
  have r: "minSamples r = num_value ms" "disagreementThreshold r = num_value th" "stats r = []" "1 \<le> num_value ms"
    using made by (cases ms; auto simp: new_reputation_tracker_def split: if_splits)+
  then have "get_stats r n = no_stats" by (simp add: get_stats_def)
  moreover have "reputation_ok (replay es r)"
    using new_reputation_tracker_ok [OF made] by (simp add: replay_ok)
  ultimately have verdict: "is_trusted (replay es r) n \<longleftrightarrow>
      of_nat (a + d) < num_value ms \<or> js_div (of_nat d) (of_nat (a + d)) < num_value th"
    using replay_counts [of es r n] replay_parameters [of es r] r a d
    by (simp add: is_trusted_stats Let_def no_stats_def)
  show ?thesis
  proof (cases "of_nat (a + d) < num_value ms")
    case False
    with r(4) have "1 \<le> (of_nat (a + d) :: rat)" by linarith
    then have pos: "0 < a + d" by (cases "a + d") simp_all
    then have "of_nat d / of_nat (a + d) < num_value th \<longleftrightarrow> of_nat d < num_value th * of_nat (a + d)"
      by (intro pos_divide_less_eq) (simp only: of_nat_0_less_iff)
    then show ?thesis
      using verdict round_double_less_iff [OF double, of "of_nat d / of_nat (a + d)"] js_div_half [OF pos, of d]
      by (auto simp: js_div_def simp del: of_nat_add)
  qed (simp add: verdict)
qed

theorem trusted_by_history_witness:
  "\<not> is_trusted (replay [(''n'', Disagree), (''m'', Agree), (''n'', Disagree)]
      \<lparr>minSamples = 2, disagreementThreshold = 1 / 2, stats = []\<rparr>) ''n''"
proof -
  let ?r = "\<lparr>minSamples = 2, disagreementThreshold = 1 / 2, stats = []\<rparr>"
  let ?es = "[(''n'', Disagree), (''m'', Agree), (''n'', Disagree)]"
  have made: "new_reputation_tracker (Fin 2) (Fin (1 / 2)) = Inr ?r" by (simp add: new_reputation_tracker_def)
  have double: "is_double (num_value (Fin (1 / 2)))" by code_simp
  have a: "0 = count_list ?es (''n'', Agree)" and d: "2 = count_list ?es (''n'', Disagree)" by simp_all
  from trusted_by_history [OF made double a d] show ?thesis by simp
qed

text \<open>One disagreement in five is not below the double nearest to one fifth: the quotient rounds to it.\<close>

lemma one_in_five:
  "\<not> is_trusted (replay [(''n'', Disagree), (''n'', Agree), (''n'', Agree), (''n'', Agree), (''n'', Agree)]
      \<lparr>minSamples = 5, disagreementThreshold = js_div 1 5, stats = []\<rparr>) ''n'' \<and> 1 / 5 < js_div 1 5"
  by code_simp

text \<open>
  The score that ranks candidates lies between 0 and 1, never falls with an agreement nor rises
  with a disagreement, and no event of one node moves the score of another.
\<close>

lemma score_monotone:
  "0 < score r n \<and> score r n \<le> 1 \<and>
   score r n \<le> score (record_agreement n r) n \<and> score (record_disagreement n r) n \<le> score r n \<and>
   score (record_agreement n r) = (score r)(n := score (record_agreement n r) n) \<and>
   score (record_disagreement n r) = (score r)(n := score (record_disagreement n r) n)"
proof -
  let ?s = "get_stats r n"
  let ?a = "rat_of_nat (agreements ?s)" and ?d = "rat_of_nat (disagreements ?s)"
  have sc: "score r n = round_double ((?a + 1) / (?a + ?d + 2))"
    "score (record_agreement n r) n = round_double ((?a + 2) / (?a + ?d + 3))"
    "score (record_disagreement n r) n = round_double ((?a + 1) / (?a + ?d + 3))"
    by (simp_all add: score_def js_div_def get_stats_record_agreement get_stats_record_disagreement Let_def algebra_simps)
  have nn: "0 \<le> ?a" "0 \<le> ?d" by simp_all
  have exact: "0 < (?a + 1) / (?a + ?d + 2) \<and> (?a + 1) / (?a + ?d + 2) \<le> 1 \<and>
      (?a + 1) / (?a + ?d + 2) \<le> (?a + 2) / (?a + ?d + 3) \<and>
      (?a + 1) / (?a + ?d + 3) \<le> (?a + 1) / (?a + ?d + 2)"
    using nn by (simp add: field_simps)
  moreover have "round_double 1 = 1" by code_simp
  then have "q \<le> 1 \<Longrightarrow> round_double q \<le> 1" for q using round_double_mono [of q 1] by simp
  moreover have "score (record_agreement n r) = (score r)(n := score (record_agreement n r) n)"
    "score (record_disagreement n r) = (score r)(n := score (record_disagreement n r) n)"
    by (auto simp: score_def get_stats_record_agreement get_stats_record_disagreement)
  ultimately show ?thesis unfolding sc using round_double_mono round_double_pos by blast
qed

end
