(* ===== verification/Node_Registry.thy ===== *)
theory Node_Registry
  imports Expiring_Registry Reputation
begin

text \<open>
  The node registry, \<^verbatim>\<open>coordinator/src/registry.ts\<close>: \<open>NodeInfo\<close> and \<open>StoredNode\<close> (the record
  \<open>node_info\<close> and its extension), the identity derived from the endpoint (\<open>stable_node_id\<close>, over
  a hash given as a parameter), and the class's operations \<open>register\<close>, \<open>heartbeat\<close>, \<open>listActive\<close>
  and \<open>groupByLocality\<close>. The registry is an interpretation of \<open>expiring_registry\<close> for every
  reputation filter. \<open>toLowerCase\<close> is modelled on ASCII: the endpoints that reach the registry
  are serialised URLs, whose characters are ASCII.
\<close>

datatype device_tier = Desktop | Android | Ios

record node_info =
  nodeId :: string
  node_endpoint :: string
  deviceTier :: device_tier
  localityGroup :: "string option"
  servesModel :: "string option"
  availableMemoryMb :: "rat option"

record stored_node = node_info +
  node_lastSeen :: time

record node_registry =
  node_timeoutMs :: time
  nodes :: "(string, stored_node) js_map"

definition UNGROUPED_LOCALITY :: string where
  "UNGROUPED_LOCALITY = ''ungrouped''"

definition new_node_registry :: "time \<Rightarrow> node_registry" where
  "new_node_registry tmo = \<lparr>node_timeoutMs = tmo, nodes = []\<rparr>"

definition default_node_registry :: node_registry where
  "default_node_registry = new_node_registry 30000"

definition lower_char :: "char \<Rightarrow> char" where
  "lower_char c = (if 65 \<le> (of_char c :: nat) \<and> (of_char c :: nat) \<le> 90 then char_of (of_char c + 32 :: nat) else c)"

definition to_lower :: "string \<Rightarrow> string" where
  "to_lower s = map lower_char s"

definition stable_node_id :: "(string \<Rightarrow> string) \<Rightarrow> string \<Rightarrow> string" where
  "stable_node_id sha256 endpoint = sha256 (to_lower endpoint)"

definition register_node ::
  "(string \<Rightarrow> string) \<Rightarrow> string \<Rightarrow> device_tier \<Rightarrow> string option \<Rightarrow> string option \<Rightarrow> rat option \<Rightarrow>
   time \<Rightarrow> node_registry \<Rightarrow> string \<times> node_registry" where
  "register_node sha256 endpoint tier loc model mem now r =
     (let nid = stable_node_id sha256 endpoint
      in (nid, r\<lparr>nodes := map_set nid
            \<lparr>nodeId = nid, node_endpoint = endpoint, deviceTier = tier, localityGroup = loc,
             servesModel = model, availableMemoryMb = mem, node_lastSeen = now\<rparr> (nodes r)\<rparr>))"

definition node_heartbeat :: "string \<Rightarrow> time \<Rightarrow> node_registry \<Rightarrow> bool \<times> node_registry" where
  "node_heartbeat nid now r =
     (case map_get (nodes r) nid of
        None \<Rightarrow> (False, r)
      | Some node \<Rightarrow>
          if now - node_lastSeen node > node_timeoutMs r
          then (False, r\<lparr>nodes := map_delete nid (nodes r)\<rparr>)
          else (True, r\<lparr>nodes := map_set nid (node\<lparr>node_lastSeen := now\<rparr>) (nodes r)\<rparr>))"

text \<open>The loop of \<open>listActive\<close>: the nodes pushed, and the entries that remain in the Map.\<close>

fun list_active_loop ::
  "reputation_tracker option \<Rightarrow> time \<Rightarrow> time \<Rightarrow> (string, stored_node) js_map \<Rightarrow>
   node_info list \<times> (string, stored_node) js_map" where
  "list_active_loop rep tmo now [] = ([], [])"
| "list_active_loop rep tmo now ((nid, node) # rest) =
     (let (active, kept) = list_active_loop rep tmo now rest
      in if now - node_lastSeen node \<le> tmo
         then (if (case rep of None \<Rightarrow> False | Some t \<Rightarrow> \<not> is_trusted t (nodeId node))
               then (active, (nid, node) # kept)
               else (node_info.truncate node # active, (nid, node) # kept))
         else (active, kept))"

definition list_active ::
  "reputation_tracker option \<Rightarrow> time \<Rightarrow> node_registry \<Rightarrow> node_info list \<times> node_registry" where
  "list_active rep now r =
     (let (active, kept) = list_active_loop rep (node_timeoutMs r) now (nodes r)
      in (active, r\<lparr>nodes := kept\<rparr>))"

definition locality_key :: "node_info \<Rightarrow> string" where
  "locality_key n = (case localityGroup n of None \<Rightarrow> UNGROUPED_LOCALITY | Some g \<Rightarrow> g)"

fun group_loop :: "node_info list \<Rightarrow> (string, node_info list) js_map \<Rightarrow> (string, node_info list) js_map" where
  "group_loop [] groups = groups"
| "group_loop (n # ns) groups =
     (let key = locality_key n
      in case map_get groups key of
           Some bucket \<Rightarrow> group_loop ns (map_set key (bucket @ [n]) groups)
         | None \<Rightarrow> group_loop ns (map_set key [n] groups))"

definition group_by_locality ::
  "reputation_tracker option \<Rightarrow> time \<Rightarrow> node_registry \<Rightarrow>
   (string, node_info list) js_map \<times> node_registry" where
  "group_by_locality rep now r =
     (let (active, r') = list_active rep now r in (group_loop active [], r'))"

definition registry_size :: "node_registry \<Rightarrow> nat" where
  "registry_size r = length (nodes r)"

lemmas [registry_defs] =
  register_node_def node_heartbeat_def list_active_def stable_node_id_def

subsection \<open>Listing as a filter\<close>

definition node_live :: "node_registry \<Rightarrow> time \<Rightarrow> stored_node \<Rightarrow> bool" where
  "node_live r now node \<longleftrightarrow> now - node_lastSeen node \<le> node_timeoutMs r"

definition trusted_by :: "reputation_tracker option \<Rightarrow> string \<Rightarrow> bool" where
  "trusted_by rep nid = (case rep of None \<Rightarrow> True | Some t \<Rightarrow> is_trusted t nid)"

lemma list_active_loop_eq:
  "list_active_loop rep tmo now m =
     (map (\<lambda>(k, n). node_info.truncate n)
        (filter (\<lambda>(k, n). now - node_lastSeen n \<le> tmo \<and> trusted_by rep (nodeId n)) m),
      filter (\<lambda>(k, n). now - node_lastSeen n \<le> tmo) m)"
  by (induction m) (auto simp: trusted_by_def split: option.splits if_splits)

lemma list_active_eq:
  "list_active rep now r =
     (map (\<lambda>(k, n). node_info.truncate n)
        (filter (\<lambda>(k, n). node_live r now n \<and> trusted_by rep (nodeId n)) (nodes r)),
      r\<lparr>nodes := filter (\<lambda>(k, n). node_live r now n) (nodes r)\<rparr>)"
  by (simp add: list_active_def list_active_loop_eq node_live_def)

subsection \<open>The invariant: one entry per identity\<close>

text \<open>Every entry is stored under its own node id, which the endpoint determines.\<close>

definition nodes_wf :: "(string \<Rightarrow> string) \<Rightarrow> node_registry \<Rightarrow> bool" where
  "nodes_wf sha256 r \<longleftrightarrow>
     keys_distinct (nodes r) \<and>
     (\<forall>(k, n) \<in> set (nodes r). k = nodeId n \<and> k = stable_node_id sha256 (node_endpoint n))"

lemma nodes_wf_distinct: "nodes_wf sha256 r \<Longrightarrow> keys_distinct (nodes r)"
  by (simp add: nodes_wf_def)

lemma nodes_wf_entry:
  "nodes_wf sha256 r \<Longrightarrow> map_get (nodes r) k = Some n \<Longrightarrow>
   nodeId n = k \<and> stable_node_id sha256 (node_endpoint n) = k"
  by (drule map_get_mem) (auto simp: nodes_wf_def)

lemma nodes_wf_new [simp]: "nodes_wf sha256 (new_node_registry tmo)"
  by (simp add: nodes_wf_def new_node_registry_def)

lemma nodes_wf_register:
  assumes "nodes_wf sha256 r"
  shows "nodes_wf sha256 (snd (register_node sha256 e t l m a now r))"
  using assms by (auto simp: nodes_wf_def register_node_def Let_def set_map_set)

lemma nodes_wf_heartbeat:
  assumes "nodes_wf sha256 r"
  shows "nodes_wf sha256 (snd (node_heartbeat nid now r))"
proof (cases "map_get (nodes r) nid")
  case None
  with assms show ?thesis by (simp add: node_heartbeat_def)
next
  case (Some n)
  with nodes_wf_entry [OF assms Some] assms show ?thesis
    by (auto simp: nodes_wf_def node_heartbeat_def set_map_delete set_map_set)
qed

lemma nodes_wf_list_active:
  "nodes_wf sha256 r \<Longrightarrow> nodes_wf sha256 (snd (list_active rep now r))"
  by (auto simp: nodes_wf_def list_active_eq)

subsection \<open>The registry as an expiring registry\<close>

definition node_seen :: "node_registry \<Rightarrow> string \<Rightarrow> time option" where
  "node_seen r nid = map_option node_lastSeen (map_get (nodes r) nid)"

definition listed_ids :: "reputation_tracker option \<Rightarrow> time \<Rightarrow> node_registry \<Rightarrow> string list \<times> node_registry" where
  "listed_ids rep now r = map_prod (map nodeId) id (list_active rep now r)"

lemma node_seen_listing:
  assumes "keys_distinct (nodes r)"
  shows "node_seen (snd (list_active rep now r)) j =
    (if within_timeout (node_timeoutMs r) now (node_seen r j) then node_seen r j else None)"
  using assms
  by (auto simp: node_seen_def list_active_eq map_get_filter node_live_def split: option.splits)

lemma listed_id_iff:
  assumes wf: "nodes_wf sha256 r"
  shows "j \<in> set (map nodeId (fst (list_active rep now r))) \<longleftrightarrow>
    within_timeout (node_timeoutMs r) now (node_seen r j) \<and> trusted_by rep j"
proof -
  have mem: "(k, n) \<in> set (nodes r) \<longleftrightarrow> map_get (nodes r) k = Some n" for k n
    using nodes_wf_distinct [OF wf] by simp
  have "j \<in> set (map nodeId (fst (list_active rep now r))) \<longleftrightarrow>
      (\<exists>n. map_get (nodes r) j = Some n \<and> node_live r now n \<and> trusted_by rep j)"
    using nodes_wf_entry [OF wf]
    by (fastforce simp: list_active_eq node_info.truncate_def image_iff mem)
  also have "\<dots> \<longleftrightarrow> within_timeout (node_timeoutMs r) now (node_seen r j) \<and> trusted_by rep j"
    by (cases "map_get (nodes r) j") (auto simp: node_seen_def node_live_def)
  finally show ?thesis .
qed

interpretation noderegistry:
  expiring_registry node_seen node_timeoutMs node_heartbeat "listed_ids rep" "trusted_by rep"
    "nodes_wf sha256" for rep sha256
proof unfold_locales
  fix k now r j
  show "fst (node_heartbeat k now r) \<longleftrightarrow> within_timeout (node_timeoutMs r) now (node_seen r k)"
    by (cases "map_get (nodes r) k") (simp_all add: node_heartbeat_def node_seen_def not_less)
  show "within_timeout (node_timeoutMs r) now (node_seen r k) \<Longrightarrow>
      node_seen (snd (node_heartbeat k now r)) = (node_seen r)(k := Some now)"
    by (cases "map_get (nodes r) k") (simp_all add: node_heartbeat_def node_seen_def fun_eq_iff js_map_simps)
  show "\<not> within_timeout (node_timeoutMs r) now (node_seen r k) \<Longrightarrow>
      node_seen (snd (node_heartbeat k now r)) = (node_seen r)(k := None)"
    by (cases "map_get (nodes r) k") (auto simp: node_heartbeat_def node_seen_def fun_eq_iff js_map_simps)
  show "node_timeoutMs (snd (node_heartbeat k now r)) = node_timeoutMs r"
    by (auto simp: node_heartbeat_def split: option.splits)
  show "node_timeoutMs (snd (listed_ids rep now r)) = node_timeoutMs r"
    by (simp add: listed_ids_def list_active_eq)
  show "nodes_wf sha256 r \<Longrightarrow> node_seen (snd (listed_ids rep now r)) j =
      (if within_timeout (node_timeoutMs r) now (node_seen r j) then node_seen r j else None)"
    by (simp add: listed_ids_def node_seen_listing nodes_wf_distinct)
  show "nodes_wf sha256 r \<Longrightarrow> (j \<in> set (fst (listed_ids rep now r))) =
      (within_timeout (node_timeoutMs r) now (node_seen r j) \<and> trusted_by rep j)"
    using listed_id_iff by (simp add: listed_ids_def)
  show "nodes_wf sha256 r \<Longrightarrow> nodes_wf sha256 (snd (node_heartbeat k now r))"
    by (rule nodes_wf_heartbeat)
  show "nodes_wf sha256 r \<Longrightarrow> nodes_wf sha256 (snd (listed_ids rep now r))"
    by (simp add: listed_ids_def nodes_wf_list_active)
qed

subsection \<open>Runs of the registry\<close>

text \<open>The calls other code makes, each with the value of the clock when it runs.\<close>

datatype node_op =
  RegisterNode string device_tier "string option" "string option" "rat option" time
| HeartbeatNode string time
| ListNodes "reputation_tracker option" time

fun op_time :: "node_op \<Rightarrow> time" where
  "op_time (RegisterNode e t l m a now) = now"
| "op_time (HeartbeatNode nid now) = now"
| "op_time (ListNodes rep now) = now"

fun node_step :: "(string \<Rightarrow> string) \<Rightarrow> node_op \<Rightarrow> node_registry \<Rightarrow> node_registry" where
  "node_step sha256 (RegisterNode e t l m a now) r = snd (register_node sha256 e t l m a now r)"
| "node_step sha256 (HeartbeatNode nid now) r = snd (node_heartbeat nid now r)"
| "node_step sha256 (ListNodes rep now) r = snd (list_active rep now r)"

lemma node_step_wf: "nodes_wf sha256 r \<Longrightarrow> nodes_wf sha256 (node_step sha256 op r)"
  by (cases op) (simp_all add: nodes_wf_register nodes_wf_heartbeat nodes_wf_list_active)

lemma node_run_wf: "nodes_wf sha256 r \<Longrightarrow> nodes_wf sha256 (fold (node_step sha256) ops r)"
  by (induction ops arbitrary: r) (simp_all add: node_step_wf)

lemma node_step_timeout: "node_timeoutMs (node_step sha256 op r) = node_timeoutMs r"
  by (cases op) (simp_all add: register_node_def Let_def noderegistry.beat_timeout list_active_eq)

lemma node_seen_register:
  "j \<noteq> stable_node_id sha256 e \<Longrightarrow> node_seen (snd (register_node sha256 e t l m a now r)) j = node_seen r j"
  by (simp add: node_seen_def register_node_def Let_def js_map_simps)

fun registers :: "(string \<Rightarrow> string) \<Rightarrow> string \<Rightarrow> node_op \<Rightarrow> bool" where
  "registers sha256 nid (RegisterNode e t l m a now) = (stable_node_id sha256 e = nid)"
| "registers sha256 nid (HeartbeatNode nid' now) = False"
| "registers sha256 nid (ListNodes rep now) = False"

lemma node_step_lapsed:
  assumes "nodes_wf sha256 r" and "\<not> within_timeout (node_timeoutMs r) t (node_seen r nid)"
    and "t \<le> op_time op" and "\<not> registers sha256 nid op"
  shows "\<not> within_timeout (node_timeoutMs r) (op_time op) (node_seen (node_step sha256 op r) nid)"
proof (cases op)
  case (RegisterNode e ti l m a now)
  with assms show ?thesis
    using node_seen_register [of nid sha256 e ti l m a now r] within_timeout_mono by auto
next
  case (HeartbeatNode k now)
  with noderegistry.lapsed_not_revived_by_beat [OF assms(2)] assms(3) show ?thesis by simp
next
  case (ListNodes rep now)
  with noderegistry.lapsed_not_revived_by_listing [OF assms(1,2), where rep = rep] assms(3) show ?thesis
    by (simp add: listed_ids_def)
qed

lemma node_run_lapsed:
  assumes "nodes_wf sha256 r" and "\<not> within_timeout (node_timeoutMs r) t (node_seen r nid)"
    and "sorted (t # map op_time ops)" and "\<forall>op \<in> set ops. \<not> registers sha256 nid op"
  shows "\<not> within_timeout (node_timeoutMs r) (last (t # map op_time ops))
    (node_seen (fold (node_step sha256) ops r) nid)"
  using assms
proof (induction ops arbitrary: r t)
  case Nil
  then show ?case by simp
next
  case (Cons op ops)
  have "\<not> within_timeout (node_timeoutMs r) (op_time op) (node_seen (node_step sha256 op r) nid)"
    using Cons.prems by (intro node_step_lapsed) auto
  with Cons.IH [of "node_step sha256 op r" "op_time op"] Cons.prems show ?case
    by (simp add: node_step_wf node_step_timeout)
qed

subsection \<open>Grouping by locality\<close>

lemma map_get_group_loop:
  "map_get (group_loop ns groups) g =
     (case (map_get groups g, filter (\<lambda>n. locality_key n = g) ns) of
        (None, []) \<Rightarrow> None
      | (None, xs) \<Rightarrow> Some xs
      | (Some b, xs) \<Rightarrow> Some (b @ xs))"
proof (induction ns arbitrary: groups)
  case Nil
  then show ?case by (simp split: option.split)
next
  case (Cons n ns)
  then show ?case
    by (auto simp: Let_def js_map_simps split: option.splits list.splits)
qed

subsection \<open>Properties\<close>

text \<open>
  C28: Whatever calls came before, a reputation-filtered listing names every node at most once, under
  the identity its endpoint determines, and names no node that the ledger does not trust: ejection
  is tied to the endpoint, so neither a new registration nor a heartbeat brings the node back.
\<close>

theorem listed_nodes_trusted:
  assumes "n \<in> set (fst (list_active (Some rep) now (fold (node_step sha256) ops (new_node_registry tmo))))"
  shows "nodeId n = sha256 (to_lower (node_endpoint n)) \<and> is_trusted rep (nodeId n) \<and>
    distinct (map nodeId (fst (list_active (Some rep) now (fold (node_step sha256) ops (new_node_registry tmo)))))"
proof -
  let ?r = "fold (node_step sha256) ops (new_node_registry tmo)"
  have wf: "nodes_wf sha256 ?r" by (simp add: node_run_wf)
  from assms obtain k s where s: "(k, s) \<in> set (nodes ?r)" "n = node_info.truncate s" "trusted_by (Some rep) (nodeId s)"
    by (auto simp: list_active_eq)
  have "k = nodeId s \<and> k = stable_node_id sha256 (node_endpoint s)"
    using wf s(1) by (auto simp: nodes_wf_def)
  moreover have "map nodeId (fst (list_active (Some rep) now ?r)) =
      map fst (filter (\<lambda>(k, n). node_live ?r now n \<and> trusted_by (Some rep) (nodeId n)) (nodes ?r))"
    using wf by (auto simp: list_active_eq nodes_wf_def node_info.truncate_def)
  then have "distinct (map nodeId (fst (list_active (Some rep) now ?r)))"
    using nodes_wf_distinct [OF wf] by (simp add: distinct_map_filter)
  ultimately show ?thesis using s(2,3)
    by (auto simp: stable_node_id_def node_info.truncate_def trusted_by_def)
qed

theorem listed_nodes_trusted_witness:
  "is_trusted default_reputation ''http://a''"
  using listed_nodes_trusted [of
      "\<lparr>nodeId = ''http://a'', node_endpoint = ''HTTP://A'', deviceTier = Ios, localityGroup = None,
        servesModel = None, availableMemoryMb = None\<rparr>"
      default_reputation 10 id "[RegisterNode ''HTTP://A'' Ios None None None 0]" 30000]
  by (simp add: register_node_def stable_node_id_def to_lower_def lower_char_def new_node_registry_def
      list_active_def default_reputation_def is_trusted_def node_info.truncate_def)

text \<open>
  C31: A node past its timeout stays off every listing until it registers again: no sequence of
  heartbeats, listings and other nodes' registrations at later times revives it.
\<close>

theorem lapsed_node_not_revived:
  assumes "nodes_wf sha256 r" and "\<not> within_timeout (node_timeoutMs r) t (node_seen r nid)"
    and "sorted (t # map op_time ops @ [now])" and "\<forall>op \<in> set ops. \<not> registers sha256 nid op"
  shows "nid \<notin> set (map nodeId (fst (list_active rep now (fold (node_step sha256) ops r)))) \<and>
    \<not> fst (node_heartbeat nid now (fold (node_step sha256) ops r))"
proof -
  let ?r = "fold (node_step sha256) ops r"
  have "sorted (t # map op_time ops)" and "last (t # map op_time ops) \<le> now"
    using assms(3) last_in_set [of "t # map op_time ops"] by (fastforce simp: sorted_append)+
  from node_run_lapsed [OF assms(1,2) this(1) assms(4)] this(2)
  have "\<not> within_timeout (node_timeoutMs r) now (node_seen ?r nid)" using within_timeout_mono by blast
  moreover have "node_timeoutMs ?r = node_timeoutMs r"
    by (induction ops arbitrary: r) (simp_all add: node_step_timeout)
  moreover have "nodes_wf sha256 ?r" by (rule node_run_wf [OF assms(1)])
  ultimately show ?thesis by (simp add: listed_id_iff noderegistry.beat_reply del: set_map)
qed

theorem lapsed_node_not_revived_witness:
  "\<not> fst (node_heartbeat ''a'' 50000 (fold (node_step id) [HeartbeatNode ''a'' 40000, ListNodes None 45000]
      (snd (register_node id ''a'' Desktop None None None 0 default_node_registry))))"
  using lapsed_node_not_revived [of id "snd (register_node id ''a'' Desktop None None None 0 default_node_registry)"
      40000 "''a''" "[HeartbeatNode ''a'' 40000, ListNodes None 45000]" 50000 None]
    nodes_wf_register [OF nodes_wf_new [of id 30000], of "''a''" Desktop None None None 0]
  by (simp add: default_node_registry_def new_node_registry_def register_node_def node_seen_def Let_def
      stable_node_id_def to_lower_def lower_char_def)

text \<open>
  Whether a heartbeat succeeds depends on the node's own record only. Listing prunes the Map in
  place, but no heartbeat can tell whether a listing, with or without the reputation filter, ran
  before it.
\<close>

theorem pruning_not_observable:
  assumes "nodes_wf sha256 r" and "now \<le> now'"
  shows "fst (node_heartbeat nid now' (snd (list_active rep now r))) = fst (node_heartbeat nid now' r) \<and>
    set (map nodeId (fst (list_active rep' now' (snd (list_active rep now r))))) =
    set (map nodeId (fst (list_active rep' now' r)))"
proof -
  have wf: "nodes_wf sha256 (snd (list_active rep now r))" by (rule nodes_wf_list_active [OF assms(1)])
  have seen: "within_timeout (node_timeoutMs r) now' (node_seen (snd (list_active rep now r)) j) \<longleftrightarrow>
      within_timeout (node_timeoutMs r) now' (node_seen r j)" for j
    using within_timeout_mono [OF _ assms(2)] nodes_wf_distinct [OF assms(1)] by (auto simp: node_seen_listing)
  have "fst (node_heartbeat nid now' (snd (list_active rep now r))) = fst (node_heartbeat nid now' r)"
    using noderegistry.beat_after_listing [OF assms, of nid rep] by (simp add: listed_ids_def)
  moreover have "node_timeoutMs (snd (list_active rep now r)) = node_timeoutMs r" by (simp add: list_active_eq)
  ultimately show ?thesis
    using listed_id_iff [OF wf] listed_id_iff [OF assms(1)] seen by (auto simp del: set_map)
qed

theorem pruning_not_observable_witness:
  "fst (node_heartbeat ''a'' 30000 (snd (list_active None 20000 (new_node_registry 30000)))) =
   fst (node_heartbeat ''a'' 30000 (new_node_registry 30000))"
  using pruning_not_observable [of id "new_node_registry 30000" 20000 30000 "''a''" None None] by simp

text \<open>
  \<open>groupByLocality\<close> partitions the listing: the bucket of a group is exactly the listed nodes of
  that group in their order (the nodes without a group under \<open>ungrouped\<close>), and a group without a
  listed node has no bucket.
\<close>

theorem group_by_locality_partitions:
  "map_get (fst (group_by_locality rep now r)) g =
    (let members = filter (\<lambda>n. locality_key n = g) (fst (list_active rep now r))
     in if members = [] then None else Some members)"
  by (auto simp: group_by_locality_def map_get_group_loop Let_def split: prod.splits list.splits)

end
