(* ===== verification/Pipeline_Selector.thy ===== *)
theory Pipeline_Selector
  imports Node_Registry "HOL-Library.Multiset"
begin

text \<open>
  Candidate ranking and selection: \<open>rankCandidates\<close> and \<open>selectPipeline\<close> of
  \<^verbatim>\<open>coordinator/src/pipeline_selector.ts\<close>, and \<open>selectNode\<close> of \<^verbatim>\<open>coordinator/src/server.ts\<close>. The
  comparator of the code's sort is the linear order of the type \<open>rank_key\<close> (higher score first,
  then more memory); \<open>Array.prototype.sort\<close> is stable, as \<open>sort_key\<close> is. The injected generator
  is a function from call number to value, and every operation that may draw returns the next
  call number beside its result.
\<close>

subsection \<open>The order of candidates\<close>

datatype rank_key = RankKey (key_score: rat) (key_memory: rat)

instantiation rank_key :: linorder
begin

definition less_eq_rank_key :: "rank_key \<Rightarrow> rank_key \<Rightarrow> bool" where
  "less_eq_rank_key a b \<longleftrightarrow>
     key_score a > key_score b \<or> key_score a = key_score b \<and> key_memory a \<ge> key_memory b"

definition less_rank_key :: "rank_key \<Rightarrow> rank_key \<Rightarrow> bool" where
  "less_rank_key a b \<longleftrightarrow>
     key_score a > key_score b \<or> key_score a = key_score b \<and> key_memory a > key_memory b"

instance
  by standard (auto simp: less_eq_rank_key_def less_rank_key_def intro: rank_key.expand)

end

record ranked =
  ranked_node :: node_info
  ranked_score :: rat
  ranked_memory :: rat

definition with_key :: "reputation_tracker \<Rightarrow> node_info \<Rightarrow> ranked" where
  "with_key rep n =
     \<lparr>ranked_node = n, ranked_score = score rep (nodeId n),
      ranked_memory = (case availableMemoryMb n of None \<Rightarrow> 0 | Some m \<Rightarrow> m)\<rparr>"

definition rank_of :: "ranked \<Rightarrow> rank_key" where
  "rank_of x = RankKey (ranked_score x) (ranked_memory x)"

text \<open>\<open>splice(idx, 1)\<close> on an array.\<close>

definition remove_nth :: "nat \<Rightarrow> 'a list \<Rightarrow> 'a list" where
  "remove_nth i xs = take i xs @ drop (Suc i) xs"

lemma length_remove_nth: "i < length xs \<Longrightarrow> length (remove_nth i xs) = length xs - 1"
  by (simp add: remove_nth_def)

lemma mset_remove_nth: "i < length xs \<Longrightarrow> add_mset (xs ! i) (mset (remove_nth i xs)) = mset xs"
proof -
  assume i: "i < length xs"
  have "mset xs = mset (take i xs @ xs ! i # drop (Suc i) xs)"
    using id_take_nth_drop [OF i] by metis
  then show ?thesis by (simp add: remove_nth_def)
qed

text \<open>The inner loop: draw an element, append it, remove it, repeat.\<close>

function shuffle :: "(nat \<Rightarrow> rat) \<Rightarrow> nat \<Rightarrow> 'a list \<Rightarrow> 'a list \<times> nat" where
  "shuffle rnd k xs =
     (if xs = [] then ([], k)
      else (let i = rand_index (rnd k) (length xs);
                (rest, k') = shuffle rnd (Suc k) (remove_nth i xs)
            in (xs ! i # rest, k')))"
  by pat_completeness auto
termination
  by (relation "measure (\<lambda>(rnd, k, xs). length xs)") (auto simp: length_remove_nth)

declare shuffle.simps [simp del]

text \<open>
  The outer loop: from the front of the sorted array, the maximal run of entries with the first
  entry's score and memory; a run of one goes out as it is, a longer one shuffled.
\<close>

function shuffle_ties :: "(nat \<Rightarrow> rat) \<Rightarrow> nat \<Rightarrow> ranked list \<Rightarrow> ranked list \<times> nat" where
  "shuffle_ties rnd k [] = ([], k)"
| "shuffle_ties rnd k (x # xs) =
     (let tie = (\<lambda>y. ranked_score y = ranked_score x \<and> ranked_memory y = ranked_memory x);
          group = x # takeWhile tie xs;
          (out, k') = (if length group = 1 then (group, k) else shuffle rnd k group);
          (rest, k'') = shuffle_ties rnd k' (dropWhile tie xs)
      in (out @ rest, k''))"
  by pat_completeness auto
termination
  by (relation "measure (\<lambda>(rnd, k, xs). length xs)") (auto simp: le_imp_less_Suc length_dropWhile_le)

declare shuffle_ties.simps(2) [simp del]

definition rank_candidates ::
  "node_info list \<Rightarrow> reputation_tracker \<Rightarrow> (nat \<Rightarrow> rat) \<Rightarrow> nat \<Rightarrow> node_info list \<times> nat" where
  "rank_candidates ns rep rnd k =
     (let withKeys = sort_key rank_of (map (with_key rep) ns);
          (result, k') = shuffle_ties rnd k withKeys
      in (map ranked_node result, k'))"

record pipeline_selection =
  driver :: "node_info option"
  computeContributors :: "node_info list"

text \<open>
  \<open>driver\<close> is \<open>ranked[0]\<close>, undefined (\<open>None\<close>) only when there is no candidate at all, which a
  required count of at least one excludes.
\<close>

definition select_pipeline ::
  "node_info list \<Rightarrow> reputation_tracker \<Rightarrow> int \<Rightarrow> (nat \<Rightarrow> rat) \<Rightarrow> nat \<Rightarrow>
   pipeline_selection option \<times> nat" where
  "select_pipeline ns rep required rnd k =
     (if int (length ns) < required then (None, k)
      else
        (let (ranked, k') = rank_candidates ns rep rnd k;
             drv = (case ranked of [] \<Rightarrow> None | d # _ \<Rightarrow> Some d);
             remaining = drop 1 ranked;
             sameLocality = filter (\<lambda>n. localityGroup n \<noteq> None \<and>
               (case drv of None \<Rightarrow> False | Some d \<Rightarrow> localityGroup n = localityGroup d)) remaining;
             otherCandidates = filter (\<lambda>n. n \<notin> set sameLocality) remaining
         in (Some \<lparr>driver = drv,
                   computeContributors = js_slice0 (sameLocality @ otherCandidates) (required - 1)\<rparr>, k')))"

text \<open>
  \<open>selectNode\<close>: the scan for the best score (\<open>None\<close> is the initial minus infinity), then a draw
  among the tied best, if there are several.
\<close>

fun best_loop :: "reputation_tracker \<Rightarrow> node_info list \<Rightarrow> rat option \<Rightarrow> node_info list \<Rightarrow> rat option \<times> node_info list" where
  "best_loop rep [] bestScore best = (bestScore, best)"
| "best_loop rep (n # ns) bestScore best =
     (let s = score rep (nodeId n)
      in if (case bestScore of None \<Rightarrow> True | Some b \<Rightarrow> s > b) then best_loop rep ns (Some s) [n]
         else if bestScore = Some s then best_loop rep ns bestScore (best @ [n])
         else best_loop rep ns bestScore best)"

definition select_node ::
  "node_info list \<Rightarrow> reputation_tracker \<Rightarrow> string \<Rightarrow> (nat \<Rightarrow> rat) \<Rightarrow> nat \<Rightarrow> node_info option \<times> nat" where
  "select_node ns rep modelId rnd k =
     (let candidates = filter (\<lambda>n. servesModel n = Some modelId) ns
      in if candidates = [] then (None, k)
         else (let best = snd (best_loop rep candidates None [])
               in if length best = 1 then (Some (best ! 0), k)
                  else (Some (best ! rand_index (rnd k) (length best)), Suc k)))"

subsection \<open>Ranking permutes the candidates and sorts them\<close>

lemma mset_shuffle: "mset (fst (shuffle rnd k xs)) = mset xs"
proof (induction rnd k xs rule: shuffle.induct)
  case (1 rnd k xs)
  show ?case
  proof (cases "xs = []")
    case True
    then show ?thesis by (simp add: shuffle.simps)
  next
    case False
    let ?i = "rand_index (rnd k) (length xs)"
    have "mset (fst (shuffle rnd (Suc k) (remove_nth ?i xs))) = mset (remove_nth ?i xs)"
      using 1 False by simp
    with False show ?thesis
      by (simp add: shuffle.simps [of rnd k xs] Let_def split_beta mset_remove_nth)
  qed
qed

lemma set_shuffle: "set (fst (shuffle rnd k xs)) = set xs"
  using mset_shuffle [of rnd k xs] by (metis set_mset_mset)

definition tie_out :: "(nat \<Rightarrow> rat) \<Rightarrow> nat \<Rightarrow> ranked list \<Rightarrow> ranked list \<times> nat" where
  "tie_out rnd k g = (if length g = 1 then (g, k) else shuffle rnd k g)"

lemma mset_tie_out: "mset (fst (tie_out rnd k g)) = mset g"
  by (simp add: tie_out_def mset_shuffle)

lemma shuffle_ties_Cons:
  "fst (shuffle_ties rnd k (x # xs)) =
     fst (tie_out rnd k (x # takeWhile (\<lambda>y. rank_of y = rank_of x) xs)) @
     fst (shuffle_ties rnd (snd (tie_out rnd k (x # takeWhile (\<lambda>y. rank_of y = rank_of x) xs)))
       (dropWhile (\<lambda>y. rank_of y = rank_of x) xs))"
  by (simp add: shuffle_ties.simps(2) Let_def split_beta tie_out_def rank_of_def)

lemma mset_shuffle_ties: "mset (fst (shuffle_ties rnd k xs)) = mset xs"
proof (induction "length xs" arbitrary: k xs rule: less_induct)
  case less
  show ?case
  proof (cases xs)
    case Nil
    then show ?thesis by simp
  next
    case (Cons x ys)
    let ?P = "\<lambda>y. rank_of y = rank_of x"
    have "mset (fst (shuffle_ties rnd j (dropWhile ?P ys))) = mset (dropWhile ?P ys)" for j
      using less Cons by (simp add: le_imp_less_Suc length_dropWhile_le)
    moreover have "mset ys = mset (takeWhile ?P ys) + mset (dropWhile ?P ys)"
      by (metis mset_append takeWhile_dropWhile_id)
    ultimately show ?thesis by (simp add: Cons shuffle_ties_Cons mset_tie_out)
  qed
qed

lemma sorted_shuffle_ties:
  "sorted (map rank_of xs) \<Longrightarrow> map rank_of (fst (shuffle_ties rnd k xs)) = map rank_of xs"
proof (induction "length xs" arbitrary: k xs rule: less_induct)
  case less
  show ?case
  proof (cases xs)
    case Nil
    then show ?thesis by simp
  next
    case (Cons x ys)
    let ?P = "\<lambda>y. rank_of y = rank_of x" and ?g = "x # takeWhile (\<lambda>y. rank_of y = rank_of x) ys"
    have split: "ys = takeWhile ?P ys @ dropWhile ?P ys" by simp
    have "sorted (map rank_of (dropWhile ?P ys))"
      using less.prems Cons split by (metis list.simps(9) map_append sorted_append sorted_simps(2))
    then have rest: "map rank_of (fst (shuffle_ties rnd j (dropWhile ?P ys))) =
        map rank_of (dropWhile ?P ys)" for j
      using less.hyps Cons by (simp add: le_imp_less_Suc length_dropWhile_le)
    have all: "\<forall>y \<in> set ?g. rank_of y = rank_of x" by (auto dest: set_takeWhileD)
    have const: "\<forall>y \<in> set zs. rank_of y = c \<Longrightarrow> map rank_of zs = replicate (length zs) c" for zs c
      by (induction zs) auto
    have "set (fst (tie_out rnd k ?g)) = set ?g" and "length (fst (tie_out rnd k ?g)) = length ?g"
      using mset_tie_out [of rnd k ?g] by (metis set_mset_mset, metis size_mset)
    with all const have "map rank_of (fst (tie_out rnd k ?g)) = map rank_of ?g" by metis
    moreover have "map rank_of ys = map rank_of (takeWhile ?P ys) @ map rank_of (dropWhile ?P ys)"
      by (metis map_append split)
    ultimately show ?thesis by (simp add: Cons shuffle_ties_Cons rest)
  qed
qed

definition node_rank :: "reputation_tracker \<Rightarrow> node_info \<Rightarrow> rank_key" where
  "node_rank rep n = rank_of (with_key rep n)"

lemma ranked_node_with_key [simp]: "ranked_node (with_key rep n) = n"
  by (simp add: with_key_def)

lemma mset_rank_candidates: "mset (fst (rank_candidates ns rep rnd k)) = mset ns"
proof -
  let ?out = "fst (shuffle_ties rnd k (sort_key rank_of (map (with_key rep) ns)))"
  have "image_mset ranked_node (mset ?out) = mset ns"
    by (simp only: mset_shuffle_ties) (simp add: image_mset.compositionality comp_def)
  then show ?thesis by (simp add: rank_candidates_def Let_def split_beta)
qed

lemma sorted_rank_candidates:
  "sorted (map (node_rank rep) (fst (rank_candidates ns rep rnd k)))"
proof -
  let ?ws = "sort_key rank_of (map (with_key rep) ns)"
  let ?out = "fst (shuffle_ties rnd k ?ws)"
  have "set ?out = with_key rep ` set ns"
    using mset_shuffle_ties [of rnd k ?ws] by (metis set_map set_mset_mset set_sort)
  then have "map (node_rank rep) (map ranked_node ?out) = map rank_of ?out"
    by (auto simp: node_rank_def)
  then show ?thesis
    by (simp add: rank_candidates_def Let_def split_beta sorted_shuffle_ties)
qed

lemma length_rank_candidates [simp]: "length (fst (rank_candidates ns rep rnd k)) = length ns"
  using mset_rank_candidates [of ns rep rnd k] by (metis size_mset)

lemma set_rank_candidates [simp]: "set (fst (rank_candidates ns rep rnd k)) = set ns"
  using mset_rank_candidates [of ns rep rnd k] by (metis set_mset_mset)

subsection \<open>The selected pipeline\<close>

lemma select_pipeline_None: "fst (select_pipeline ns rep req rnd k) = None \<longleftrightarrow> int (length ns) < req"
  by (simp add: select_pipeline_def Let_def split_beta)

text \<open>
  The selection over the ranked candidates: the driver is the first, the contributors are the
  first of the others once those of the driver's locality have been moved ahead.
\<close>

definition near_driver :: "node_info \<Rightarrow> node_info \<Rightarrow> bool" where
  "near_driver d n \<longleftrightarrow> localityGroup n \<noteq> None \<and> localityGroup n = localityGroup d"

lemma select_pipeline_eq:
  assumes "1 \<le> req" and "req \<le> int (length ns)"
  obtains d rest where "fst (rank_candidates ns rep rnd k) = d # rest"
    and "fst (select_pipeline ns rep req rnd k) =
      Some \<lparr>driver = Some d,
        computeContributors = take (nat (req - 1))
          (filter (near_driver d) rest @ filter (\<lambda>n. \<not> near_driver d n) rest)\<rparr>"
proof -
  have "length (fst (rank_candidates ns rep rnd k)) \<noteq> 0" using assms by auto
  then obtain d rest where r: "fst (rank_candidates ns rep rnd k) = d # rest"
    by (cases "fst (rank_candidates ns rep rnd k)") auto
  let ?same = "filter (\<lambda>n. localityGroup n \<noteq> None \<and> localityGroup n = localityGroup d) rest"
  have near: "?same = filter (near_driver d) rest"
    by (rule filter_cong) (simp_all add: near_driver_def)
  have far: "filter (\<lambda>n. n \<notin> set ?same) rest = filter (\<lambda>n. \<not> near_driver d n) rest"
    by (rule filter_cong) (auto simp: near_driver_def)
  have "fst (select_pipeline ns rep req rnd k) =
      Some \<lparr>driver = Some d,
        computeContributors = js_slice0 (?same @ filter (\<lambda>n. n \<notin> set ?same) rest) (req - 1)\<rparr>"
    using assms(2) r by (simp add: select_pipeline_def Let_def split_beta del: set_filter)
  then have "fst (select_pipeline ns rep req rnd k) =
      Some \<lparr>driver = Some d,
        computeContributors = take (nat (req - 1))
          (filter (near_driver d) rest @ filter (\<lambda>n. \<not> near_driver d n) rest)\<rparr>"
    unfolding far unfolding near using assms(1) by (simp add: js_slice0_nonneg)
  with r show ?thesis by (rule that)
qed

lemma mset_partition: "mset (filter P xs @ filter (\<lambda>x. \<not> P x) xs) = mset xs"
  by (induction xs) auto

subsection \<open>The selected node\<close>

text \<open>The scan keeps the candidates of the best score so far, in their order.\<close>

lemma best_loop_spec:
  assumes "best \<noteq> []" and "\<forall>n \<in> set best. score rep (nodeId n) = b"
  shows "\<exists>b' best'. best_loop rep ns (Some b) best = (Some b', best') \<and>
    b' = Max (insert b (set (map (\<lambda>n. score rep (nodeId n)) ns))) \<and>
    best' = filter (\<lambda>n. score rep (nodeId n) = b') (best @ ns) \<and> best' \<noteq> []"
  using assms
proof (induction ns arbitrary: b best)
  case Nil
  then show ?case by (auto intro!: filter_True [symmetric])
next
  case (Cons n ns)
  let ?s = "score rep (nodeId n)"
  let ?M = "\<lambda>b. Max (insert b (set (map (\<lambda>n. score rep (nodeId n)) ns)))"
  have max: "Max (insert b (set (map (\<lambda>n. score rep (nodeId n)) (n # ns)))) = ?M (max b ?s)"
    by (cases "ns = []") (simp_all add: max.left_commute max.assoc max.commute)
  have ge: "c \<le> ?M c" for c by simp
  consider "?s > b" | "?s = b" | "?s < b" by linarith
  then show ?case
  proof cases
    case 1
    have drop: "filter (\<lambda>m. score rep (nodeId m) = ?M ?s) best = []"
      using Cons.prems(2) 1 ge [of ?s] by (auto simp: filter_empty_conv)
    from Cons.IH [of "[n]" ?s] 1 drop show ?thesis unfolding max by (auto simp: max_def Let_def)
  next
    case 2
    from Cons.IH [of "best @ [n]" b] Cons.prems 2 show ?thesis unfolding max by (auto simp: Let_def)
  next
    case 3
    have "?s \<noteq> ?M b" using 3 ge [of b] by linarith
    with Cons.IH [of best b] Cons.prems 3 show ?thesis unfolding max by (auto simp: max_def Let_def)
  qed
qed

definition best_score :: "reputation_tracker \<Rightarrow> node_info list \<Rightarrow> rat" where
  "best_score rep ns = Max (set (map (\<lambda>n. score rep (nodeId n)) ns))"

lemma best_loop_all:
  assumes "ns \<noteq> []"
  shows "snd (best_loop rep ns None []) = filter (\<lambda>n. score rep (nodeId n) = best_score rep ns) ns \<and>
    snd (best_loop rep ns None []) \<noteq> []"
proof (cases ns)
  case Nil
  with assms show ?thesis by simp
next
  case (Cons n ms)
  with best_loop_spec [of "[n]" rep "score rep (nodeId n)" ms] show ?thesis
    by (auto simp: best_score_def Let_def)
qed

lemma select_node_Some:
  assumes "fst (select_node ns rep m rnd k) = Some n"
  shows "n \<in> set ns \<and> servesModel n = Some m \<and>
    score rep (nodeId n) = best_score rep (filter (\<lambda>n. servesModel n = Some m) ns)"
proof -
  let ?c = "filter (\<lambda>n. servesModel n = Some m) ns"
  let ?best = "snd (best_loop rep ?c None [])"
  have c: "?c \<noteq> []" using assms by (auto simp: select_node_def Let_def split: if_splits)
  note best = best_loop_all [OF c, of rep]
  then have "0 < length ?best" by (metis length_greater_0_conv)
  then have "n \<in> set ?best"
    using assms c by (auto simp: select_node_def Let_def split: if_splits)
  with best show ?thesis by auto
qed

lemma select_node_None:
  "fst (select_node ns rep m rnd k) = None \<longleftrightarrow> (\<forall>n \<in> set ns. servesModel n \<noteq> Some m)"
  by (auto simp: select_node_def Let_def filter_empty_conv)

subsection \<open>Properties\<close>

text \<open>
  C29: \<open>selectPipeline\<close> returns undefined exactly when there are fewer candidates than required.
  Otherwise, for every generator of random numbers, the driver is a candidate that none outranks
  (higher score, then more memory); together with the driver the contributors are \<open>required\<close>
  candidates, none taken twice; and a candidate left out never has the driver's locality while a
  contributor has another.
\<close>

theorem select_pipeline_correct:
  assumes "1 \<le> req"
  shows "case fst (select_pipeline ns rep req rnd k) of
      None \<Rightarrow> int (length ns) < req
    | Some sel \<Rightarrow> req \<le> int (length ns) \<and>
        (\<exists>d left. driver sel = Some d \<and> mset (d # computeContributors sel @ left) = mset ns \<and>
           int (length (d # computeContributors sel)) = req \<and>
           (\<forall>n \<in> set ns. node_rank rep d \<le> node_rank rep n) \<and>
           ((\<exists>n \<in> set left. near_driver d n) \<longrightarrow> (\<forall>n \<in> set (computeContributors sel). near_driver d n)))"
proof (cases "int (length ns) < req")
  case True
  then show ?thesis by (simp add: select_pipeline_def)
next
  case False
  then obtain d rest where r: "fst (rank_candidates ns rep rnd k) = d # rest"
    and sel: "fst (select_pipeline ns rep req rnd k) = Some \<lparr>driver = Some d,
        computeContributors = take (nat (req - 1))
          (filter (near_driver d) rest @ filter (\<lambda>n. \<not> near_driver d n) rest)\<rparr>"
    using select_pipeline_eq [OF assms] by (metis not_less)
  let ?order = "filter (near_driver d) rest @ filter (\<lambda>n. \<not> near_driver d n) rest"
  let ?n = "nat (req - 1)"
  have len: "length ns = Suc (length rest)" using r by (metis length_Cons length_rank_candidates)
  have "mset (d # ?order) = mset ns"
    using mset_rank_candidates [of ns rep rnd k] r by (simp add: mset_partition del: mset_append)
  then have all: "mset (d # take ?n ?order @ drop ?n ?order) = mset ns" by (simp only: append_take_drop_id)
  have "length ?order = length rest" using mset_partition [of "near_driver d" rest] by (metis size_mset)
  then have count: "int (length (d # take ?n ?order)) = req" using len False assms by simp
  have "sorted (map (node_rank rep) (d # rest))" using sorted_rank_candidates [of rep ns rnd k] r by simp
  moreover have "set ns = set (d # rest)" using r by (metis set_rank_candidates)
  ultimately have best: "\<forall>n \<in> set ns. node_rank rep d \<le> node_rank rep n" by auto
  have near: "\<forall>n \<in> set (take ?n ?order). near_driver d n" if "\<exists>n \<in> set (drop ?n ?order). near_driver d n"
  proof -
    have "?n < length (filter (near_driver d) rest)"
    proof (rule ccontr)
      assume "\<not> ?thesis"
      then have "drop ?n ?order = drop (?n - length (filter (near_driver d) rest)) (filter (\<lambda>n. \<not> near_driver d n) rest)"
        by simp
      with that obtain n where "n \<in> set (filter (\<lambda>n. \<not> near_driver d n) rest)" "near_driver d n"
        by (metis in_set_dropD)
      then show False by simp
    qed
    then have front: "take ?n ?order = take ?n (filter (near_driver d) rest)" by simp
    show ?thesis unfolding front by (auto dest: in_set_takeD)
  qed
  let ?sel = "\<lparr>driver = Some d, computeContributors = take ?n ?order\<rparr>"
  have parts: "driver ?sel = Some d" "computeContributors ?sel = take ?n ?order" by (simp_all only: pipeline_selection.simps)
  have le: "req \<le> int (length ns)" using False by simp
  show ?thesis
    unfolding sel option.case parts
    by (intro conjI le exI [of _ d] exI [of _ "drop ?n ?order"] impI refl all count best near)
qed

theorem select_pipeline_correct_witness:
  "\<exists>sel. fst (select_pipeline
      [\<lparr>nodeId = ''a'', node_endpoint = ''x'', deviceTier = Ios, localityGroup = None, servesModel = None,
        availableMemoryMb = None\<rparr>] default_reputation 1 (\<lambda>_. 0) 0) = Some sel"
  using select_pipeline_correct [of 1
      "[\<lparr>nodeId = ''a'', node_endpoint = ''x'', deviceTier = Ios, localityGroup = None, servesModel = None,
        availableMemoryMb = None\<rparr>]" default_reputation "\<lambda>_. 0" 0]
  by (auto split: option.splits)

text \<open>
  C30: \<open>selectNode\<close> returns undefined exactly when no node serves the model. Otherwise, for every
  generator, it returns a node that serves the model and whose score no other such node exceeds,
  and it draws a random number only to break a tie.
\<close>

theorem select_node_correct:
  "case select_node ns rep m rnd k of
     (None, k') \<Rightarrow> Some m \<notin> servesModel ` set ns \<and> k' = k
   | (Some n, k') \<Rightarrow> n \<in> set ns \<and> servesModel n = Some m \<and>
       score rep (nodeId n) = best_score rep (filter (\<lambda>n. servesModel n = Some m) ns) \<and>
       k' = (if length (filter (\<lambda>n. servesModel n = Some m \<and>
                score rep (nodeId n) = best_score rep (filter (\<lambda>n. servesModel n = Some m) ns)) ns) = 1
             then k else Suc k)"
proof (cases "select_node ns rep m rnd k")
  case (Pair r k')
  let ?c = "filter (\<lambda>n. servesModel n = Some m) ns"
  show ?thesis
  proof (cases r)
    case None
    with Pair select_node_None [of ns rep m rnd k] have "Some m \<notin> servesModel ` set ns" by force
    with None Pair show ?thesis
      by (auto simp: select_node_def Let_def split: if_splits)
  next
    case (Some n)
    then have c: "?c \<noteq> []" using Pair by (auto simp: select_node_def Let_def split: if_splits)
    have "snd (best_loop rep ?c None []) = filter (\<lambda>n. servesModel n = Some m \<and>
        score rep (nodeId n) = best_score rep ?c) ns"
      using best_loop_all [OF c, of rep] by (simp add: conj_commute)
    moreover have "k' = (if length (snd (best_loop rep ?c None [])) = 1 then k else Suc k)"
      using Pair c by (auto simp: select_node_def Let_def split: if_splits)
    ultimately show ?thesis
      using select_node_Some [of ns rep m rnd k n] Some Pair by simp
  qed
qed

end
