(* ===== verification/Peer_Registry.thy ===== *)
theory Peer_Registry
  imports Endpoint_Registry
begin

text \<open>
  The registry of federated coordinators, \<^verbatim>\<open>coordinator/src/peer_registry.ts\<close>: \<open>register\<close> (refresh
  in place or a new identity), \<open>heartbeat\<close>, \<open>deregister\<close> and \<open>listActive\<close>. \<open>randomUUID()\<close> is
  the argument \<open>uuid\<close> of \<open>register_peer\<close>. Invariant: no two entries share an endpoint, which is
  what keeps a peer's capacity from being counted twice. The registry interprets
  \<open>endpoint_registry\<close>.
\<close>

record peer_info =
  peerId :: string
  peer_endpoint :: string

record stored_peer = peer_info +
  peer_lastSeen :: time

record peer_registry =
  peer_timeoutMs :: time
  peers :: "(string, stored_peer) js_map"

definition new_peer_registry :: "time \<Rightarrow> peer_registry" where
  "new_peer_registry tmo = \<lparr>peer_timeoutMs = tmo, peers = []\<rparr>"

fun register_peer_loop ::
  "time \<Rightarrow> time \<Rightarrow> string \<Rightarrow> (string, stored_peer) js_map \<Rightarrow>
   string option \<times> (string, stored_peer) js_map" where
  "register_peer_loop tmo now endpoint [] = (None, [])"
| "register_peer_loop tmo now endpoint ((pid, peer) # rest) =
     (if now - peer_lastSeen peer > tmo then register_peer_loop tmo now endpoint rest
      else if peer_endpoint peer = endpoint
      then (Some (peerId peer), (pid, peer\<lparr>peer_lastSeen := now\<rparr>) # rest)
      else (let (found, kept) = register_peer_loop tmo now endpoint rest
            in (found, (pid, peer) # kept)))"

definition register_peer :: "string \<Rightarrow> string \<Rightarrow> time \<Rightarrow> peer_registry \<Rightarrow> string \<times> peer_registry" where
  "register_peer endpoint uuid now r =
     (case register_peer_loop (peer_timeoutMs r) now endpoint (peers r) of
        (Some pid, kept) \<Rightarrow> (pid, r\<lparr>peers := kept\<rparr>)
      | (None, kept) \<Rightarrow>
          (uuid, r\<lparr>peers := map_set uuid
             \<lparr>peerId = uuid, peer_endpoint = endpoint, peer_lastSeen = now\<rparr> kept\<rparr>))"

definition peer_heartbeat :: "string \<Rightarrow> time \<Rightarrow> peer_registry \<Rightarrow> bool \<times> peer_registry" where
  "peer_heartbeat pid now r =
     (case map_get (peers r) pid of
        None \<Rightarrow> (False, r)
      | Some peer \<Rightarrow>
          if now - peer_lastSeen peer > peer_timeoutMs r
          then (False, r\<lparr>peers := map_delete pid (peers r)\<rparr>)
          else (True, r\<lparr>peers := map_set pid (peer\<lparr>peer_lastSeen := now\<rparr>) (peers r)\<rparr>))"

definition deregister_peer :: "string \<Rightarrow> peer_registry \<Rightarrow> bool \<times> peer_registry" where
  "deregister_peer pid r =
     (map_get (peers r) pid \<noteq> None, r\<lparr>peers := map_delete pid (peers r)\<rparr>)"

fun list_peers_loop ::
  "time \<Rightarrow> time \<Rightarrow> (string, stored_peer) js_map \<Rightarrow> peer_info list \<times> (string, stored_peer) js_map" where
  "list_peers_loop tmo now [] = ([], [])"
| "list_peers_loop tmo now ((pid, peer) # rest) =
     (let (active, kept) = list_peers_loop tmo now rest
      in if now - peer_lastSeen peer \<le> tmo
         then (peer_info.truncate peer # active, (pid, peer) # kept)
         else (active, kept))"

definition list_peers :: "time \<Rightarrow> peer_registry \<Rightarrow> peer_info list \<times> peer_registry" where
  "list_peers now r =
     (let (active, kept) = list_peers_loop (peer_timeoutMs r) now (peers r)
      in (active, r\<lparr>peers := kept\<rparr>))"

subsection \<open>Loops as filters\<close>

lemma list_peers_eq:
  "list_peers now r =
     (map (\<lambda>(k, p). peer_info.truncate p)
        (filter (\<lambda>(k, p). now - peer_lastSeen p \<le> peer_timeoutMs r) (peers r)),
      r\<lparr>peers := filter (\<lambda>(k, p). now - peer_lastSeen p \<le> peer_timeoutMs r) (peers r)\<rparr>)"
proof -
  have "list_peers_loop tmo now m =
      (map (\<lambda>(k, p). peer_info.truncate p) (filter (\<lambda>(k, p). now - peer_lastSeen p \<le> tmo) m),
       filter (\<lambda>(k, p). now - peer_lastSeen p \<le> tmo) m)" for tmo m
    by (induction m) auto
  then show ?thesis by (simp add: list_peers_def)
qed

lemma register_peer_loop_eq:
  assumes "\<forall>(k, p) \<in> set m. k = peerId p"
  shows "register_peer_loop tmo now e m =
    endpoint_scan peer_lastSeen peer_endpoint (\<lambda>p. p\<lparr>peer_lastSeen := now\<rparr>) tmo now e m"
  using assms by (induction m) auto

subsection \<open>The invariant: one entry per endpoint\<close>

abbreviation peers_wf :: "peer_registry \<Rightarrow> bool" where
  "peers_wf r \<equiv> entries_wf peerId peer_endpoint (peers r)"

lemma register_peer_eq:
  assumes "peers_wf r"
  shows "register_peer e u now r =
    map_prod id (\<lambda>m. r\<lparr>peers := m\<rparr>)
      (endpoint_enter peer_lastSeen peer_endpoint (\<lambda>p. p\<lparr>peer_lastSeen := now\<rparr>)
        \<lparr>peerId = u, peer_endpoint = e, peer_lastSeen = now\<rparr> (peer_timeoutMs r) now e u (peers r))"
  using assms register_peer_loop_eq [of "peers r"]
  by (simp add: register_peer_def endpoint_enter_def entries_wf_def split: prod.splits option.splits)

lemma peers_wf_new [simp]: "peers_wf (new_peer_registry tmo)"
  by (simp add: new_peer_registry_def entries_wf_def)

lemma peers_wf_register:
  assumes "peers_wf r"
  shows "peers_wf (snd (register_peer e u now r))"
  using endpoint_enter_wf [OF assms, of "\<lambda>p. p\<lparr>peer_lastSeen := now\<rparr>"
      "\<lparr>peerId = u, peer_endpoint = e, peer_lastSeen = now\<rparr>" u e peer_lastSeen "peer_timeoutMs r" now]
  by (simp add: register_peer_eq [OF assms])

lemma peers_wf_heartbeat:
  assumes "peers_wf r"
  shows "peers_wf (snd (peer_heartbeat pid now r))"
  using assms
  by (auto simp: peer_heartbeat_def entries_wf_delete intro: entries_wf_renew split: option.splits)

lemma peers_wf_deregister: "peers_wf r \<Longrightarrow> peers_wf (snd (deregister_peer pid r))"
  by (simp add: deregister_peer_def entries_wf_delete)

lemma peers_wf_list: "peers_wf r \<Longrightarrow> peers_wf (snd (list_peers now r))"
  by (simp add: list_peers_eq entries_wf_filter)

subsection \<open>The registry as an endpoint registry\<close>

definition peer_seen :: "peer_registry \<Rightarrow> string \<Rightarrow> time option" where
  "peer_seen r pid = map_option peer_lastSeen (map_get (peers r) pid)"

definition peer_address :: "peer_registry \<Rightarrow> string \<Rightarrow> string option" where
  "peer_address r pid = map_option peer_endpoint (map_get (peers r) pid)"

definition listed_peers :: "time \<Rightarrow> peer_registry \<Rightarrow> string list \<times> peer_registry" where
  "listed_peers now r = map_prod (map peerId) id (list_peers now r)"

lemma listed_peer_iff:
  assumes wf: "peers_wf r"
  shows "j \<in> set (map peerId (fst (list_peers now r))) \<longleftrightarrow>
    within_timeout (peer_timeoutMs r) now (peer_seen r j)"
proof -
  have mem: "(k, p) \<in> set (peers r) \<longleftrightarrow> map_get (peers r) k = Some p" for k p
    using wf by (simp add: entries_wf_def)
  have ident: "(k, p) \<in> set (peers r) \<Longrightarrow> peerId p = k" for k p
    using wf by (auto simp: entries_wf_def)
  have "j \<in> set (map peerId (fst (list_peers now r))) \<longleftrightarrow>
      (\<exists>p. map_get (peers r) j = Some p \<and> now - peer_lastSeen p \<le> peer_timeoutMs r)"
    using ident by (fastforce simp: list_peers_eq peer_info.truncate_def image_iff mem [symmetric])
  also have "\<dots> \<longleftrightarrow> within_timeout (peer_timeoutMs r) now (peer_seen r j)"
    by (cases "map_get (peers r) j") (auto simp: peer_seen_def)
  finally show ?thesis .
qed

interpretation peerregistry:
  endpoint_registry peer_seen peer_timeoutMs peer_heartbeat listed_peers "\<lambda>_. True" peers_wf
    peer_address register_peer "\<lambda>e. e"
proof unfold_locales
  fix k now r j
  show "fst (peer_heartbeat k now r) \<longleftrightarrow> within_timeout (peer_timeoutMs r) now (peer_seen r k)"
    by (cases "map_get (peers r) k") (simp_all add: peer_heartbeat_def peer_seen_def not_less)
  show "within_timeout (peer_timeoutMs r) now (peer_seen r k) \<Longrightarrow>
      peer_seen (snd (peer_heartbeat k now r)) = (peer_seen r)(k := Some now)"
    by (cases "map_get (peers r) k") (simp_all add: peer_heartbeat_def peer_seen_def fun_eq_iff js_map_simps)
  show "\<not> within_timeout (peer_timeoutMs r) now (peer_seen r k) \<Longrightarrow>
      peer_seen (snd (peer_heartbeat k now r)) = (peer_seen r)(k := None)"
    by (cases "map_get (peers r) k") (auto simp: peer_heartbeat_def peer_seen_def fun_eq_iff js_map_simps)
  show "peer_timeoutMs (snd (peer_heartbeat k now r)) = peer_timeoutMs r"
    by (auto simp: peer_heartbeat_def split: option.splits)
  show "peer_timeoutMs (snd (listed_peers now r)) = peer_timeoutMs r"
    by (simp add: listed_peers_def list_peers_eq)
  show "peers_wf r \<Longrightarrow> peer_seen (snd (listed_peers now r)) j =
      (if within_timeout (peer_timeoutMs r) now (peer_seen r j) then peer_seen r j else None)"
    by (auto simp: listed_peers_def list_peers_eq peer_seen_def map_get_filter entries_wf_def split: option.splits)
  show "peers_wf r \<Longrightarrow> (j \<in> set (fst (listed_peers now r))) =
      (within_timeout (peer_timeoutMs r) now (peer_seen r j) \<and> True)"
    using listed_peer_iff by (simp add: listed_peers_def)
  show "peers_wf r \<Longrightarrow> peers_wf (snd (peer_heartbeat k now r))"
    by (rule peers_wf_heartbeat)
  show "peers_wf r \<Longrightarrow> peers_wf (snd (listed_peers now r))"
    by (simp add: listed_peers_def peers_wf_list)
next
  fix r i j a e u now r'
  show "peers_wf r \<Longrightarrow> peer_address r i = Some a \<Longrightarrow> peer_address r j = Some a \<Longrightarrow> i = j"
    by (auto simp: peer_address_def intro: entries_wf_unique)
  show "peers_wf r \<Longrightarrow> peer_address r j = Some e \<Longrightarrow>
      within_timeout (peer_timeoutMs r) now (peer_seen r j) \<Longrightarrow> fst (register_peer e u now r) = j"
    by (auto simp: register_peer_eq peer_address_def peer_seen_def intro: endpoint_enter_live)
  show "fst (register_peer e u now r) = u"
    if "peers_wf r" and "\<And>j. peer_address r j = Some e \<Longrightarrow>
      \<not> within_timeout (peer_timeoutMs r) now (peer_seen r j)"
  proof -
    have old: "peer_timeoutMs r < now - peer_lastSeen p"
      if "map_get (peers r) j = Some p" and "peer_endpoint p = e" for j p
      using that \<open>\<And>j. peer_address r j = Some e \<Longrightarrow> _\<close> [of j]
      by (simp add: peer_address_def peer_seen_def)
    have "keys_distinct (peers r)" using \<open>peers_wf r\<close> by (simp add: entries_wf_def)
    then show ?thesis unfolding register_peer_eq [OF \<open>peers_wf r\<close>]
      by (simp only: fst_map_prod id_apply) (rule endpoint_enter_new, assumption, rule old)
  qed
  show "peers_wf r \<Longrightarrow> register_peer e u now r = (j, r') \<Longrightarrow>
      peer_seen r' j = Some now \<and> peer_address r' j = Some e"
    by (auto simp: register_peer_eq peer_address_def peer_seen_def map_prod_def split: prod.splits
        dest: endpoint_enter_entry)
  show "peer_timeoutMs (snd (register_peer e u now r)) = peer_timeoutMs r"
    by (simp add: register_peer_def split: prod.splits option.splits)
  show "peers_wf r \<Longrightarrow> peers_wf (snd (register_peer e u now r))"
    by (rule peers_wf_register)
qed

subsection \<open>Runs of the registry\<close>

datatype peer_op =
  RegisterPeer string string time
| HeartbeatPeer string time
| DeregisterPeer string
| ListPeers time

fun peer_step :: "peer_op \<Rightarrow> peer_registry \<Rightarrow> peer_registry" where
  "peer_step (RegisterPeer e uuid now) r = snd (register_peer e uuid now r)"
| "peer_step (HeartbeatPeer pid now) r = snd (peer_heartbeat pid now r)"
| "peer_step (DeregisterPeer pid) r = snd (deregister_peer pid r)"
| "peer_step (ListPeers now) r = snd (list_peers now r)"

lemma peer_step_wf: "peers_wf r \<Longrightarrow> peers_wf (peer_step op r)"
  by (cases op) (simp_all add: peers_wf_register peers_wf_heartbeat peers_wf_deregister peers_wf_list)

lemma peer_run_wf: "peers_wf r \<Longrightarrow> peers_wf (fold peer_step ops r)"
  by (induction ops arbitrary: r) (simp_all add: peer_step_wf)

subsection \<open>Properties\<close>

text \<open>
  After any sequence of registrations, heartbeats, deregistrations and listings, the listed
  peers have pairwise distinct endpoints and pairwise distinct ids, even if the generator of ids
  repeats itself: no instance is asked for its capacity twice, and so none is counted twice in the
  federated total.
\<close>

theorem listed_peers_distinct:
  "distinct (map peer_endpoint (fst (list_peers now (fold peer_step ops (new_peer_registry tmo))))) \<and>
   distinct (map peerId (fst (list_peers now (fold peer_step ops (new_peer_registry tmo)))))"
proof -
  let ?r = "fold peer_step ops (new_peer_registry tmo)"
  have wf: "peers_wf ?r" by (simp add: peer_run_wf)
  have "map peer_endpoint (fst (list_peers now ?r)) =
      map (\<lambda>(k, p). peer_endpoint p) (filter (\<lambda>(k, p). now - peer_lastSeen p \<le> peer_timeoutMs ?r) (peers ?r))"
    by (auto simp: list_peers_eq peer_info.truncate_def)
  moreover have "map peerId (fst (list_peers now ?r)) =
      map fst (filter (\<lambda>(k, p). now - peer_lastSeen p \<le> peer_timeoutMs ?r) (peers ?r))"
    using wf by (auto simp: list_peers_eq peer_info.truncate_def entries_wf_def)
  ultimately show ?thesis
    using wf by (simp add: entries_wf_def distinct_map_filter case_prod_unfold comp_def)
qed

text \<open>
  A peer that registers again at the same endpoint keeps its id while its entry is within the
  timeout, and gets the fresh one once the entry has lapsed.
\<close>

theorem peer_reregistration:
  assumes "peers_wf r" and "register_peer e u now r = (pid, r')"
  shows "fst (register_peer e u' now' r') = (if now' - now \<le> peer_timeoutMs r then pid else u')"
  using peerregistry.reenter_within_timeout [OF assms refl, of now' u']
    peerregistry.reenter_after_timeout [OF assms refl, of now' u']
  by auto

theorem peer_reregistration_witness:
  "fst (register_peer ''e'' ''v'' 40000 (snd (register_peer ''e'' ''u'' 0 (new_peer_registry 30000)))) = ''v''"
  using peer_reregistration [of "new_peer_registry 30000" "''e''" "''u''" 0 "''u''"
      "snd (register_peer ''e'' ''u'' 0 (new_peer_registry 30000))" "''v''" 40000]
  by (simp add: new_peer_registry_def entries_wf_def register_peer_def)

end
