(* ===== verification/Demand_Tracker.thy ===== *)
theory Demand_Tracker
  imports Coordinator_Prelude
begin

text \<open>
  The sliding-window demand counter, \<^verbatim>\<open>coordinator/src/demand_tracker.ts\<close>: per model, the list of
  request times, pruned at its head on every write and on every read. The abstract view is the
  reqs of all requests ever recorded: with a clock that does not run backwards, \<open>recent_demand\<close>
  answers exactly the number of logged requests of the last \<open>WINDOW_MS\<close> milliseconds, although
  the tracker forgets the older ones.
\<close>

definition WINDOW_MS :: time where
  "WINDOW_MS = 60000"

type_synonym demand_tracker = "(string, time list) js_map"

definition new_demand_tracker :: demand_tracker where
  "new_demand_tracker = []"

text \<open>The loop's index, counted from \<open>i\<close>, over the part of the list it has still to look at.\<close>

fun first_live_index :: "time \<Rightarrow> nat \<Rightarrow> time list \<Rightarrow> nat" where
  "first_live_index cutoff i [] = i"
| "first_live_index cutoff i (t # ts) = (if t \<le> cutoff then first_live_index cutoff (Suc i) ts else i)"

definition prune_expired :: "time list \<Rightarrow> time \<Rightarrow> time list" where
  "prune_expired ts now =
     (let n = first_live_index (now - WINDOW_MS) 0 ts in if 0 < n then drop n ts else ts)"

definition record_request :: "string \<Rightarrow> time \<Rightarrow> demand_tracker \<Rightarrow> demand_tracker" where
  "record_request modelId now d =
     (case map_get d modelId of
        Some ts \<Rightarrow> map_set modelId (prune_expired ts now @ [now]) d
      | None \<Rightarrow> map_set modelId [now] d)"

definition recent_demand :: "string \<Rightarrow> time \<Rightarrow> demand_tracker \<Rightarrow> nat \<times> demand_tracker" where
  "recent_demand modelId now d =
     (case map_get d modelId of
        None \<Rightarrow> (0, d)
      | Some ts \<Rightarrow> (let ts' = prune_expired ts now in (length ts', map_set modelId ts' d)))"

subsection \<open>Pruning\<close>

lemma first_live_index_eq: "first_live_index c i ts = i + length (takeWhile (\<lambda>t. t \<le> c) ts)"
  by (induction ts arbitrary: i) auto

lemma prune_expired_eq: "prune_expired ts now = dropWhile (\<lambda>t. t \<le> now - WINDOW_MS) ts"
  by (simp add: prune_expired_def first_live_index_eq dropWhile_eq_drop)

lemma prune_expired_sorted:
  "sorted ts \<Longrightarrow> prune_expired ts now = filter (\<lambda>t. now - WINDOW_MS < t) ts"
  unfolding prune_expired_eq
proof (induction ts)
  case Nil
  then show ?case by simp
next
  case (Cons t ts)
  then show ?case by (auto intro!: filter_True [symmetric])
qed

subsection \<open>The tracker as an abstraction of the request log\<close>

text \<open>
  The log holds every request, oldest first. \<open>demand_rel now reqs d\<close>: every tracked list is the
  model's part of the log without some requests that have left the window by \<open>now\<close>.
\<close>

definition log_of :: "string \<Rightarrow> (string \<times> time) list \<Rightarrow> time list" where
  "log_of m reqs = map snd (filter (\<lambda>(m', _). m' = m) reqs)"

definition tracked :: "demand_tracker \<Rightarrow> string \<Rightarrow> time list" where
  "tracked d m = (case map_get d m of None \<Rightarrow> [] | Some ts \<Rightarrow> ts)"

definition demand_rel :: "time \<Rightarrow> (string \<times> time) list \<Rightarrow> demand_tracker \<Rightarrow> bool" where
  "demand_rel now reqs d \<longleftrightarrow>
     sorted (map snd reqs) \<and> (\<forall>t \<in> snd ` set reqs. t \<le> now) \<and>
     (\<forall>m. \<exists>old. log_of m reqs = old @ tracked d m \<and> (\<forall>t \<in> set old. t \<le> now - WINDOW_MS))"

lemma sorted_log_of: "sorted (map snd reqs) \<Longrightarrow> sorted (log_of m reqs)"
  by (simp add: log_of_def sorted_filter)

lemma prune_splits: "\<exists>old. ts = old @ prune_expired ts now \<and> (\<forall>t \<in> set old. t \<le> now - WINDOW_MS)"
  unfolding prune_expired_eq
  by (intro exI [of _ "takeWhile (\<lambda>t. t \<le> now - WINDOW_MS) ts"]) (auto dest: set_takeWhileD)

lemma demand_rel_later:
  assumes "demand_rel now reqs d" and "now \<le> now'"
  shows "demand_rel now' reqs d"
  using assms unfolding demand_rel_def by (meson diff_right_mono order_trans)

lemma demand_rel_prune:
  assumes rel: "demand_rel now reqs d" and eq: "\<And>m. tracked d' m = tracked d m \<or> tracked d' m = prune_expired (tracked d m) now"
  shows "demand_rel now reqs d'"
  unfolding demand_rel_def
proof (intro conjI allI)
  show "sorted (map snd reqs)" and "\<forall>t \<in> snd ` set reqs. t \<le> now"
    using rel by (simp_all add: demand_rel_def)
  fix m
  obtain old where old: "log_of m reqs = old @ tracked d m" "\<forall>t \<in> set old. t \<le> now - WINDOW_MS"
    using rel unfolding demand_rel_def by blast
  obtain more where "tracked d m = more @ tracked d' m" "\<forall>t \<in> set more. t \<le> now - WINDOW_MS"
    using eq [of m] prune_splits [of "tracked d m" now] by (metis append_Nil empty_iff list.set(1))
  with old show "\<exists>old. log_of m reqs = old @ tracked d' m \<and> (\<forall>t \<in> set old. t \<le> now - WINDOW_MS)"
    by (intro exI [of _ "old @ more"]) auto
qed

lemma tracked_recent_demand:
  "tracked (snd (recent_demand m now d)) m' =
     (if m' = m then prune_expired (tracked d m) now else tracked d m')"
  by (auto simp: tracked_def recent_demand_def js_map_simps prune_expired_eq Let_def split: option.splits)

lemma tracked_record_request:
  "tracked (record_request m now d) m' =
     (if m' = m then prune_expired (tracked d m) now @ [now] else tracked d m')"
  by (auto simp: tracked_def record_request_def js_map_simps prune_expired_eq split: option.splits)

lemma demand_rel_read: "demand_rel now reqs d \<Longrightarrow> demand_rel now reqs (snd (recent_demand m now d))"
  by (rule demand_rel_prune) (auto simp: tracked_recent_demand)

lemma demand_rel_record:
  assumes rel: "demand_rel now reqs d"
  shows "demand_rel now (reqs @ [(m, now)]) (record_request m now d)"
proof -
  have "\<exists>old. log_of m' (reqs @ [(m, now)]) = old @ tracked (record_request m now d) m' \<and>
      (\<forall>t \<in> set old. t \<le> now - WINDOW_MS)" for m'
  proof -
    obtain old where old: "log_of m' reqs = old @ tracked d m'" "\<forall>t \<in> set old. t \<le> now - WINDOW_MS"
      using rel unfolding demand_rel_def by blast
    obtain more where "tracked d m' = more @ prune_expired (tracked d m') now"
      "\<forall>t \<in> set more. t \<le> now - WINDOW_MS"
      using prune_splits by blast
    with old show ?thesis
      by (intro exI [of _ "if m' = m then old @ more else old"])
        (auto simp: tracked_record_request log_of_def)
  qed
  then show ?thesis using rel by (auto simp: demand_rel_def sorted_append)
qed

lemma demand_rel_recent:
  assumes rel: "demand_rel now reqs d"
  shows "fst (recent_demand m now d) = length (filter (\<lambda>t. now - WINDOW_MS < t) (log_of m reqs))"
proof -
  obtain old where old: "log_of m reqs = old @ tracked d m" "\<forall>t \<in> set old. t \<le> now - WINDOW_MS"
    using rel unfolding demand_rel_def by blast
  then have "sorted (tracked d m)"
    using rel sorted_log_of [of reqs m] by (simp add: demand_rel_def sorted_append)
  then have "prune_expired (tracked d m) now = filter (\<lambda>t. now - WINDOW_MS < t) (tracked d m)"
    by (rule prune_expired_sorted)
  moreover have "filter (\<lambda>t. now - WINDOW_MS < t) old = []"
    using old(2) by (auto simp: filter_empty_conv)
  moreover have "fst (recent_demand m now d) = length (prune_expired (tracked d m) now)"
    by (auto simp: recent_demand_def tracked_def Let_def prune_expired_eq split: option.splits)
  ultimately show ?thesis using old(1) by simp
qed

text \<open>A run of recordings and reads at given times.\<close>

datatype demand_op = Record string | Read string

fun demand_step :: "demand_op \<times> time \<Rightarrow> demand_tracker \<Rightarrow> demand_tracker" where
  "demand_step (Record m, now) d = record_request m now d"
| "demand_step (Read m, now) d = snd (recent_demand m now d)"

fun request_log :: "(demand_op \<times> time) list \<Rightarrow> (string \<times> time) list" where
  "request_log [] = []"
| "request_log ((Record m, t) # ops) = (m, t) # request_log ops"
| "request_log ((Read m, t) # ops) = request_log ops"

lemma demand_rel_run:
  assumes "demand_rel t0 reqs d" and "sorted (t0 # map snd ops)"
  shows "demand_rel (last (t0 # map snd ops)) (reqs @ request_log ops) (fold demand_step ops d)"
  using assms
proof (induction ops arbitrary: t0 reqs d)
  case Nil
  then show ?case by simp
next
  case (Cons x ops)
  obtain p t where x: "x = (p, t)" by (cases x)
  have rel: "demand_rel t reqs d" using Cons.prems x by (auto intro: demand_rel_later)
  have tail: "sorted (t # map snd ops)" using Cons.prems x by simp
  show ?case
  proof (cases p)
    case (Record m)
    with Cons.IH [OF demand_rel_record [OF rel, of m] tail] x show ?thesis by simp
  next
    case (Read m)
    with Cons.IH [OF demand_rel_read [OF rel, of m] tail] x show ?thesis by simp
  qed
qed

lemma demand_rel_new: "demand_rel t0 [] new_demand_tracker"
  by (simp add: demand_rel_def new_demand_tracker_def tracked_def log_of_def)

subsection \<open>Properties\<close>

text \<open>
  C26: The demand figure of a model is the number of its requests of the last 60 seconds, whatever
  recordings and reads, of any model, came before: the pruning that every call does in place is
  never observable.
\<close>

theorem recent_demand_counts_window:
  assumes "sorted (map snd ops @ [now])"
  shows "fst (recent_demand m now (fold demand_step ops new_demand_tracker)) =
    length (filter (\<lambda>t. now - 60000 < t) (log_of m (request_log ops)))"
proof -
  have "sorted (hd (map snd ops @ [now]) # map snd ops)" and le: "last (hd (map snd ops @ [now]) # map snd ops) \<le> now"
    using assms by (auto simp: sorted_append neq_Nil_conv last_conv_nth) (cases ops; auto)+
  from demand_rel_run [OF demand_rel_new this(1)]
  have "demand_rel now ([] @ request_log ops) (fold demand_step ops new_demand_tracker)"
    by (rule demand_rel_later) (rule le)
  from demand_rel_recent [OF this, of m] show ?thesis by (simp add: WINDOW_MS_def)
qed

theorem recent_demand_counts_window_witness:
  "fst (recent_demand ''a'' 70000 (fold demand_step
      [(Record ''a'', 1), (Record ''a'', 20000), (Read ''a'', 30000), (Record ''b'', 40000)] new_demand_tracker)) = 1"
  using recent_demand_counts_window [of "[(Record ''a'', 1), (Record ''a'', 20000), (Read ''a'', 30000),
      (Record ''b'', 40000)]" 70000 "''a''"]
  by (simp add: log_of_def)

end
