(* ===== verification/Js_Strings.thy ===== *)
theory Js_Strings
  imports Coordinator_Prelude
begin

text \<open>
  What the coordinator uses of JavaScript's strings: \<open>startsWith\<close>, \<open>split\<close> on a separator,
  \<open>join\<close>, \<open>trim\<close>, and the removal of one trailing slash. \<open>split\<close> scans from the left for the first
  occurrence of the separator, as the language's standard prescribes. The central lemma is
  \<open>split_append\<close>: splitting more text only ever extends the last piece, which is why a reader that
  keeps the last piece as its buffer sees the same pieces however the text is cut into chunks.
\<close>

named_theorems split_simps \<open>splitting of strings\<close>

definition starts_with :: "string \<Rightarrow> string \<Rightarrow> bool" where
  "starts_with p s \<longleftrightarrow> take (length p) s = p"

fun join :: "string \<Rightarrow> string list \<Rightarrow> string" where
  "join sep [] = []"
| "join sep [x] = x"
| "join sep (x # xs) = x @ sep @ join sep xs"

text \<open>\<open>s.split(sep)\<close>, for a separator that is not empty.\<close>

function split :: "string \<Rightarrow> string \<Rightarrow> string list" where
  "split sep [] = [[]]"
| "split sep (c # cs) =
     (if sep \<noteq> [] \<and> starts_with sep (c # cs) then [] # split sep (drop (length sep) (c # cs))
      else (let ps = split sep cs in (c # hd ps) # tl ps))"
  by pat_completeness auto
termination
  by (relation "measure (\<lambda>(sep, s). length s)") (auto simp: Suc_le_eq)

text \<open>\<open>s.replace(/\/$/, "")\<close>\<close>

definition strip_slash :: "string \<Rightarrow> string" where
  "strip_slash s = (if s \<noteq> [] \<and> last s = CHR ''/'' then butlast s else s)"

text \<open>The white space that \<open>trim\<close> removes, among the code units below 256.\<close>

definition trims :: "char \<Rightarrow> bool" where
  "trims c \<longleftrightarrow> (let n = of_char c :: nat in 9 \<le> n \<and> n \<le> 13 \<or> n = 32 \<or> n = 160)"

definition trim :: "string \<Rightarrow> string" where
  "trim s = rev (dropWhile trims (rev (dropWhile trims s)))"

abbreviation newline :: string where
  "newline \<equiv> [CHR 0x0A]"

subsection \<open>Prefixes\<close>

lemma starts_with_append [simp]: "starts_with p (p @ s)"
  by (simp add: starts_with_def)

lemma starts_with_iff: "starts_with p s \<longleftrightarrow> (\<exists>r. s = p @ r)"
  by (metis append_take_drop_id append_eq_conv_conj starts_with_def)

lemma starts_with_extend: "starts_with p s \<Longrightarrow> starts_with p (s @ t)"
  by (auto simp: starts_with_iff)

lemma starts_with_shorten:
  assumes "starts_with p (s @ t)" and "length p \<le> length s"
  shows "starts_with p s"
  using assms by (simp add: starts_with_def)

lemma starts_with_Nil [simp]: "starts_with [] s"
  by (simp add: starts_with_def)

lemma starts_with_Cons [simp]: "starts_with (a # p) (c # s) \<longleftrightarrow> a = c \<and> starts_with p s"
  by (auto simp: starts_with_def)

lemma starts_with_empty [simp]: "starts_with p [] \<longleftrightarrow> p = []"
  by (simp add: starts_with_def) blast

subsection \<open>Splitting\<close>

lemma split_not_Nil [simp]: "split sep s \<noteq> []"
  by (cases s) (simp_all add: Let_def)

lemma starts_with_length: "starts_with p s \<Longrightarrow> length p \<le> length s"
  by (auto simp: starts_with_iff)

lemma split_short: "length s < length sep \<Longrightarrow> split sep s = [s]"
proof (induction s)
  case Nil
  then show ?case by simp
next
  case (Cons c cs)
  then have "\<not> starts_with sep (c # cs)" using starts_with_length [of sep "c # cs"] by auto
  with Cons show ?case by (simp add: Let_def)
qed

lemma split_single: "split sep s = [x] \<Longrightarrow> x = s"
proof (induction sep s arbitrary: x rule: split.induct)
  case (1 sep)
  then show ?case by simp
next
  case (2 sep c cs)
  have no: "\<not> (sep \<noteq> [] \<and> starts_with sep (c # cs))" using "2.prems" by (auto simp: Let_def)
  with "2.prems" have x: "x = c # hd (split sep cs)" and "tl (split sep cs) = []"
    by (auto simp: Let_def split: if_splits)
  then have "split sep cs = [hd (split sep cs)]" by (metis list.collapse split_not_Nil)
  from "2.IH"(2) [OF no this] x show ?case by simp
qed

lemma split_append:
  "split sep (s @ t) = butlast (split sep s) @ split sep (last (split sep s) @ t)"
proof (induction sep s rule: split.induct)
  case (1 sep)
  then show ?case by simp
next
  case (2 sep c cs)
  show ?case
  proof (cases "sep \<noteq> [] \<and> starts_with sep (c # cs)")
    case True
    then have len: "length sep \<le> length (c # cs)" using starts_with_length by blast
    have "starts_with sep ((c # cs) @ t)" using True starts_with_extend by blast
    with True have "split sep ((c # cs) @ t) = [] # split sep (drop (length sep) ((c # cs) @ t))"
      by simp
    with len have "split sep ((c # cs) @ t) = [] # split sep (drop (length sep) (c # cs) @ t)"
      by (simp only: drop_append) simp
    with "2.IH"(1) [OF True] True show ?thesis by simp
  next
    case no: False
    let ?ps = "split sep cs"
    have unfold: "split sep (c # cs) = (c # hd ?ps) # tl ?ps" using no by (auto simp: Let_def)
    show ?thesis
    proof (cases "tl ?ps = []")
      case True
      then have "?ps = [hd ?ps]" by (metis list.collapse split_not_Nil)
      then have "hd ?ps = cs" by (rule split_single)
      with unfold True show ?thesis by simp
    next
      case False
      have "?ps \<noteq> [cs]" using False by auto
      then have "length sep \<le> length cs" using split_short [of cs sep] by linarith
      then have no': "\<not> (sep \<noteq> [] \<and> starts_with sep ((c # cs) @ t))"
        using no starts_with_shorten [of sep "c # cs" t] by auto
      from False obtain p q qs where ps: "?ps = p # q # qs"
        by (metis list.collapse split_not_Nil)
      from no' have "split sep ((c # cs) @ t) = (c # hd (split sep (cs @ t))) # tl (split sep (cs @ t))"
        by (auto simp: Let_def)
      with "2.IH"(2) [OF no] unfold ps show ?thesis by simp
    qed
  qed
qed

text \<open>The buffer of a reader, the last piece so far, never holds a whole separator.\<close>

lemma split_last [split_simps]: "split sep (last (split sep s)) = [last (split sep s)]"
proof -
  have "butlast (split sep s) @ [last (split sep s)] = butlast (split sep s) @ split sep (last (split sep s))"
    using split_append [of sep s "[]"] by simp
  then show ?thesis by (metis append_butlast_last_id same_append_eq split_not_Nil)
qed

text \<open>A piece without the separator's first character, closed by the separator.\<close>

lemma split_piece [split_simps]:
  assumes "sep = a # as" and "a \<notin> set p"
  shows "split sep (p @ sep @ s) = p # split sep s"
  using assms(2)
proof (induction p)
  case Nil
  then show ?case using assms(1) by (simp add: assms(1) starts_with_def)
next
  case (Cons c p)
  then have "\<not> starts_with sep ((c # p) @ sep @ s)" using assms(1) by auto
  with Cons show ?case by (simp add: Let_def)
qed

lemma split_one [split_simps]: "a \<notin> set p \<Longrightarrow> split (a # as) p = [p]"
proof (induction p)
  case Nil
  then show ?case by simp
next
  case (Cons c p)
  then show ?case by (simp add: Let_def)
qed

lemma split_drop_empty:
  assumes "sep \<noteq> []"
  shows "split sep (sep @ s) = [] # split sep s"
  using assms by (cases sep) (simp_all add: starts_with_def)

text \<open>The same for a piece that may hold part of the separator, but never completes it early.\<close>

lemma split_single_Cons:
  "split sep (c # s) = [c # s] \<longleftrightarrow> \<not> (sep \<noteq> [] \<and> starts_with sep (c # s)) \<and> split sep s = [s]"
proof (cases "sep \<noteq> [] \<and> starts_with sep (c # s)")
  case True
  then show ?thesis by auto
next
  case False
  then have "split sep (c # s) = (c # hd (split sep s)) # tl (split sep s)" by (auto simp: Let_def)
  with False show ?thesis by (metis list.collapse list.inject list.sel split_not_Nil)
qed

lemma split_first:
  assumes "sep \<noteq> []" and "split sep (p @ butlast sep) = [p @ butlast sep]"
  shows "split sep (p @ sep @ s) = p # split sep s"
  using assms(2)
proof (induction p)
  case Nil
  then show ?case by (simp add: split_drop_empty assms(1))
next
  case (Cons c p)
  then have not: "\<not> starts_with sep (c # p @ butlast sep)" and IH: "split sep (p @ sep @ s) = p # split sep s"
    using assms(1) by (simp_all add: split_single_Cons del: split.simps)
  have parts: "c # p @ sep @ s = (c # p @ butlast sep) @ (last sep # s)"
    using assms(1) by (metis append.assoc append_Cons append_Nil append_butlast_last_id)
  have "length sep \<le> length (c # p @ butlast sep)" by simp
  then have "\<not> starts_with sep (c # p @ sep @ s)"
    unfolding parts using not starts_with_shorten by blast
  with IH show ?case by (simp add: Let_def)
qed

lemma split_single_free:
  "a \<notin> set l \<Longrightarrow> split (a # as) r = [r] \<Longrightarrow> split (a # as) (l @ r) = [l @ r]"
  by (induction l) (simp_all add: split_single_Cons del: split.simps)

subsection \<open>Joining and splitting are inverse\<close>

lemma join_split: "join [a] (split [a] s) = s"
proof (induction s)
  case Nil
  then show ?case by simp
next
  case (Cons c cs)
  obtain p ps where ps: "split [a] cs = p # ps" by (cases "split [a] cs") simp_all
  with Cons have "join [a] (p # ps) = cs" by simp
  with ps show ?case by (cases "a = c"; cases ps) (auto simp: Let_def)
qed

lemma split_free: "p \<in> set (split [a] s) \<Longrightarrow> a \<notin> set p"
proof (induction s arbitrary: p)
  case Nil
  then show ?case by simp
next
  case (Cons c cs)
  obtain q qs where qs: "split [a] cs = q # qs" by (cases "split [a] cs") simp_all
  with Cons show ?case by (auto simp: Let_def split: if_splits)
qed

lemma split_join:
  "\<lbrakk>xs \<noteq> []; list_all (\<lambda>x. a \<notin> set x) xs\<rbrakk> \<Longrightarrow> split [a] (join [a] xs) = xs"
proof (induction xs rule: induct_list012)
  case (2 x)
  then show ?case by (simp add: split_one del: split.simps)
next
  case (3 x y ys)
  then show ?case using split_piece [of "[a]" a "[]" x "join [a] (y # ys)"] by (simp del: split.simps)
qed simp

end
