(* ===== verification/Pipeline_Assembly.thy ===== *)
theory Pipeline_Assembly
  imports Pool_Planner Pipeline_Selector Peer_Registry Demand_Tracker Js_Strings
begin

text \<open>
  The two procedures that assemble a pipeline through a launcher: \<open>tryAssemble\<close> of the pool
  manager (\<^verbatim>\<open>coordinator/src/pipeline_pool_manager.ts\<close>) and \<open>assemblePipeline\<close>, the cold start on
  the request path (\<^verbatim>\<open>coordinator/src/server.ts\<close>), with \<open>stopLauncherPipeline\<close>, which both use.

  JavaScript runs a synchronous segment to its next \<open>await\<close> without interruption, and anything
  may run between two segments. Each procedure is therefore a group of segments over the
  coordinator's state: the segment up to the \<open>POST /pipeline\<close> call (\<open>try_assemble_begin\<close>,
  \<open>cold_begin\<close>), which reserves the launcher, and the segments after the answer
  (\<open>try_assemble_ok\<close>, \<open>try_assemble_failed\<close>, \<open>cold_register\<close>, \<open>cold_stop\<close>, \<open>cold_commit\<close>,
  \<open>cold_failed\<close>). The functions \<open>try_assemble\<close> and \<open>assemble_pipeline\<close> compose them for a run
  with nothing in between; the theory Interleaving composes them in every order.

  Parameters of the model, in the record \<open>config\<close>: the hash behind \<open>stableNodeId\<close> and the URL
  parser. \<open>randomUUID()\<close> is an argument of the segment that calls it.
\<close>

record url =
  url_protocol :: string
  url_hostname :: string
  url_href :: string

record config =
  cfg_catalog :: catalog
  cfg_sha256 :: "string \<Rightarrow> string"
  cfg_parse_url :: "string \<Rightarrow> url option"
  cfg_idleGraceMs :: time
  cfg_requestsPerPipeline :: rat

record coordinator =
  co_nodes :: node_registry
  co_reputation :: reputation_tracker
  co_launchers :: launcher_registry
  co_tracker :: pipeline_tracker
  co_demand :: demand_tracker
  co_peers :: peer_registry

text \<open>The HTTP calls the coordinator makes to a launcher.\<close>

datatype launcher_call =
  PostPipeline (call_url: string) (call_model: string) (call_remotes: string) (call_layers: string)
| DeletePipeline (call_url: string)

datatype fetch_outcome = FetchOk | FetchNotOk | FetchThrew

datatype 'a begin_result = Declined | Threw | Reserved 'a

record assembly =
  asm_model :: string
  asm_launcher :: launcher_info
  asm_contributors :: "node_info list"
  asm_reservation :: string

record cold_assembly = assembly +
  asm_tracked :: "pooled_pipeline option"

subsection \<open>Strings\<close>

function digits_of :: "int \<Rightarrow> string" where
  "digits_of i =
     (if i < 10 then [''0123456789'' ! nat i] else digits_of (i div 10) @ [''0123456789'' ! nat (i mod 10)])"
  by pat_completeness auto
termination
  by (relation "measure nat") auto

declare digits_of.simps [simp del]

definition string_of_int :: "int \<Rightarrow> string" where
  "string_of_int i = (if i < 0 then ''-'' @ digits_of (- i) else digits_of i)"

definition to_host_port :: "string \<Rightarrow> string" where
  "to_host_port endpoint =
     (if starts_with ''http://'' endpoint then drop 7 endpoint
      else if starts_with ''https://'' endpoint then drop 8 endpoint
      else endpoint)"

text \<open>
  The port is printed in decimal, as JavaScript prints every whole number below \<open>10 ^ 21\<close>; from there
  on it would print an exponent.
\<close>

definition driver_endpoint :: "url \<Rightarrow> int \<Rightarrow> string" where
  "driver_endpoint u port = url_protocol u @ ''//'' @ url_hostname u @ '':'' @ string_of_int port"

text \<open>\<open>new URL(launcher.endpoint)\<close> throws where the parser rejects the string.\<close>

definition launcher_driver :: "config \<Rightarrow> launcher_info \<Rightarrow> string option" where
  "launcher_driver cfg l =
     map_option (\<lambda>u. driver_endpoint u (agentPort l)) (cfg_parse_url cfg (launcher_endpoint l))"

definition pipeline_call :: "assembly \<Rightarrow> launcher_call" where
  "pipeline_call a =
     PostPipeline (launcher_endpoint (asm_launcher a) @ ''/pipeline'') (asm_model a)
       (join '','' (map (\<lambda>n. to_host_port (node_endpoint n)) (asm_contributors a))) []"

subsection \<open>Pool entries\<close>

definition reservation_entry :: "string \<Rightarrow> launcher_info \<Rightarrow> time \<Rightarrow> pooled_pipeline" where
  "reservation_entry rid l now =
     \<lparr>pipelineId = rid, driverNodeId = [], computeNodeIds = [], entry_launcherId = launcherId l,
      entry_launcherEndpoint = Some (launcher_endpoint l), entry_state = Assembling, lastUsedAt = now\<rparr>"

definition warm_entry :: "string \<Rightarrow> string \<Rightarrow> assembly \<Rightarrow> time \<Rightarrow> pooled_pipeline" where
  "warm_entry pid drv a now =
     \<lparr>pipelineId = pid, driverNodeId = drv, computeNodeIds = map nodeId (asm_contributors a),
      entry_launcherId = launcherId (asm_launcher a),
      entry_launcherEndpoint = Some (launcher_endpoint (asm_launcher a)),
      entry_state = Warm, lastUsedAt = now\<rparr>"

subsection \<open>Stopping a launcher's agent\<close>

definition stop_launcher_pipeline ::
  "string \<Rightarrow> string option \<Rightarrow> time \<Rightarrow> coordinator \<Rightarrow> launcher_call option \<times> coordinator" where
  "stop_launcher_pipeline lid fallback now st =
     (let (active, lr) = list_launchers now (co_launchers st);
          endpoint = (case find (\<lambda>l. launcherId l = lid) active of
                        Some l \<Rightarrow> Some (launcher_endpoint l) | None \<Rightarrow> fallback);
          st' = st\<lparr>co_launchers := lr\<rparr>
      in case endpoint of
           None \<Rightarrow> (None, st')
         | Some e \<Rightarrow> if e = [] then (None, st') else (Some (DeletePipeline (e @ ''/pipeline'')), st'))"

subsection \<open>The pool manager's assembly\<close>

definition try_assemble_begin ::
  "config \<Rightarrow> string \<Rightarrow> launcher_info \<Rightarrow> time \<Rightarrow> string \<Rightarrow> (nat \<Rightarrow> rat) \<Rightarrow> nat \<Rightarrow> coordinator \<Rightarrow>
   assembly begin_result \<times> coordinator \<times> nat" where
  "try_assemble_begin cfg modelId launcher now uuid rnd k st =
     (let required = required_node_count (cfg_catalog cfg) modelId;
          (active, nr) = list_active (Some (co_reputation st)) now (co_nodes st);
          st = st\<lparr>co_nodes := nr\<rparr>;
          (selection, k) = select_pipeline active (co_reputation st) required rnd k
      in case selection of
           None \<Rightarrow> (Declined, st, k)
         | Some sel \<Rightarrow>
             (case launcher_driver cfg launcher of
                None \<Rightarrow> (Threw, st, k)
              | Some drv \<Rightarrow>
                  if \<not> is_trusted (co_reputation st) (stable_node_id (cfg_sha256 cfg) drv)
                  then (Declined, st, k)
                  else if is_launcher_claimed
                            (claimed_launcher_ids (cfg_catalog cfg) (co_tracker st) None) launcher
                  then (Declined, st, k)
                  else (Reserved \<lparr>asm_model = modelId, asm_launcher = launcher,
                                 asm_contributors = computeContributors sel, asm_reservation = uuid\<rparr>,
                        st\<lparr>co_tracker := add_entry modelId (reservation_entry uuid launcher now) (co_tracker st)\<rparr>,
                        k)))"

definition try_assemble_failed :: "assembly \<Rightarrow> coordinator \<Rightarrow> coordinator" where
  "try_assemble_failed a st =
     st\<lparr>co_tracker := remove_entry (asm_model a) (asm_reservation a) (co_tracker st)\<rparr>"

definition register_driver :: "config \<Rightarrow> string \<Rightarrow> string \<Rightarrow> time \<Rightarrow> coordinator \<Rightarrow> string \<times> coordinator" where
  "register_driver cfg drv modelId now st =
     (let (nid, nr) = register_node (cfg_sha256 cfg) drv Desktop None (Some modelId) None now (co_nodes st)
      in (nid, st\<lparr>co_nodes := nr\<rparr>))"

definition try_assemble_ok :: "config \<Rightarrow> assembly \<Rightarrow> string \<Rightarrow> time \<Rightarrow> coordinator \<Rightarrow> bool \<times> coordinator" where
  "try_assemble_ok cfg a uuid now st =
     (case launcher_driver cfg (asm_launcher a) of
        None \<Rightarrow> (False, try_assemble_failed a st)
      | Some drv \<Rightarrow>
          (let (nid, st) = register_driver cfg drv (asm_model a) now st
           in (True, st\<lparr>co_tracker := add_entry (asm_model a) (warm_entry uuid nid a now)
                 (remove_entry (asm_model a) (asm_reservation a) (co_tracker st))\<rparr>)))"

text \<open>
  The whole of \<open>tryAssemble\<close> when nothing runs between its segments, for a launcher that answers
  with \<open>reply\<close> at the time \<open>now'\<close>: success (\<open>None\<close> where the code throws), the call made, the
  state and the next draw.
\<close>

definition try_assemble ::
  "config \<Rightarrow> (launcher_call \<Rightarrow> fetch_outcome) \<Rightarrow> string \<Rightarrow> launcher_info \<Rightarrow> time \<Rightarrow> time \<Rightarrow> string \<Rightarrow> string \<Rightarrow>
   (nat \<Rightarrow> rat) \<Rightarrow> nat \<Rightarrow> coordinator \<Rightarrow> bool option \<times> launcher_call list \<times> coordinator \<times> nat" where
  "try_assemble cfg reply modelId launcher now now' uuid uuid' rnd k st =
     (case try_assemble_begin cfg modelId launcher now uuid rnd k st of
        (Declined, st, k) \<Rightarrow> (Some False, [], st, k)
      | (Threw, st, k) \<Rightarrow> (None, [], st, k)
      | (Reserved a, st, k) \<Rightarrow>
          (case reply (pipeline_call a) of
             FetchOk \<Rightarrow> (let (ok, st) = try_assemble_ok cfg a uuid' now' st in (Some ok, [pipeline_call a], st, k))
           | _ \<Rightarrow> (Some False, [pipeline_call a], try_assemble_failed a st, k)))"

subsection \<open>The cold start\<close>

definition cold_begin ::
  "config \<Rightarrow> string \<Rightarrow> time \<Rightarrow> string \<Rightarrow> (nat \<Rightarrow> rat) \<Rightarrow> nat \<Rightarrow> coordinator \<Rightarrow>
   cold_assembly begin_result \<times> coordinator \<times> nat" where
  "cold_begin cfg modelId now uuid rnd k st =
     (let required = required_node_count (cfg_catalog cfg) modelId
      in if required \<le> 1 then (Declined, st, k)
      else
        (let pool = get_pool (co_tracker st) modelId
         in if \<exists>e \<in> set pool. entry_state e = Assembling then (Declined, st, k)
         else
           (let tracked = (case pool of [] \<Rightarrow> None | e # _ \<Rightarrow> Some e);
                warm = (case tracked of None \<Rightarrow> None | Some e \<Rightarrow> if entry_state e = Warm then Some e else None);
                (active0, nr0) = (case warm of None \<Rightarrow> ([], co_nodes st)
                                  | Some e \<Rightarrow> list_active (Some (co_reputation st)) now (co_nodes st));
                st = st\<lparr>co_nodes := nr0\<rparr>
            in case (case warm of None \<Rightarrow> None
                     | Some e \<Rightarrow> if \<exists>n \<in> set active0. nodeId n = driverNodeId e then Some e else None) of
                 Some e \<Rightarrow> (Declined, st\<lparr>co_nodes := snd (node_heartbeat (driverNodeId e) now (co_nodes st))\<rparr>, k)
               | None \<Rightarrow>
                   if int (length pool) - (if tracked = None then 0 else 1) \<ge> max_pipelines (cfg_catalog cfg) modelId
                   then (Declined, st, k)
                   else
                     (let claimed = claimed_launcher_ids (cfg_catalog cfg) (co_tracker st) tracked;
                          (serving, lr) = list_for_model modelId now (co_launchers st);
                          st = st\<lparr>co_launchers := lr\<rparr>
                      in case find (\<lambda>l. \<not> is_launcher_claimed claimed l) serving of
                           None \<Rightarrow> (Declined, st, k)
                         | Some launcher \<Rightarrow>
                             (let (active, nr) = list_active (Some (co_reputation st)) now (co_nodes st);
                                  st = st\<lparr>co_nodes := nr\<rparr>;
                                  (selection, k) = select_pipeline active (co_reputation st) required rnd k
                              in case selection of
                                   None \<Rightarrow> (Declined, st, k)
                                 | Some sel \<Rightarrow>
                                     (case launcher_driver cfg launcher of
                                        None \<Rightarrow> (Threw, st, k)
                                      | Some drv \<Rightarrow>
                                          if \<not> is_trusted (co_reputation st) (stable_node_id (cfg_sha256 cfg) drv)
                                          then (Declined, st, k)
                                          else (Reserved \<lparr>asm_model = modelId, asm_launcher = launcher,
                                                  asm_contributors = computeContributors sel,
                                                  asm_reservation = uuid, asm_tracked = tracked\<rparr>,
                                                st\<lparr>co_tracker := add_entry modelId
                                                     (reservation_entry uuid launcher now) (co_tracker st)\<rparr>,
                                                k)))))))"

definition cold_failed :: "cold_assembly \<Rightarrow> coordinator \<Rightarrow> coordinator" where
  "cold_failed a st =
     (let t = remove_entry (asm_model a) (asm_reservation a) (co_tracker st)
      in st\<lparr>co_tracker := (case asm_tracked a of
              None \<Rightarrow> t | Some e \<Rightarrow> mark_entry_failed (asm_model a) (pipelineId e) t)\<rparr>)"

text \<open>The answer was positive: the driver is registered, then the replaced pipeline's agent is
  stopped if it ran on another launcher (an \<open>await\<close>), then the pool entries are swapped.\<close>

definition cold_register :: "config \<Rightarrow> cold_assembly \<Rightarrow> time \<Rightarrow> coordinator \<Rightarrow> string option \<times> coordinator" where
  "cold_register cfg a now st =
     (case launcher_driver cfg (asm_launcher a) of
        None \<Rightarrow> (None, st)
      | Some drv \<Rightarrow> map_prod Some id (register_driver cfg drv (asm_model a) now st))"

definition must_stop_tracked :: "cold_assembly \<Rightarrow> bool" where
  "must_stop_tracked a =
     (case asm_tracked a of None \<Rightarrow> False | Some e \<Rightarrow> entry_launcherId e \<noteq> launcherId (asm_launcher a))"

definition cold_stop :: "cold_assembly \<Rightarrow> time \<Rightarrow> coordinator \<Rightarrow> launcher_call option \<times> coordinator" where
  "cold_stop a now st =
     (case asm_tracked a of
        None \<Rightarrow> (None, st)
      | Some e \<Rightarrow>
          if must_stop_tracked a
          then stop_launcher_pipeline (entry_launcherId e) (entry_launcherEndpoint e) now st
          else (None, st))"

definition cold_commit :: "cold_assembly \<Rightarrow> string \<Rightarrow> string \<Rightarrow> time \<Rightarrow> coordinator \<Rightarrow> coordinator" where
  "cold_commit a nid uuid now st =
     (let t = (case asm_tracked a of None \<Rightarrow> co_tracker st
               | Some e \<Rightarrow> remove_entry (asm_model a) (pipelineId e) (co_tracker st))
      in st\<lparr>co_tracker := add_entry (asm_model a) (warm_entry uuid nid (assembly.truncate a) now)
              (remove_entry (asm_model a) (asm_reservation a) t)\<rparr>)"

text \<open>
  The whole of \<open>assemblePipeline\<close> when nothing runs between its segments; the launcher answers at
  \<open>now'\<close> and the stop of the replaced pipeline is over at \<open>now''\<close>. The first component is false
  where the code throws.
\<close>

definition assemble_pipeline ::
  "config \<Rightarrow> (launcher_call \<Rightarrow> fetch_outcome) \<Rightarrow> string \<Rightarrow> time \<Rightarrow> time \<Rightarrow> time \<Rightarrow> string \<Rightarrow> string \<Rightarrow> (nat \<Rightarrow> rat) \<Rightarrow> nat \<Rightarrow>
   coordinator \<Rightarrow> bool \<times> launcher_call list \<times> coordinator \<times> nat" where
  "assemble_pipeline cfg reply modelId now now' now'' uuid uuid' rnd k st =
     (case cold_begin cfg modelId now uuid rnd k st of
        (Declined, st, k) \<Rightarrow> (True, [], st, k)
      | (Threw, st, k) \<Rightarrow> (False, [], st, k)
      | (Reserved a, st, k) \<Rightarrow>
          (let post = pipeline_call (assembly.truncate a)
           in case reply post of
                FetchOk \<Rightarrow>
                  (case cold_register cfg a now' st of
                     (None, st) \<Rightarrow> (True, [post], cold_failed a st, k)
                   | (Some nid, st) \<Rightarrow>
                       (let (stop, st) = cold_stop a now' st
                        in (True, post # (case stop of None \<Rightarrow> [] | Some c \<Rightarrow> [c]),
                            cold_commit a nid uuid' now'' st, k)))
              | _ \<Rightarrow> (True, [post], cold_failed a st, k)))"

end
