(* ===== verification/Example_Swarm.thy ===== *)
theory Example_Swarm
  imports Pipeline_Assembly
begin

text \<open>
  A small concrete swarm: two models that need two nodes each, two registered nodes, two launchers
  that serve both models. The witnesses of the theorems about pools evaluate on it.
\<close>

definition example_config :: config where
  "example_config =
    \<lparr>cfg_catalog =
       [\<lparr>entry_id = ''m1'', displayName = ''Model 1'', minActiveNodes = 2,
         entry_requiredNodeCount = Some 2, entry_maxPipelines = None\<rparr>,
        \<lparr>entry_id = ''m2'', displayName = ''Model 2'', minActiveNodes = 2,
         entry_requiredNodeCount = Some 2, entry_maxPipelines = Some (Fin 2)\<rparr>],
     cfg_sha256 = id,
     cfg_parse_url = (\<lambda>s. Some \<lparr>url_protocol = ''http:'', url_hostname = to_host_port s, url_href = s\<rparr>),
     cfg_idleGraceMs = 300000, cfg_requestsPerPipeline = 10\<rparr>"

definition example_launcher :: "string \<Rightarrow> string \<Rightarrow> launcher_info" where
  "example_launcher lid host =
     \<lparr>launcherId = lid, launcher_endpoint = ''http://'' @ host, servesModels = [''m1'', ''m2''], agentPort = 7000\<rparr>"

definition example_launchers :: launcher_registry where
  "example_launchers =
     snd (register_launcher ''http://h2'' [''m1'', ''m2''] 7000 ''l2'' 0
       (snd (register_launcher ''http://h1'' [''m1'', ''m2''] 7000 ''l1'' 0 (new_launcher_registry 30000))))"

definition example_nodes :: node_registry where
  "example_nodes =
     snd (register_node id ''http://b'' Desktop None None None 0
       (snd (register_node id ''http://a'' Desktop None None None 0 default_node_registry)))"

definition example_swarm :: coordinator where
  "example_swarm =
     \<lparr>co_nodes = example_nodes, co_reputation = default_reputation, co_launchers = example_launchers,
      co_tracker = new_pipeline_tracker, co_demand = new_demand_tracker, co_peers = new_peer_registry 30000\<rparr>"

text \<open>The same swarm after a cold start of the first model, whose driver has the id \<open>http://h1:7000\<close>.\<close>

definition example_warm :: coordinator where
  "example_warm =
     fst (snd (snd (assemble_pipeline example_config (\<lambda>_. FetchOk) ''m1'' 10 20 20 ''r1'' ''p1'' (\<lambda>_. 0) 0 example_swarm)))"

lemma example_nodes_wf: "nodes_wf id example_nodes"
  by (simp add: example_nodes_def default_node_registry_def nodes_wf_register)

lemma example_warm_pool:
  "get_pool (co_tracker example_warm) ''m1'' =
     [\<lparr>pipelineId = ''p1'', driverNodeId = ''http://h1:7000'', computeNodeIds = [''http://b''],
       entry_launcherId = ''l1'', entry_launcherEndpoint = Some ''http://h1'',
       entry_state = Warm, lastUsedAt = 20\<rparr>]"
  by code_simp

lemma example_warm_nodes_wf: "nodes_wf id (co_nodes example_warm)"
  by code_simp

end
