(* ===== verification/Assembly_Outcomes.thy ===== *)
theory Assembly_Outcomes
  imports Example_Swarm
begin

text \<open>
  What an assembly may change, for both procedures, on every path: which pools, which entries, and
  which launchers and nodes it may choose.
\<close>

subsection \<open>Shared facts\<close>

lemma reservation_entry_simps [simp]:
  "pipelineId (reservation_entry r l now) = r" "entry_state (reservation_entry r l now) = Assembling"
  by (simp_all add: reservation_entry_def)

lemma pool_after_reservation:
  assumes "u \<notin> pipelineId ` set (get_pool t m)" and "pipelineId e = u"
  shows "get_pool (remove_entry m u (add_entry m e t)) m' = get_pool t m'"
  using assms by (simp add: pool_simps remove_first_append)

text \<open>What the selection guarantees of the contributors and the trust check of the new driver.\<close>

definition sound_choice :: "config \<Rightarrow> string \<Rightarrow> time \<Rightarrow> coordinator \<Rightarrow> launcher_info \<Rightarrow> node_info list \<Rightarrow> bool" where
  "sound_choice cfg m now st l contributors \<longleftrightarrow>
     int (length contributors) = required_node_count (cfg_catalog cfg) m - 1 \<and>
     set contributors \<subseteq> set (fst (list_active (Some (co_reputation st)) now (co_nodes st))) \<and>
     (\<exists>drv. launcher_driver cfg l = Some drv \<and> is_trusted (co_reputation st) (stable_node_id (cfg_sha256 cfg) drv))"

lemma selection_contributors:
  assumes "fst (select_pipeline ns rep req rnd k) = Some sel" and "1 \<le> req"
  shows "int (length (computeContributors sel)) = req - 1" and "set (computeContributors sel) \<subseteq> set ns"
proof -
  have "req \<le> int (length ns)" using assms(1) select_pipeline_None [of ns rep req rnd k] by force
  then obtain d rest where r: "fst (rank_candidates ns rep rnd k) = d # rest"
    and sel: "computeContributors sel = take (nat (req - 1))
          (filter (near_driver d) rest @ filter (\<lambda>n. \<not> near_driver d n) rest)"
    using select_pipeline_eq [OF assms(2), of ns rep rnd k] assms(1)
    by (metis option.inject pipeline_selection.select_convs(2))
  let ?order = "filter (near_driver d) rest @ filter (\<lambda>n. \<not> near_driver d n) rest"
  have "length ?order = length rest" using mset_partition [of "near_driver d" rest] by (metis size_mset)
  moreover have "length ns = Suc (length rest)" using r by (metis length_Cons length_rank_candidates)
  ultimately show "int (length (computeContributors sel)) = req - 1"
    using \<open>req \<le> int (length ns)\<close> assms(2) unfolding sel length_take by linarith
  have "set (computeContributors sel) \<subseteq> set rest" unfolding sel by (auto dest: in_set_takeD)
  moreover have "set rest \<subseteq> set ns" using r set_rank_candidates [of ns rep rnd k] by auto
  ultimately show "set (computeContributors sel) \<subseteq> set ns" by blast
qed

subsection \<open>What the segments do to the pool\<close>

lemma stop_keeps_pool [simp]: "co_tracker (snd (stop_launcher_pipeline l f now st)) = co_tracker st"
  by (auto simp: stop_launcher_pipeline_def Let_def split: prod.splits option.splits)

lemma cold_stop_keeps_pool [simp]: "co_tracker (snd (cold_stop a now st)) = co_tracker st"
  by (simp add: cold_stop_def split: option.splits)

lemma register_keeps_pool: "co_tracker (snd (register_driver cfg drv m now st)) = co_tracker st"
  by (simp add: register_driver_def split: prod.splits)

lemma cold_register_keeps_pool: "cold_register cfg a now st = (r, st') \<Longrightarrow> co_tracker st' = co_tracker st"
  by (auto simp: cold_register_def register_driver_def map_prod_def split: option.splits prod.splits)

lemma try_assemble_begin_Reserved:
  assumes "try_assemble_begin cfg m l now u rnd k st = (Reserved a, st', k')"
  shows "asm_model a = m" and "asm_launcher a = l" and "asm_reservation a = u"
    and "\<not> is_launcher_claimed (claimed_launcher_ids (cfg_catalog cfg) (co_tracker st) None) l"
    and "co_tracker st' = add_entry m (reservation_entry u l now) (co_tracker st)"
  using assms by (auto simp: try_assemble_begin_def Let_def split: prod.splits option.splits if_splits)

lemma try_assemble_begin_keeps_pool:
  assumes "try_assemble_begin cfg m l now u rnd k st = (r, st', k')" and "\<forall>a. r \<noteq> Reserved a"
  shows "co_tracker st' = co_tracker st"
  using assms by (auto simp: try_assemble_begin_def Let_def split: prod.splits option.splits if_splits)

lemma cold_begin_keeps_pool:
  assumes "cold_begin cfg m now u rnd k st = (r, st', k')" and "\<forall>a. r \<noteq> Reserved a"
  shows "co_tracker st' = co_tracker st"
  using assms by (simp add: cold_begin_def Let_def split: prod.splits option.splits if_splits) auto

definition first_entry :: "coordinator \<Rightarrow> string \<Rightarrow> pooled_pipeline option" where
  "first_entry st m = (case get_pool (co_tracker st) m of [] \<Rightarrow> None | e # _ \<Rightarrow> Some e)"

lemma cold_begin_Reserved:
  assumes "cold_begin cfg m now u rnd k st = (Reserved a, st', k')"
  shows "asm_model a = m" and "asm_reservation a = u" and "asm_tracked a = first_entry st m"
    and "1 < required_node_count (cfg_catalog cfg) m"
    and "\<forall>e \<in> set (get_pool (co_tracker st) m). entry_state e \<noteq> Assembling"
    and "\<not> is_launcher_claimed (claimed_launcher_ids (cfg_catalog cfg) (co_tracker st) (asm_tracked a)) (asm_launcher a)"
    and "co_tracker st' = add_entry m (reservation_entry u (asm_launcher a) now) (co_tracker st)"
    and "int (length (get_pool (co_tracker st) m)) - (if asm_tracked a = None then 0 else 1)
           < max_pipelines (cfg_catalog cfg) m"
    and "asm_launcher a \<in> set (fst (list_for_model m now (co_launchers st)))"
  using assms
  by (auto simp: cold_begin_def Let_def case_prod_beta first_entry_def dest!: find_SomeD
      split: option.splits if_splits list.splits)


subsection \<open>The choice an assembly makes\<close>

lemma try_assemble_begin_sound:
  assumes "try_assemble_begin cfg m l now u rnd k st = (Reserved a, st', k')"
    and "1 \<le> required_node_count (cfg_catalog cfg) m"
  shows "sound_choice cfg m now st l (asm_contributors a)"
proof -
  let ?active = "fst (list_active (Some (co_reputation st)) now (co_nodes st))"
  let ?req = "required_node_count (cfg_catalog cfg) m"
  from assms(1) obtain sel drv where sel: "fst (select_pipeline ?active (co_reputation st) ?req rnd k) = Some sel"
    and drv: "launcher_driver cfg l = Some drv" "is_trusted (co_reputation st) (stable_node_id (cfg_sha256 cfg) drv)"
    and c: "asm_contributors a = computeContributors sel"
    by (auto simp: try_assemble_begin_def Let_def split: prod.splits option.splits if_splits)
  from selection_contributors [OF sel assms(2)] drv c show ?thesis by (auto simp: sound_choice_def)
qed

lemma list_active_again:
  "fst (list_active rep' now (snd (list_active rep now r))) = fst (list_active rep' now r)"
  by (auto simp: list_active_eq node_live_def intro!: arg_cong [where f = "map _"] filter_cong)

lemma cold_begin_sound:
  assumes "cold_begin cfg m now u rnd k st = (Reserved a, st', k')"
  shows "sound_choice cfg m now st (asm_launcher a) (asm_contributors a)"
proof -
  let ?active = "fst (list_active (Some (co_reputation st)) now (co_nodes st))"
  let ?req = "required_node_count (cfg_catalog cfg) m"
  have req: "1 \<le> ?req" using cold_begin_Reserved(4) [OF assms] by simp
  from assms obtain sel drv where sel: "fst (select_pipeline ?active (co_reputation st) ?req rnd k) = Some sel"
    and drv: "launcher_driver cfg (asm_launcher a) = Some drv"
      "is_trusted (co_reputation st) (stable_node_id (cfg_sha256 cfg) drv)"
    and c: "asm_contributors a = computeContributors sel"
    by (auto simp: cold_begin_def Let_def case_prod_beta list_active_again split: option.splits if_splits list.splits)
  from selection_contributors [OF sel req] drv c show ?thesis by (auto simp: sound_choice_def)
qed

subsection \<open>Properties\<close>

text \<open>The entry a successful assembly leaves in the pool.\<close>

definition fresh_entry :: "config \<Rightarrow> string \<Rightarrow> string \<Rightarrow> launcher_info \<Rightarrow> node_info list \<Rightarrow> time \<Rightarrow> pooled_pipeline" where
  "fresh_entry cfg pid drv l contributors now =
     \<lparr>pipelineId = pid, driverNodeId = stable_node_id (cfg_sha256 cfg) drv,
      computeNodeIds = map nodeId contributors, entry_launcherId = launcherId l,
      entry_launcherEndpoint = Some (launcher_endpoint l), entry_state = Warm, lastUsedAt = now\<rparr>"

lemma register_driver_id:
  "register_driver cfg drv m now st = (nid, st') \<Longrightarrow>
   nid = stable_node_id (cfg_sha256 cfg) drv \<and> co_tracker st' = co_tracker st"
  by (auto simp: register_driver_def register_node_def Let_def)

text \<open>
  C11: The pool manager's assembly, run to its end. It touches no other model's pool. If it succeeds,
  the launcher was unclaimed, the spawned driver's identity is trusted, there are exactly as many
  contributors as the model needs beside the driver, each active and trusted, the launcher was
  sent one \<open>POST /pipeline\<close> and accepted it, and the pool has one more entry, warm, for that driver
  and launcher. On every other path, exceptions included, the pool is what it was: the reservation
  never outlives the attempt.
\<close>

theorem try_assemble_outcome:
  assumes fresh: "u \<notin> pipelineId ` set (get_pool (co_tracker st) m)"
    and req: "1 \<le> required_node_count (cfg_catalog cfg) m"
  shows "case try_assemble cfg reply m l now now' u u' rnd k st of (ok, calls, st', k') \<Rightarrow>
    get_pool (co_tracker st') = (get_pool (co_tracker st))(m := get_pool (co_tracker st') m) \<and>
    (if ok = Some True
     then \<exists>contributors drv call. sound_choice cfg m now st l contributors \<and> launcher_driver cfg l = Some drv \<and>
        \<not> is_launcher_claimed (claimed_launcher_ids (cfg_catalog cfg) (co_tracker st) None) l \<and>
        calls = [call] \<and> call_url call = launcher_endpoint l @ ''/pipeline'' \<and> reply call = FetchOk \<and>
        get_pool (co_tracker st') m = get_pool (co_tracker st) m @ [fresh_entry cfg u' drv l contributors now']
     else get_pool (co_tracker st') m = get_pool (co_tracker st) m)"
proof -
  obtain r st1 k1 where b: "try_assemble_begin cfg m l now u rnd k st = (r, st1, k1)" by (metis prod_cases3)
  show ?thesis
  proof (cases r)
    case (Reserved a)
    note a = try_assemble_begin_Reserved [OF b [unfolded Reserved]]
    note sound = try_assemble_begin_sound [OF b [unfolded Reserved] req]
    then obtain drv where drv: "launcher_driver cfg l = Some drv" by (auto simp: sound_choice_def)
    have gone: "get_pool (remove_entry m u (co_tracker st1)) m' = get_pool (co_tracker st) m'" for m'
      unfolding a(5) by (rule pool_after_reservation [OF fresh]) simp
    show ?thesis
    proof (cases "reply (pipeline_call a)")
      case FetchOk
      obtain nid st2 where reg: "register_driver cfg drv m now' st1 = (nid, st2)" by force
      have "try_assemble_ok cfg a u' now' st1 =
          (True, st2\<lparr>co_tracker := add_entry m (warm_entry u' nid a now') (remove_entry m u (co_tracker st2))\<rparr>)"
        using a drv reg by (simp add: try_assemble_ok_def Let_def)
      then have run: "try_assemble cfg reply m l now now' u u' rnd k st = (Some True, [pipeline_call a],
          st2\<lparr>co_tracker := add_entry m (warm_entry u' nid a now') (remove_entry m u (co_tracker st2))\<rparr>, k1)"
        using b Reserved FetchOk by (simp add: try_assemble_def)
      have w: "warm_entry u' nid a now' = fresh_entry cfg u' drv l (asm_contributors a) now'"
        using register_driver_id [OF reg] a(2) by (simp add: warm_entry_def fresh_entry_def)
      have pools: "get_pool (add_entry m (warm_entry u' nid a now') (remove_entry m u (co_tracker st2))) m' =
          (if m' = m then get_pool (co_tracker st) m @ [fresh_entry cfg u' drv l (asm_contributors a) now']
           else get_pool (co_tracker st) m')" for m'
        using gone register_driver_id [OF reg] w by (simp add: get_pool_add)
      show ?thesis
        unfolding run using sound drv a(2,4) FetchOk pools
        by (auto simp: pipeline_call_def fun_eq_iff)
    next
      case FetchNotOk
      with b Reserved a(1,3) have "try_assemble cfg reply m l now now' u u' rnd k st =
          (Some False, [pipeline_call a], st1\<lparr>co_tracker := remove_entry m u (co_tracker st1)\<rparr>, k1)"
        by (simp add: try_assemble_def try_assemble_failed_def)
      then show ?thesis by (simp add: gone fun_eq_iff)
    next
      case FetchThrew
      with b Reserved a(1,3) have "try_assemble cfg reply m l now now' u u' rnd k st =
          (Some False, [pipeline_call a], st1\<lparr>co_tracker := remove_entry m u (co_tracker st1)\<rparr>, k1)"
        by (simp add: try_assemble_def try_assemble_failed_def)
      then show ?thesis by (simp add: gone fun_eq_iff)
    qed
  qed (use b try_assemble_begin_keeps_pool [OF b] in \<open>simp_all add: try_assemble_def fun_eq_iff\<close>)
qed

theorem try_assemble_outcome_witness:
  "get_pool (co_tracker (fst (snd (snd (try_assemble example_config (\<lambda>_. FetchNotOk) ''m1''
      (example_launcher ''l1'' ''h1'') 5 6 ''r'' ''p'' (\<lambda>_. 0) 0 example_swarm))))) ''m1'' = []"
proof -
  have fresh: "''r'' \<notin> pipelineId ` set (get_pool (co_tracker example_swarm) ''m1'')"
    and req: "1 \<le> required_node_count (cfg_catalog example_config) ''m1''" by code_simp+
  have ok: "fst (try_assemble example_config (\<lambda>_. FetchNotOk) ''m1''
      (example_launcher ''l1'' ''h1'') 5 6 ''r'' ''p'' (\<lambda>_. 0) 0 example_swarm) = Some False" by code_simp
  have "get_pool (co_tracker example_swarm) ''m1'' = []" by code_simp
  with ok try_assemble_outcome [OF fresh req, where reply = "\<lambda>_. FetchNotOk" and
      l = "example_launcher ''l1'' ''h1''" and now = 5 and now' = 6 and u' = "''p''" and rnd = "\<lambda>_. 0" and k = 0]
  show ?thesis by (simp add: case_prod_beta)
qed

text \<open>
  C10: The cold start, run to its end. It touches no other model's pool and never lets the model's
  pool grow past the larger of its size and the model's ceiling. When it makes no call the pool is
  unchanged. Otherwise it has sent \<open>POST /pipeline\<close> to a launcher that serves the model, with a
  sound choice of nodes; if the launcher accepts, the first entry of the pool is replaced by a warm
  entry for the new driver; if not, the first entry is failed and nothing else changes.
\<close>

theorem cold_start_outcome:
  assumes fresh: "u \<notin> pipelineId ` set (get_pool (co_tracker st) m)"
  shows "case assemble_pipeline cfg reply m now now' now'' u u' rnd k st of (done, calls, st', k') \<Rightarrow>
    get_pool (co_tracker st') = (get_pool (co_tracker st))(m := get_pool (co_tracker st') m) \<and>
    int (length (get_pool (co_tracker st') m)) \<le>
      max (int (length (get_pool (co_tracker st) m))) (max_pipelines (cfg_catalog cfg) m) \<and>
    (case calls of
       [] \<Rightarrow> get_pool (co_tracker st') m = get_pool (co_tracker st) m
     | call # _ \<Rightarrow> \<exists>l contributors drv.
         1 < required_node_count (cfg_catalog cfg) m \<and> l \<in> set (fst (list_for_model m now (co_launchers st))) \<and>
         sound_choice cfg m now st l contributors \<and> launcher_driver cfg l = Some drv \<and>
         call_url call = launcher_endpoint l @ ''/pipeline'' \<and>
         get_pool (co_tracker st') m =
           (if reply call = FetchOk
            then drop 1 (get_pool (co_tracker st) m) @ [fresh_entry cfg u' drv l contributors now'']
            else case get_pool (co_tracker st) m of [] \<Rightarrow> [] | e # es \<Rightarrow> e\<lparr>entry_state := Failed\<rparr> # es))"
proof -
  obtain r st1 k1 where b: "cold_begin cfg m now u rnd k st = (r, st1, k1)" by (metis prod_cases3)
  let ?pool = "get_pool (co_tracker st) m"
  show ?thesis
  proof (cases r)
    case (Reserved a)
    note a = cold_begin_Reserved [OF b [unfolded Reserved]]
    note sound = cold_begin_sound [OF b [unfolded Reserved]]
    then obtain drv where drv: "launcher_driver cfg (asm_launcher a) = Some drv" by (auto simp: sound_choice_def)
    let ?post = "pipeline_call (assembly.truncate a)"
    have url: "call_url ?post = launcher_endpoint (asm_launcher a) @ ''/pipeline''"
      by (simp add: pipeline_call_def assembly.truncate_def)
    have gone: "get_pool (remove_entry m u (co_tracker st1)) m' = get_pool (co_tracker st) m'" for m'
      unfolding a(7) by (rule pool_after_reservation [OF fresh]) simp
    have failed: "get_pool (co_tracker (cold_failed a st1)) m' =
        (if m' = m then (case ?pool of [] \<Rightarrow> [] | e # es \<Rightarrow> e\<lparr>entry_state := Failed\<rparr> # es)
         else get_pool (co_tracker st) m')" for m'
      using gone a(1-3) by (simp add: cold_failed_def Let_def first_entry_def get_pool_mark split: list.split option.split)
    have shape: "length (case ?pool of [] \<Rightarrow> [] | e # es \<Rightarrow> e\<lparr>entry_state := Failed\<rparr> # es) = length ?pool"
      by (simp split: list.split)
    have bad: ?thesis if "assemble_pipeline cfg reply m now now' now'' u u' rnd k st = (True, [?post], cold_failed a st1, k1)"
      "reply ?post \<noteq> FetchOk"
      unfolding that(1) using sound drv url a(4,9) that(2) failed shape
      by (auto simp: fun_eq_iff intro!: exI [of _ "asm_launcher a"])
    show ?thesis
    proof (cases "reply ?post")
      case FetchOk
      obtain nid st2 where reg: "register_driver cfg drv m now' st1 = (nid, st2)" by force
      then have r2: "cold_register cfg a now' st1 = (Some nid, st2)" using drv a(1) by (simp add: cold_register_def)
      obtain stop st3 where stop: "cold_stop a now' st2 = (stop, st3)" by force
      have t3: "co_tracker st3 = co_tracker st1"
        using cold_stop_keeps_pool [of a now' st2] stop register_driver_id [OF reg] by simp
      have run: "assemble_pipeline cfg reply m now now' now'' u u' rnd k st =
          (True, ?post # (case stop of None \<Rightarrow> [] | Some c \<Rightarrow> [c]), cold_commit a nid u' now'' st3, k1)"
        using b Reserved FetchOk r2 stop by (simp add: assemble_pipeline_def Let_def)
      have w: "warm_entry u' nid (assembly.truncate a) now'' = fresh_entry cfg u' drv (asm_launcher a) (asm_contributors a) now''"
        using register_driver_id [OF reg] by (simp add: warm_entry_def fresh_entry_def assembly.truncate_def)
      let ?e = "reservation_entry u (asm_launcher a) now"
      have commit: "get_pool (co_tracker (cold_commit a nid u' now'' st3)) m' =
          (if m' = m then drop 1 ?pool @ [fresh_entry cfg u' drv (asm_launcher a) (asm_contributors a) now'']
           else get_pool (co_tracker st) m')" for m'
      proof (cases ?pool)
        case Nil
        then show ?thesis
          using a(1-3,7) t3 w fresh by (simp add: cold_commit_def Let_def first_entry_def pool_simps)
      next
        case (Cons e es)
        then have "u \<notin> pipelineId ` set es" "pipelineId e \<noteq> u" using fresh by auto
        then show ?thesis
          using a(1-3,7) t3 w Cons by (simp add: cold_commit_def Let_def first_entry_def pool_simps remove_first_append)
      qed
      have "int (length (drop 1 ?pool @ [fresh_entry cfg u' drv (asm_launcher a) (asm_contributors a) now''])) \<le>
          max (int (length ?pool)) (max_pipelines (cfg_catalog cfg) m)"
        using a(3,8) by (auto simp: first_entry_def split: list.splits)
      then show ?thesis
        unfolding run using sound drv url a(4,9) FetchOk commit
        by (auto simp: fun_eq_iff intro!: exI [of _ "asm_launcher a"])
    next
      case FetchNotOk
      then show ?thesis using b Reserved by (intro bad) (simp_all add: assemble_pipeline_def Let_def)
    next
      case FetchThrew
      then show ?thesis using b Reserved by (intro bad) (simp_all add: assemble_pipeline_def Let_def)
    qed
  qed (use b cold_begin_keeps_pool [OF b] in \<open>simp_all add: assemble_pipeline_def fun_eq_iff\<close>)
qed

theorem cold_start_outcome_witness:
  "get_pool (co_tracker (fst (snd (snd (assemble_pipeline example_config (\<lambda>_. FetchThrew) ''m1'' 10 20 20
      ''r'' ''p'' (\<lambda>_. 0) 0 example_swarm))))) ''m1'' = []"
proof -
  have pool: "get_pool (co_tracker example_swarm) ''m1'' = []" by code_simp
  then have "''r'' \<notin> pipelineId ` set (get_pool (co_tracker example_swarm) ''m1'')" by simp
  from cold_start_outcome [OF this, where cfg = example_config and reply = "\<lambda>_. FetchThrew" and now = 10
      and now' = 20 and now'' = 20 and u' = "''p''" and rnd = "\<lambda>_. 0" and k = 0] pool
  show ?thesis by (auto split: prod.splits list.splits)
qed

end
