(* ===== verification/Request_Routing.thy ===== *)
theory Request_Routing
  imports Assembly_Outcomes
begin

text \<open>
  How \<open>POST /generate\<close> finds the node that serves a request (\<^verbatim>\<open>coordinator/src/server.ts\<close>): the
  demand record, the pool-first choice of the least recently used warm entry whose driver is
  active and trusted (\<open>route_from_pool\<close>), the cold-start fallback over the registry
  (\<open>route_from_registry\<close>), and the eviction of a driver whose forward failed
  (\<open>mark_driver_failed\<close>).
\<close>

text \<open>\<open>usable.reduce((oldest, e) => e.lastUsedAt < oldest.lastUsedAt ? e : oldest)\<close>\<close>

fun oldest_of :: "pooled_pipeline \<Rightarrow> pooled_pipeline list \<Rightarrow> pooled_pipeline" where
  "oldest_of oldest [] = oldest"
| "oldest_of oldest (e # es) = oldest_of (if lastUsedAt e < lastUsedAt oldest then e else oldest) es"

definition usable_entries :: "pipeline_tracker \<Rightarrow> string \<Rightarrow> node_info list \<Rightarrow> pooled_pipeline list" where
  "usable_entries t modelId active =
     filter (\<lambda>e. entry_state e = Warm \<and> (\<exists>n \<in> set active. nodeId n = driverNodeId e)) (get_pool t modelId)"

text \<open>The Map \<open>activeById\<close>: a later node replaces an earlier one of the same id.\<close>

definition active_by_id :: "node_info list \<Rightarrow> string \<Rightarrow> node_info option" where
  "active_by_id active nid = map_get (fold (\<lambda>n. map_set (nodeId n) n) active []) nid"

definition route_from_pool :: "string \<Rightarrow> time \<Rightarrow> coordinator \<Rightarrow> node_info option \<times> coordinator" where
  "route_from_pool modelId now st =
     (let st = st\<lparr>co_demand := record_request modelId now (co_demand st)\<rparr>;
          (active, nr) = list_active (Some (co_reputation st)) now (co_nodes st);
          st = st\<lparr>co_nodes := nr\<rparr>
      in case usable_entries (co_tracker st) modelId active of
           [] \<Rightarrow> (None, st)
         | e # es \<Rightarrow>
             (let entry = oldest_of e es;
                  st = st\<lparr>co_tracker := touch_entry modelId (pipelineId entry) now (co_tracker st)\<rparr>;
                  st = st\<lparr>co_nodes := snd (node_heartbeat (driverNodeId entry) now (co_nodes st))\<rparr>
              in (active_by_id active (driverNodeId entry), st)))"

definition route_from_registry ::
  "string \<Rightarrow> time \<Rightarrow> (nat \<Rightarrow> rat) \<Rightarrow> nat \<Rightarrow> coordinator \<Rightarrow> node_info option \<times> coordinator \<times> nat" where
  "route_from_registry modelId now rnd k st =
     (let (active, nr) = list_active (Some (co_reputation st)) now (co_nodes st);
          st = st\<lparr>co_nodes := nr\<rparr>;
          (node, k) = select_node active (co_reputation st) modelId rnd k
      in (node, st, k))"

text \<open>
  The loop of \<open>markDriverFailedIfTracked\<close>, over the pool's entries in order; marking changes an
  entry's state only, never the array the loop walks.
\<close>

fun mark_loop :: "string \<Rightarrow> string \<Rightarrow> pooled_pipeline list \<Rightarrow> pipeline_tracker \<Rightarrow> pipeline_tracker" where
  "mark_loop modelId nid [] t = t"
| "mark_loop modelId nid (e # es) t =
     mark_loop modelId nid es (if driverNodeId e = nid then mark_entry_failed modelId (pipelineId e) t else t)"

definition mark_driver_failed :: "string \<Rightarrow> string \<Rightarrow> coordinator \<Rightarrow> coordinator" where
  "mark_driver_failed modelId nid st =
     st\<lparr>co_tracker := mark_loop modelId nid (get_pool (co_tracker st) modelId) (co_tracker st)\<rparr>"

subsection \<open>The least recently used entry\<close>

lemma oldest_of_mem: "oldest_of e es \<in> set (e # es)"
proof (induction es arbitrary: e)
  case Nil
  then show ?case by simp
next
  case (Cons f es)
  from Cons.IH [of "if lastUsedAt f < lastUsedAt e then f else e"] show ?case
    by (auto split: if_splits)
qed

lemma oldest_of_least: "x \<in> set (e # es) \<Longrightarrow> lastUsedAt (oldest_of e es) \<le> lastUsedAt x"
proof (induction es arbitrary: e x)
  case Nil
  then show ?case by simp
next
  case (Cons f es)
  let ?o = "if lastUsedAt f < lastUsedAt e then f else e"
  have "lastUsedAt (oldest_of ?o es) \<le> lastUsedAt ?o" using Cons.IH [of ?o ?o] by simp
  moreover have "x \<in> set es \<Longrightarrow> lastUsedAt (oldest_of ?o es) \<le> lastUsedAt x"
    using Cons.IH [of x ?o] by simp
  ultimately show ?case using Cons.prems by (auto split: if_splits)
qed

lemma active_by_id_Some:
  assumes "active_by_id active nid = Some n"
  shows "n \<in> set active \<and> nodeId n = nid"
proof -
  have "map_get (fold (\<lambda>n. map_set (nodeId n) n) ns m) nid = Some n \<Longrightarrow>
      map_get m nid = Some n \<or> n \<in> set ns \<and> nodeId n = nid" for ns m
  proof (induction ns arbitrary: m)
    case Nil
    then show ?case by simp
  next
    case (Cons a ns)
    from Cons.IH [of "map_set (nodeId a) a m"] Cons.prems show ?case
      by (auto simp: js_map_simps split: if_splits)
  qed
  from this [of active "[]"] assms show ?thesis by (simp add: active_by_id_def)
qed

lemma active_by_id_None:
  "active_by_id active nid = None \<longleftrightarrow> (\<forall>n \<in> set active. nodeId n \<noteq> nid)"
proof -
  have "map_get (fold (\<lambda>n. map_set (nodeId n) n) ns m) nid = None \<longleftrightarrow>
      map_get m nid = None \<and> (\<forall>n \<in> set ns. nodeId n \<noteq> nid)" for ns m
    by (induction ns arbitrary: m) (auto simp: js_map_simps split: if_splits)
  from this [of active "[]"] show ?thesis by (simp add: active_by_id_def)
qed

subsection \<open>What eviction does to the pool\<close>

lemma mark_first_distinct:
  "ids_distinct es \<Longrightarrow> update_first pid (\<lambda>e. e\<lparr>entry_state := Failed\<rparr>) es =
     map (\<lambda>e. if pipelineId e = pid then e\<lparr>entry_state := Failed\<rparr> else e) es"
  by (rule update_first_distinct)

lemma mark_loop_other: "m' \<noteq> m \<Longrightarrow> get_pool (mark_loop m nid es t) m' = get_pool t m'"
  by (induction m nid es t rule: mark_loop.induct) (auto simp: pool_simps)

lemma mark_loop_pool:
  assumes "ids_distinct (get_pool t m)"
  shows "get_pool (mark_loop m nid es t) m =
    map (\<lambda>e. if \<exists>x \<in> set es. driverNodeId x = nid \<and> pipelineId x = pipelineId e
             then e\<lparr>entry_state := Failed\<rparr> else e) (get_pool t m)"
  using assms
proof (induction es arbitrary: t)
  case Nil
  then show ?case by simp
next
  case (Cons x es)
  show ?case
  proof (cases "driverNodeId x = nid")
    case True
    let ?t = "mark_entry_failed m (pipelineId x) t"
    have pool: "get_pool ?t m =
        map (\<lambda>e. if pipelineId e = pipelineId x then e\<lparr>entry_state := Failed\<rparr> else e) (get_pool t m)"
      using Cons.prems by (simp add: pool_simps mark_first_distinct)
    then have "map pipelineId (get_pool ?t m) = map pipelineId (get_pool t m)" by simp
    then have "ids_distinct (get_pool ?t m)" using Cons.prems by simp
    from Cons.IH [OF this] True show ?thesis by (auto simp: pool)
  next
    case False
    then show ?thesis using Cons by simp
  qed
qed

lemma mark_driver_failed_pool:
  assumes "ids_distinct (get_pool (co_tracker st) m)"
  shows "get_pool (co_tracker (mark_driver_failed m nid st)) m =
    map (\<lambda>e. if driverNodeId e = nid then e\<lparr>entry_state := Failed\<rparr> else e) (get_pool (co_tracker st) m)"
proof -
  have "(\<exists>x \<in> set es. driverNodeId x = nid \<and> pipelineId x = pipelineId e) \<longleftrightarrow> driverNodeId e = nid"
    if "ids_distinct es" and "e \<in> set es" for es and e :: pooled_pipeline
    using that inj_onD [of pipelineId "set es"] by (auto simp: distinct_map)
  with assms show ?thesis by (simp add: mark_driver_failed_def mark_loop_pool)
qed

text \<open>The nodes a pool entry may rely on: heard of within the timeout, and trusted.\<close>

definition node_usable :: "coordinator \<Rightarrow> time \<Rightarrow> string \<Rightarrow> bool" where
  "node_usable st now nid \<longleftrightarrow>
     within_timeout (node_timeoutMs (co_nodes st)) now (node_seen (co_nodes st) nid) \<and>
     is_trusted (co_reputation st) nid"


lemma active_usable:
  assumes "nodes_wf sha256 (co_nodes st)"
  shows "(\<exists>n \<in> set (fst (list_active (Some (co_reputation st)) now (co_nodes st))). nodeId n = nid) \<longleftrightarrow>
    node_usable st now nid"
  using listed_id_iff [OF assms, of nid "Some (co_reputation st)" now]
  by (auto simp: node_usable_def trusted_by_def)

lemma set_usable_entries:
  assumes "nodes_wf sha256 (co_nodes st)"
  shows "set (usable_entries (co_tracker st) m (fst (list_active (Some (co_reputation st)) now (co_nodes st)))) =
    {e \<in> set (get_pool (co_tracker st) m). entry_state e = Warm \<and> node_usable st now (driverNodeId e)}"
  using active_usable [OF assms] by (auto simp: usable_entries_def)

subsection \<open>Properties\<close>

text \<open>
  C22: Pool-first routing. A request is served from the pool exactly when some warm entry of the
  model has a driver that is active and trusted; it goes to the driver of the least recently used
  such entry; that entry alone is stamped with the current time, and its driver is heartbeated.
\<close>

theorem route_least_recently_used:
  assumes wf: "nodes_wf sha256 (co_nodes st)" and ids: "ids_distinct (get_pool (co_tracker st) m)"
  shows "case route_from_pool m now st of
     (None, st') \<Rightarrow> co_tracker st' = co_tracker st \<and>
       (\<forall>e \<in> set (get_pool (co_tracker st) m). entry_state e = Warm \<longrightarrow> \<not> node_usable st now (driverNodeId e))
   | (Some n, st') \<Rightarrow> \<exists>e \<in> set (get_pool (co_tracker st) m).
       entry_state e = Warm \<and> driverNodeId e = nodeId n \<and> node_usable st now (nodeId n) \<and>
       (\<forall>e' \<in> set (get_pool (co_tracker st) m). entry_state e' = Warm \<longrightarrow>
          node_usable st now (driverNodeId e') \<longrightarrow> lastUsedAt e \<le> lastUsedAt e') \<and>
       get_pool (co_tracker st') m =
         map (\<lambda>x. if pipelineId x = pipelineId e then x\<lparr>lastUsedAt := now\<rparr> else x) (get_pool (co_tracker st) m) \<and>
       node_seen (co_nodes st') (nodeId n) = Some now"
proof -
  let ?l = "list_active (Some (co_reputation st)) now (co_nodes st)"
  let ?us = "usable_entries (co_tracker st) m (fst ?l)"
  note us = set_usable_entries [OF wf, of m now]
  show ?thesis
  proof (cases ?us)
    case Nil
    with us have "\<forall>e \<in> set (get_pool (co_tracker st) m). entry_state e = Warm \<longrightarrow> \<not> node_usable st now (driverNodeId e)"
      by auto
    with Nil show ?thesis by (simp add: route_from_pool_def case_prod_beta)
  next
    case (Cons x xs)
    let ?e = "oldest_of x xs"
    have "?e \<in> set ?us" using oldest_of_mem [of x xs] Cons by simp
    then have e: "?e \<in> set (get_pool (co_tracker st) m)" "entry_state ?e = Warm" "node_usable st now (driverNodeId ?e)"
      using us by simp_all
    have least: "lastUsedAt ?e \<le> lastUsedAt e'" if "e' \<in> set (get_pool (co_tracker st) m)" "entry_state e' = Warm"
      "node_usable st now (driverNodeId e')" for e'
    proof -
      have "e' \<in> set ?us" unfolding us using that by simp
      then show ?thesis using oldest_of_least [of e' x xs] Cons by simp
    qed
    obtain n where n: "active_by_id (fst ?l) (driverNodeId ?e) = Some n"
      using active_usable [OF wf, of now "driverNodeId ?e"] e(3) active_by_id_None
      by (cases "active_by_id (fst ?l) (driverNodeId ?e)") auto
    then have nid: "nodeId n = driverNodeId ?e" using active_by_id_Some by blast
    have "within_timeout (node_timeoutMs (snd ?l)) now (node_seen (snd ?l) (driverNodeId ?e))"
      using e(3) wf by (simp add: node_usable_def node_seen_listing nodes_wf_distinct) (simp add: list_active_eq)
    then have "node_seen (snd (node_heartbeat (driverNodeId ?e) now (snd ?l))) (driverNodeId ?e) = Some now"
      by (simp add: noderegistry.beat_renews)
    moreover have "route_from_pool m now st = (Some n,
        st\<lparr>co_demand := record_request m now (co_demand st),
           co_nodes := snd (node_heartbeat (driverNodeId ?e) now (snd ?l)),
           co_tracker := touch_entry m (pipelineId ?e) now (co_tracker st)\<rparr>)"
      using Cons n by (simp add: route_from_pool_def case_prod_beta Let_def)
    ultimately show ?thesis
      using e least nid by (auto simp: pool_simps update_first_distinct [OF ids] intro!: bexI [of _ ?e])
  qed
qed

theorem route_least_recently_used_witness:
  "fst (route_from_pool ''m1'' 25 example_warm) \<noteq> None"
proof -
  have "node_usable example_warm 25 ''http://h1:7000''" by code_simp
  then show ?thesis
    using route_least_recently_used [OF example_warm_nodes_wf, of "''m1''" 25]
    by (auto simp: example_warm_pool split: prod.splits option.splits)
qed

subsection \<open>The pool after an eviction\<close>

text \<open>
  Everything that happens to the pools after a forward has failed is a sequence of the tracker's
  operations, in whatever order the requests and the background loop make them.
\<close>

datatype pool_op = AddOp string pooled_pipeline | RemoveOp string string | FailOp string string | TouchOp string string time

fun apply_op :: "pool_op \<Rightarrow> pipeline_tracker \<Rightarrow> pipeline_tracker" where
  "apply_op (AddOp m e) t = add_entry m e t"
| "apply_op (RemoveOp m pid) t = remove_entry m pid t"
| "apply_op (FailOp m pid) t = mark_entry_failed m pid t"
| "apply_op (TouchOp m pid now) t = touch_entry m pid now t"

text \<open>An assembly gives the model a new warm entry with the driver.\<close>

fun readds :: "string \<Rightarrow> string \<Rightarrow> pool_op \<Rightarrow> bool" where
  "readds m nid (AddOp m' e) \<longleftrightarrow> m' = m \<and> entry_state e = Warm \<and> driverNodeId e = nid"
| "readds m nid _ \<longleftrightarrow> False"

definition evicted :: "string \<Rightarrow> string \<Rightarrow> pipeline_tracker \<Rightarrow> bool" where
  "evicted m nid t \<longleftrightarrow> (\<forall>e \<in> set (get_pool t m). entry_state e = Warm \<longrightarrow> driverNodeId e \<noteq> nid)"

lemma in_update_first: "x \<in> set (update_first pid f es) \<Longrightarrow> \<exists>e \<in> set es. x = e \<or> x = f e"
  by (induction es) (auto split: if_splits)

lemma evicted_update:
  assumes "\<forall>e \<in> set es. entry_state e = Warm \<longrightarrow> driverNodeId e \<noteq> nid"
    and "\<And>e. driverNodeId (f e) = driverNodeId e" and "\<And>e. entry_state (f e) = Warm \<Longrightarrow> entry_state e = Warm"
  shows "\<forall>e \<in> set (update_first pid f es). entry_state e = Warm \<longrightarrow> driverNodeId e \<noteq> nid"
proof (intro ballI impI)
  fix e assume e: "e \<in> set (update_first pid f es)" "entry_state e = Warm"
  then obtain x where x: "x \<in> set es" "e = x \<or> e = f x" using in_update_first by blast
  with e(2) assms(3) have "entry_state x = Warm" by blast
  then have "driverNodeId x \<noteq> nid" using assms(1) x(1) by blast
  moreover from x(2) have "driverNodeId e = driverNodeId x" by (elim disjE) (simp_all only: assms(2))
  ultimately show "driverNodeId e \<noteq> nid" by simp
qed

lemma evicted_apply_op:
  assumes "evicted m nid t" and "\<not> readds m nid oper"
  shows "evicted m nid (apply_op oper t)"
proof (cases oper)
  case (AddOp m' e)
  then show ?thesis using assms by (auto simp: evicted_def pool_simps)
next
  case (RemoveOp m' pid)
  then show ?thesis
    using assms(1) set_remove_first_subset [of pid "get_pool t m"] by (simp add: evicted_def pool_simps) blast
next
  case (FailOp m' pid)
  moreover have "\<forall>e \<in> set (update_first pid (\<lambda>e. e\<lparr>entry_state := Failed\<rparr>) (get_pool t m)). entry_state e = Warm \<longrightarrow> driverNodeId e \<noteq> nid"
    by (rule evicted_update [OF assms(1) [unfolded evicted_def]]) simp_all
  ultimately show ?thesis using assms(1) by (cases "m = m'") (simp_all only: evicted_def apply_op.simps pool_simps if_True if_False simp_thms)
next
  case (TouchOp m' pid now)
  moreover have "\<forall>e \<in> set (update_first pid (\<lambda>e. e\<lparr>lastUsedAt := now\<rparr>) (get_pool t m)). entry_state e = Warm \<longrightarrow> driverNodeId e \<noteq> nid"
    by (rule evicted_update [OF assms(1) [unfolded evicted_def]]) simp_all
  ultimately show ?thesis using assms(1) by (cases "m = m'") (simp_all only: evicted_def apply_op.simps pool_simps if_True if_False simp_thms)
qed

lemma evicted_run: "evicted m nid t \<Longrightarrow> \<forall>oper \<in> set ops. \<not> readds m nid oper \<Longrightarrow> evicted m nid (fold apply_op ops t)"
  by (induction ops arbitrary: t) (simp_all add: evicted_apply_op)

lemma mark_driver_failed_evicts:
  assumes "ids_distinct (get_pool (co_tracker st) m)"
  shows "evicted m nid (co_tracker (mark_driver_failed m nid st))"
  unfolding evicted_def mark_driver_failed_pool [OF assms] set_map by (intro ballI impI) (elim imageE, simp split: if_splits)

lemma evicted_not_chosen:
  assumes "evicted m nid (co_tracker st)"
  shows "map_option nodeId (fst (route_from_pool m now st)) \<noteq> Some nid"
proof (cases "usable_entries (co_tracker st) m (fst (list_active (Some (co_reputation st)) now (co_nodes st)))")
  case Nil
  then show ?thesis by (simp add: route_from_pool_def case_prod_beta)
next
  case (Cons x xs)
  let ?active = "fst (list_active (Some (co_reputation st)) now (co_nodes st))"
  have "oldest_of x xs \<in> set (usable_entries (co_tracker st) m ?active)"
    using oldest_of_mem [of x xs] Cons by simp
  then have "driverNodeId (oldest_of x xs) \<noteq> nid" using assms by (simp add: usable_entries_def evicted_def)
  then have "map_option nodeId (active_by_id ?active (driverNodeId (oldest_of x xs))) \<noteq> Some nid"
    by (metis active_by_id_Some map_option_eq_Some)
  moreover have "fst (route_from_pool m now st) = active_by_id ?active (driverNodeId (oldest_of x xs))"
    using Cons by (simp add: route_from_pool_def case_prod_beta Let_def)
  ultimately show ?thesis by simp
qed

text \<open>
  C23: Eviction. When a forward to a node fails, every entry of the model that names the node as
  its driver is failed and every other entry of every model is left as it was. From then on,
  whatever tracker operations follow and in whatever state of the rest of the coordinator, the node
  is not chosen from the model's pool again until an assembly adds a new warm entry with it. Only
  the pool is closed to it: the eviction leaves the node registered, and the choice of the fallback,
  which looks at the registry, is what it was before.
\<close>

theorem failed_driver_evicted:
  assumes ids: "ids_distinct (get_pool (co_tracker st) m)"
    and later: "co_tracker later = fold apply_op ops (co_tracker (mark_driver_failed m nid st))"
    and ops: "\<forall>oper \<in> set ops. \<not> readds m nid oper"
  shows "get_pool (co_tracker (mark_driver_failed m nid st)) m' =
      map (\<lambda>e. if m' = m \<and> driverNodeId e = nid then e\<lparr>entry_state := Failed\<rparr> else e) (get_pool (co_tracker st) m') \<and>
    map_option nodeId (fst (route_from_pool m now later)) \<noteq> Some nid \<and>
    co_nodes (mark_driver_failed m nid st) = co_nodes st \<and>
    fst (route_from_registry m now rnd k (mark_driver_failed m nid st)) = fst (route_from_registry m now rnd k st)"
proof (intro conjI)
  let ?st = "mark_driver_failed m nid st"
  show "get_pool (co_tracker ?st) m' =
      map (\<lambda>e. if m' = m \<and> driverNodeId e = nid then e\<lparr>entry_state := Failed\<rparr> else e) (get_pool (co_tracker st) m')"
    using mark_driver_failed_pool [OF ids, of nid]
    by (cases "m' = m") (simp_all add: mark_driver_failed_def mark_loop_other)
  have "evicted m nid (co_tracker later)"
    unfolding later by (rule evicted_run [OF mark_driver_failed_evicts [OF ids] ops])
  then show "map_option nodeId (fst (route_from_pool m now later)) \<noteq> Some nid" by (rule evicted_not_chosen)
  show "co_nodes ?st = co_nodes st"
    "fst (route_from_registry m now rnd k ?st) = fst (route_from_registry m now rnd k st)"
    by (simp_all add: mark_driver_failed_def route_from_registry_def case_prod_beta Let_def)
qed

text \<open>
  After the eviction the pool's entry is used no more, also once its timestamp has moved, but the
  fallback still finds the driver.
\<close>

theorem failed_driver_evicted_witness:
  "(let st = mark_driver_failed ''m1'' ''http://h1:7000'' example_warm
    in map entry_state (get_pool (co_tracker st) ''m1'') = [Failed] \<and>
       map_option nodeId (fst (route_from_pool ''m1'' 25 (st\<lparr>co_tracker := touch_entry ''m1'' ''p1'' 24 (co_tracker st)\<rparr>)))
         \<noteq> Some ''http://h1:7000'' \<and>
       map_option nodeId (fst (route_from_registry ''m1'' 25 (\<lambda>_. 0) 0 st)) = Some ''http://h1:7000'')"
proof -
  let ?st = "mark_driver_failed ''m1'' ''http://h1:7000'' example_warm"
  have "map_option nodeId (fst (route_from_registry ''m1'' 25 (\<lambda>_. 0) 0 example_warm)) = Some ''http://h1:7000''"
    by code_simp
  then show ?thesis
    using failed_driver_evicted [of example_warm "''m1''" "?st\<lparr>co_tracker := touch_entry ''m1'' ''p1'' 24 (co_tracker ?st)\<rparr>"
        "[TouchOp ''m1'' ''p1'' 24]" "''http://h1:7000''" "''m1''" 25 "\<lambda>_. 0" 0]
    by (simp add: example_warm_pool)
qed

end
