(* ===== verification/Interleaving.thy ===== *)
theory Interleaving
  imports Request_Routing
begin

text \<open>
  The two assemblers, the reaper and the request path as one transition system. A step is one
  synchronous segment of the code; the state holds the coordinator's data and, for every procedure
  that is waiting in an \<open>await\<close>, what it has kept in its local variables:

  \<^item> \<open>sys_pool\<close>: assemblies of the pool manager whose \<open>POST /pipeline\<close> is unanswered, by
    reservation id (the model lets any number be open, so an explicit second \<open>runOnce()\<close> is covered);
  \<^item> \<open>sys_cold\<close>: the cold start in flight per model, the code's \<open>coldStartsInFlight\<close>, waiting for
    its \<open>POST\<close> or, with the new driver's id, for the stop of the replaced launcher;
  \<^item> \<open>sys_reaping\<close>: entries whose teardown waits for its \<open>DELETE\<close>;
  \<^item> \<open>sys_used\<close>: the UUIDs handed out. A new one differs from all of them.

  The answers of launchers, the order of steps, the clock and every change of the registries, the
  reputation ledger and the demand counter by other requests are unconstrained. The invariant
  \<open>system_inv\<close> gives the exclusive use of launchers: two pool entries that name one launcher, by id
  or by endpoint, are the dead entry a cold start is replacing and its reservation.
\<close>

record system =
  sys_co :: coordinator
  sys_pool :: "string \<rightharpoonup> assembly"
  sys_cold :: "string \<rightharpoonup> cold_assembly \<times> string option"
  sys_reaping :: "(string \<times> string) set"
  sys_used :: "string set"

definition initial_system :: "coordinator \<Rightarrow> system" where
  "initial_system st =
     \<lparr>sys_co = st\<lparr>co_tracker := new_pipeline_tracker\<rparr>, sys_pool = Map.empty, sys_cold = Map.empty,
      sys_reaping = {}, sys_used = {}\<rparr>"

inductive sys_step :: "config \<Rightarrow> system \<Rightarrow> system \<Rightarrow> bool" for cfg :: config where
  pool_claim:
    "m \<in> set (multi_pipeline_model_ids (cfg_catalog cfg)) \<Longrightarrow> u \<notin> sys_used s \<Longrightarrow>
     try_assemble_begin cfg m l now u rnd k (sys_co s) = (Reserved a, st, k') \<Longrightarrow>
     sys_step cfg s (s\<lparr>sys_co := st, sys_pool := (sys_pool s)(u \<mapsto> a), sys_used := insert u (sys_used s)\<rparr>)"
| pool_decline:
    "try_assemble_begin cfg m l now u rnd k (sys_co s) = (r, st, k') \<Longrightarrow> (\<forall>a. r \<noteq> Reserved a) \<Longrightarrow>
     sys_step cfg s (s\<lparr>sys_co := st\<rparr>)"
| pool_answer_ok:
    "sys_pool s r = Some a \<Longrightarrow> u \<notin> sys_used s \<Longrightarrow>
     try_assemble_ok cfg a u now (sys_co s) = (ok, st) \<Longrightarrow>
     sys_step cfg s (s\<lparr>sys_co := st, sys_pool := (sys_pool s)(r := None), sys_used := insert u (sys_used s)\<rparr>)"
| pool_answer_bad:
    "sys_pool s r = Some a \<Longrightarrow>
     sys_step cfg s (s\<lparr>sys_co := try_assemble_failed a (sys_co s), sys_pool := (sys_pool s)(r := None)\<rparr>)"
| cold_claim:
    "sys_cold s m = None \<Longrightarrow> u \<notin> sys_used s \<Longrightarrow>
     cold_begin cfg m now u rnd k (sys_co s) = (Reserved a, st, k') \<Longrightarrow>
     sys_step cfg s (s\<lparr>sys_co := st, sys_cold := (sys_cold s)(m \<mapsto> (a, None)), sys_used := insert u (sys_used s)\<rparr>)"
| cold_decline:
    "sys_cold s m = None \<Longrightarrow>
     cold_begin cfg m now u rnd k (sys_co s) = (r, st, k') \<Longrightarrow> (\<forall>a. r \<noteq> Reserved a) \<Longrightarrow>
     sys_step cfg s (s\<lparr>sys_co := st\<rparr>)"
| cold_answer_bad:
    "sys_cold s m = Some (a, None) \<Longrightarrow>
     sys_step cfg s (s\<lparr>sys_co := cold_failed a (sys_co s), sys_cold := (sys_cold s)(m := None)\<rparr>)"
| cold_answer_unparsed:
    "sys_cold s m = Some (a, None) \<Longrightarrow> cold_register cfg a now (sys_co s) = (None, st) \<Longrightarrow>
     sys_step cfg s (s\<lparr>sys_co := cold_failed a st, sys_cold := (sys_cold s)(m := None)\<rparr>)"
| cold_answer_stop:
    "sys_cold s m = Some (a, None) \<Longrightarrow> cold_register cfg a now (sys_co s) = (Some nid, st) \<Longrightarrow>
     must_stop_tracked a \<Longrightarrow>
     sys_step cfg s (s\<lparr>sys_co := snd (cold_stop a now st), sys_cold := (sys_cold s)(m \<mapsto> (a, Some nid))\<rparr>)"
| cold_answer_swap:
    "sys_cold s m = Some (a, None) \<Longrightarrow> cold_register cfg a now (sys_co s) = (Some nid, st) \<Longrightarrow>
     \<not> must_stop_tracked a \<Longrightarrow> u \<notin> sys_used s \<Longrightarrow>
     sys_step cfg s (s\<lparr>sys_co := cold_commit a nid u now st, sys_cold := (sys_cold s)(m := None),
                      sys_used := insert u (sys_used s)\<rparr>)"
| cold_stopped:
    "sys_cold s m = Some (a, Some nid) \<Longrightarrow> u \<notin> sys_used s \<Longrightarrow>
     sys_step cfg s (s\<lparr>sys_co := cold_commit a nid u now (sys_co s), sys_cold := (sys_cold s)(m := None),
                      sys_used := insert u (sys_used s)\<rparr>)"
| reap_start:
    "e \<in> set (get_pool (co_tracker (sys_co s)) m) \<Longrightarrow> entry_state e \<noteq> Assembling \<Longrightarrow>
     sys_step cfg s (s\<lparr>sys_co := snd (stop_launcher_pipeline (entry_launcherId e) (entry_launcherEndpoint e) now (sys_co s)),
                      sys_reaping := insert (m, pipelineId e) (sys_reaping s)\<rparr>)"
| reap_done:
    "(m, p) \<in> sys_reaping s \<Longrightarrow>
     sys_step cfg s (s\<lparr>sys_co := (sys_co s)\<lparr>co_tracker := remove_entry m p (co_tracker (sys_co s))\<rparr>,
                      sys_reaping := sys_reaping s - {(m, p)}\<rparr>)"
| forward_failed:
    "nid \<noteq> [] \<Longrightarrow> sys_step cfg s (s\<lparr>sys_co := mark_driver_failed m nid (sys_co s)\<rparr>)"
| routed:
    "sys_step cfg s (s\<lparr>sys_co := snd (route_from_pool m now (sys_co s))\<rparr>)"
| registries_changed:
    "co_tracker st = co_tracker (sys_co s) \<Longrightarrow> sys_step cfg s (s\<lparr>sys_co := st\<rparr>)"

inductive sys_reachable :: "config \<Rightarrow> system \<Rightarrow> bool" for cfg :: config where
  start: "sys_reachable cfg (initial_system st)"
| step: "sys_reachable cfg s \<Longrightarrow> sys_step cfg s s' \<Longrightarrow> sys_reachable cfg s'"

subsection \<open>The pool as a set of entries\<close>

type_synonym entries = "(string \<times> pooled_pipeline) set"

definition ents :: "pipeline_tracker \<Rightarrow> entries" where
  "ents t = {(m, e). e \<in> set (get_pool t m)}"

abbreviation pools_distinct :: "pipeline_tracker \<Rightarrow> bool" where
  "pools_distinct t \<equiv> \<forall>m. ids_distinct (get_pool t m)"

definition revise :: "(string \<Rightarrow> pooled_pipeline \<Rightarrow> bool) \<Rightarrow> (pooled_pipeline \<Rightarrow> pooled_pipeline) \<Rightarrow> entries \<Rightarrow> entries" where
  "revise P f E = (\<lambda>(m, e). (m, if P m e then f e else e)) ` E"

lemma in_revise: "(m, e') \<in> revise P f E \<longleftrightarrow> (\<exists>e. (m, e) \<in> E \<and> e' = (if P m e then f e else e))"
  by (force simp: revise_def)

named_theorems ents_simps \<open>the entries after an operation\<close>

lemma ents_new [ents_simps]: "ents new_pipeline_tracker = {}"
  by (simp add: ents_def)

lemma ents_add [ents_simps]: "ents (add_entry m e t) = insert (m, e) (ents t)"
  by (auto simp: ents_def pool_simps split: if_splits)

lemma ents_remove [ents_simps]:
  "pools_distinct t \<Longrightarrow> ents (remove_entry m p t) = {(m', e) \<in> ents t. \<not> (m' = m \<and> pipelineId e = p)}"
  by (auto simp: ents_def pool_simps remove_first_distinct split: if_splits)

lemma ents_revise:
  assumes "\<And>m'. get_pool t' m' = map (\<lambda>e. if P m' e then f e else e) (get_pool t m')"
  shows "ents t' = revise P f (ents t)"
proof (rule set_eqI)
  fix x :: "string \<times> pooled_pipeline"
  obtain m' e' where x: "x = (m', e')" by (cases x)
  have "x \<in> ents t' \<longleftrightarrow> (\<exists>e \<in> set (get_pool t m'). e' = (if P m' e then f e else e))"
    unfolding x ents_def by (simp only: assms mem_Collect_eq case_prod_conv set_map image_iff)
  then show "x \<in> ents t' \<longleftrightarrow> x \<in> revise P f (ents t)"
    unfolding x in_revise by (auto simp: ents_def)
qed

lemma ents_mark [ents_simps]:
  "pools_distinct t \<Longrightarrow> ents (mark_entry_failed m p t) =
     revise (\<lambda>m' e. m' = m \<and> pipelineId e = p) (\<lambda>e. e\<lparr>entry_state := Failed\<rparr>) (ents t)"
  by (rule ents_revise) (simp add: pool_simps update_first_distinct)

lemma ents_touch [ents_simps]:
  "pools_distinct t \<Longrightarrow> ents (touch_entry m p now t) =
     revise (\<lambda>m' e. m' = m \<and> pipelineId e = p) (\<lambda>e. e\<lparr>lastUsedAt := now\<rparr>) (ents t)"
  by (rule ents_revise) (simp add: pool_simps update_first_distinct)

lemma ents_mark_driver [ents_simps]:
  assumes "pools_distinct (co_tracker st)"
  shows "ents (co_tracker (mark_driver_failed m nid st)) =
     revise (\<lambda>m' e. m' = m \<and> driverNodeId e = nid) (\<lambda>e. e\<lparr>entry_state := Failed\<rparr>) (ents (co_tracker st))"
proof (rule ents_revise)
  fix m'
  show "get_pool (co_tracker (mark_driver_failed m nid st)) m' =
      map (\<lambda>e. if m' = m \<and> driverNodeId e = nid then e\<lparr>entry_state := Failed\<rparr> else e) (get_pool (co_tracker st) m')"
  proof (cases "m' = m")
    case True
    with assms show ?thesis by (simp add: mark_driver_failed_pool)
  next
    case False
    then show ?thesis by (simp add: mark_driver_failed_def mark_loop_other)
  qed
qed

lemma pools_distinct_add:
  assumes "pools_distinct t" and "\<forall>(m', e') \<in> ents t. pipelineId e' \<noteq> pipelineId e"
  shows "pools_distinct (add_entry m e t)"
proof
  fix m'
  have "pipelineId e \<notin> pipelineId ` set (get_pool t m)"
    using assms(2) by (fastforce simp: ents_def)
  then show "ids_distinct (get_pool (add_entry m e t) m')" using assms(1) by (simp add: pool_simps)
qed

lemma pools_distinct_remove: "pools_distinct t \<Longrightarrow> pools_distinct (remove_entry m p t)"
  by (auto simp: pool_simps remove_first_distinct distinct_map_filter)

lemma pools_distinct_mark: "pools_distinct t \<Longrightarrow> pools_distinct (mark_entry_failed m p t)"
  by (simp add: pool_simps map_update_first)

lemma pools_distinct_touch: "pools_distinct t \<Longrightarrow> pools_distinct (touch_entry m p now t)"
  by (simp add: pool_simps map_update_first)

lemma pools_distinct_mark_driver:
  "pools_distinct (co_tracker st) \<Longrightarrow> pools_distinct (co_tracker (mark_driver_failed m nid st))"
proof -
  have "pools_distinct t \<Longrightarrow> pools_distinct (mark_loop m nid es t)" for es t
    by (induction m nid es t rule: mark_loop.induct) (simp add: pools_distinct_mark)+
  then show "pools_distinct (co_tracker st) \<Longrightarrow> ?thesis" by (simp add: mark_driver_failed_def)
qed

subsection \<open>The invariant\<close>

definition ids_ok :: "config \<Rightarrow> entries \<Rightarrow> string set \<Rightarrow> bool" where
  "ids_ok cfg E U \<longleftrightarrow>
     (\<forall>m e m' e'. (m, e) \<in> E \<longrightarrow> (m', e') \<in> E \<longrightarrow> pipelineId e = pipelineId e' \<longrightarrow> m = m' \<and> e = e') \<and>
     (\<forall>m e. (m, e) \<in> E \<longrightarrow> pipelineId e \<in> U \<and> m \<in> set (multi_pipeline_model_ids (cfg_catalog cfg)))"

text \<open>An assembling entry has no driver yet.\<close>

definition drivers_ok :: "entries \<Rightarrow> bool" where
  "drivers_ok E \<longleftrightarrow> (\<forall>m e. (m, e) \<in> E \<longrightarrow> entry_state e = Assembling \<longrightarrow> driverNodeId e = [])"

text \<open>The reservation of an open assembly is in the pool, with the launcher's two names.\<close>

definition holds_reservation :: "entries \<Rightarrow> string \<Rightarrow> string \<Rightarrow> launcher_info \<Rightarrow> bool" where
  "holds_reservation E m r l \<longleftrightarrow>
     (\<exists>e. (m, e) \<in> E \<and> pipelineId e = r \<and> entry_state e = Assembling \<and>
        entry_launcherId e = launcherId l \<and> entry_launcherEndpoint e = Some (launcher_endpoint l))"

text \<open>What a procedure that keeps an entry's id across an \<open>await\<close> may assume of it afterwards.\<close>

definition committed :: "entries \<Rightarrow> string set \<Rightarrow> string \<Rightarrow> string \<Rightarrow> bool" where
  "committed E U m p \<longleftrightarrow> p \<in> U \<and> (\<forall>m' e. (m', e) \<in> E \<longrightarrow> pipelineId e = p \<longrightarrow> m' = m \<and> entry_state e \<noteq> Assembling)"

definition pool_ok :: "entries \<Rightarrow> (string \<rightharpoonup> assembly) \<Rightarrow> bool" where
  "pool_ok E P \<longleftrightarrow>
     (\<forall>r a. P r = Some a \<longrightarrow> asm_reservation a = r \<and> holds_reservation E (asm_model a) r (asm_launcher a))"

definition cold_ok ::
  "entries \<Rightarrow> (string \<rightharpoonup> assembly) \<Rightarrow> (string \<rightharpoonup> cold_assembly \<times> string option) \<Rightarrow> string set \<Rightarrow> bool" where
  "cold_ok E P K U \<longleftrightarrow>
     (\<forall>m a ph. K m = Some (a, ph) \<longrightarrow>
        asm_model a = m \<and> holds_reservation E m (asm_reservation a) (asm_launcher a) \<and>
        P (asm_reservation a) = None \<and>
        (\<forall>t. asm_tracked a = Some t \<longrightarrow> committed E U m (pipelineId t)))"

definition reaping_ok :: "entries \<Rightarrow> (string \<times> string) set \<Rightarrow> string set \<Rightarrow> bool" where
  "reaping_ok E R U \<longleftrightarrow> (\<forall>m p. (m, p) \<in> R \<longrightarrow> committed E U m p)"

definition replaced_by :: "(string \<rightharpoonup> cold_assembly \<times> string option) \<Rightarrow> string \<Rightarrow> string \<Rightarrow> string \<Rightarrow> bool" where
  "replaced_by K m p q \<longleftrightarrow>
     (\<exists>a ph t. K m = Some (a, ph) \<and> asm_tracked a = Some t \<and> p = pipelineId t \<and> q = asm_reservation a)"

definition exclusive :: "entries \<Rightarrow> (string \<rightharpoonup> cold_assembly \<times> string option) \<Rightarrow> bool" where
  "exclusive E K \<longleftrightarrow>
     (\<forall>m e m' e'. (m, e) \<in> E \<longrightarrow> (m', e') \<in> E \<longrightarrow> pipelineId e \<noteq> pipelineId e' \<longrightarrow>
        entry_keys e \<inter> entry_keys e' \<noteq> {} \<longrightarrow>
        m = m' \<and> (replaced_by K m (pipelineId e) (pipelineId e') \<or> replaced_by K m (pipelineId e') (pipelineId e)))"

definition entries_inv ::
  "config \<Rightarrow> entries \<Rightarrow> (string \<rightharpoonup> assembly) \<Rightarrow> (string \<rightharpoonup> cold_assembly \<times> string option) \<Rightarrow>
   (string \<times> string) set \<Rightarrow> string set \<Rightarrow> bool" where
  "entries_inv cfg E P K R U \<longleftrightarrow>
     ids_ok cfg E U \<and> drivers_ok E \<and> pool_ok E P \<and> cold_ok E P K U \<and> reaping_ok E R U \<and> exclusive E K"

definition system_inv :: "config \<Rightarrow> system \<Rightarrow> bool" where
  "system_inv cfg s \<longleftrightarrow>
     pools_distinct (co_tracker (sys_co s)) \<and>
     entries_inv cfg (ents (co_tracker (sys_co s))) (sys_pool s) (sys_cold s) (sys_reaping s) (sys_used s)"

lemmas inv_defs = ids_ok_def drivers_ok_def holds_reservation_def committed_def pool_ok_def cold_ok_def
  reaping_ok_def replaced_by_def exclusive_def

subsection \<open>Removing an entry\<close>

definition without :: "string \<Rightarrow> entries \<Rightarrow> entries" where
  "without p E = {(m, e) \<in> E. pipelineId e \<noteq> p}"

lemma in_without [simp]: "(m, e) \<in> without p E \<longleftrightarrow> (m, e) \<in> E \<and> pipelineId e \<noteq> p"
  by (simp add: without_def)

lemma committed_remove:
  assumes "committed E U m p"
  shows "{(m', e) \<in> E. \<not> (m' = m \<and> pipelineId e = p)} = without p E"
  using assms by (auto simp: committed_def without_def)

lemma reservation_remove:
  assumes "ids_ok cfg E U" and "holds_reservation E m p l"
  shows "{(m', e) \<in> E. \<not> (m' = m \<and> pipelineId e = p)} = without p E"
  using assms unfolding ids_ok_def holds_reservation_def without_def by fast

lemma ids_ok_without: "ids_ok cfg E U \<Longrightarrow> ids_ok cfg (without p E) U"
  unfolding ids_ok_def in_without by blast

lemma drivers_ok_without: "drivers_ok E \<Longrightarrow> drivers_ok (without p E)"
  unfolding drivers_ok_def in_without by blast

lemma committed_without: "committed E U m q \<Longrightarrow> committed (without p E) U m q"
  unfolding committed_def in_without by blast

lemma holds_reservation_without:
  "holds_reservation E m r l \<Longrightarrow> r \<noteq> p \<Longrightarrow> holds_reservation (without p E) m r l"
  unfolding holds_reservation_def by auto

lemma exclusive_without: "exclusive E K \<Longrightarrow> exclusive (without p E) K"
  unfolding exclusive_def in_without by blast

lemma committed_not_reserved:
  "committed E U m p \<Longrightarrow> holds_reservation E m' p l \<Longrightarrow> False"
  unfolding committed_def holds_reservation_def by blast

text \<open>A committed entry may go at any time: teardown, and replacement by a cold start.\<close>

lemma entries_inv_without_committed:
  assumes inv: "entries_inv cfg E P K R U" and c: "committed E U m p"
  shows "entries_inv cfg (without p E) P K R U"
proof -
  have res: "holds_reservation E m' r l \<Longrightarrow> holds_reservation (without p E) m' r l" for m' r l
    using committed_not_reserved [OF c] holds_reservation_without by metis
  show ?thesis
    using inv res unfolding entries_inv_def pool_ok_def cold_ok_def reaping_ok_def
    by (simp add: ids_ok_without drivers_ok_without exclusive_without committed_without)
qed

subsection \<open>Answers to an assembly: the reservation goes\<close>

lemma entries_inv_drop_pool:
  assumes inv: "entries_inv cfg E P K R U" and a: "P r = Some a"
  shows "entries_inv cfg (without r E) (P(r := None)) K R U"
proof -
  have "pool_ok (without r E) (P(r := None))"
    using inv by (auto simp: entries_inv_def pool_ok_def holds_reservation_without)
  moreover have "cold_ok (without r E) (P(r := None)) K U"
    unfolding cold_ok_def
  proof (intro allI impI)
    fix m b ph assume b: "K m = Some (b, ph)"
    then have *: "asm_model b = m" "holds_reservation E m (asm_reservation b) (asm_launcher b)"
      "P (asm_reservation b) = None" "\<forall>t. asm_tracked b = Some t \<longrightarrow> committed E U m (pipelineId t)"
      using inv by (auto simp: entries_inv_def cold_ok_def)
    then have "asm_reservation b \<noteq> r" using a by auto
    with * show "asm_model b = m \<and> holds_reservation (without r E) m (asm_reservation b) (asm_launcher b) \<and>
        (P(r := None)) (asm_reservation b) = None \<and>
        (\<forall>t. asm_tracked b = Some t \<longrightarrow> committed (without r E) U m (pipelineId t))"
      by (simp add: holds_reservation_without committed_without)
  qed
  ultimately show ?thesis using inv
    by (simp add: entries_inv_def ids_ok_without drivers_ok_without exclusive_without reaping_ok_def committed_without)
qed

lemma cold_facts:
  assumes "entries_inv cfg E P K R U" and "K m = Some (a, ph)"
  shows "asm_model a = m" and "holds_reservation E m (asm_reservation a) (asm_launcher a)"
    and "P (asm_reservation a) = None"
    and "asm_tracked a = Some t \<Longrightarrow> committed E U m (pipelineId t)"
  using assms by (auto simp: entries_inv_def cold_ok_def)

lemma pool_facts:
  assumes "entries_inv cfg E P K R U" and "P r = Some a"
  shows "asm_reservation a = r" and "holds_reservation E (asm_model a) r (asm_launcher a)"
  using assms by (auto simp: entries_inv_def pool_ok_def)

lemma reservation_in_multi:
  assumes "entries_inv cfg E P K R U" and "holds_reservation E m r l"
  shows "m \<in> set (multi_pipeline_model_ids (cfg_catalog cfg))" and "r \<in> U"
  using assms by (auto simp: entries_inv_def ids_ok_def holds_reservation_def)

lemma cold_reservations_differ:
  assumes inv: "entries_inv cfg E P K R U" and a: "K m = Some (a, ph)" and b: "K m' = Some (b, ph')"
    and "m \<noteq> m'"
  shows "asm_reservation a \<noteq> asm_reservation b"
proof
  assume "asm_reservation a = asm_reservation b"
  with cold_facts(2) [OF inv a] cold_facts(2) [OF inv b] have
    "\<exists>e e'. (m, e) \<in> E \<and> (m', e') \<in> E \<and> pipelineId e = pipelineId e'"
    unfolding holds_reservation_def by metis
  then show False using inv \<open>m \<noteq> m'\<close> unfolding entries_inv_def ids_ok_def by blast
qed

lemma entries_inv_drop_cold:
  assumes inv: "entries_inv cfg E P K R U" and a: "K m = Some (a, ph)"
  shows "entries_inv cfg (without (asm_reservation a) E) P (K(m := None)) R U"
proof -
  let ?r = "asm_reservation a"
  have "P ?r = None" by (rule cold_facts(3) [OF inv a])
  then have "pool_ok (without ?r E) P"
    using inv by (auto simp: entries_inv_def pool_ok_def intro: holds_reservation_without)
  moreover have "cold_ok (without ?r E) P (K(m := None)) U"
    unfolding cold_ok_def
  proof (intro allI impI)
    fix m' b ph' assume "(K(m := None)) m' = Some (b, ph')"
    then have b: "K m' = Some (b, ph')" and ne: "m \<noteq> m'" by (auto split: if_splits)
    show "asm_model b = m' \<and> holds_reservation (without ?r E) m' (asm_reservation b) (asm_launcher b) \<and>
        P (asm_reservation b) = None \<and>
        (\<forall>t. asm_tracked b = Some t \<longrightarrow> committed (without ?r E) U m' (pipelineId t))"
      using cold_facts [OF inv b] cold_reservations_differ [OF inv a b ne]
      by (simp add: holds_reservation_without committed_without)
  qed
  moreover have "exclusive (without ?r E) (K(m := None))"
  proof -
    have "replaced_by (K(m := None)) m' p q" if "replaced_by K m' p q" and "q \<noteq> ?r" for m' p q
      using that a by (auto simp: replaced_by_def)
    then show ?thesis using inv unfolding entries_inv_def exclusive_def in_without by metis
  qed
  ultimately show ?thesis using inv
    by (simp add: entries_inv_def ids_ok_without drivers_ok_without reaping_ok_def committed_without)
qed

text \<open>Nothing else in the pool has a name of the launcher of an open assembly.\<close>

lemma reservation_keys:
  "entry_launcherId e = launcherId l \<Longrightarrow> entry_launcherEndpoint e = Some (launcher_endpoint l) \<Longrightarrow>
   entry_keys e = insert (launcherId l) ({launcher_endpoint l} - {[]})"
  by (simp add: entry_keys_def)

definition names_of :: "launcher_info \<Rightarrow> string set" where
  "names_of l = insert (launcherId l) ({launcher_endpoint l} - {[]})"

lemma names_of_reservation [simp]: "entry_keys (reservation_entry r l now) = names_of l"
  by (simp add: entry_keys_def names_of_def reservation_entry_def)

lemma names_of_warm [simp]: "entry_keys (warm_entry p d a now) = names_of (asm_launcher a)"
  by (simp add: entry_keys_def names_of_def warm_entry_def)

lemma names_claimed: "names_of l \<subseteq> claim_keys l"
  by (auto simp: names_of_def claim_keys_def)

lemma held_keys:
  assumes "exclusive E K" and "holds_reservation E m r l" and "(m', e) \<in> E" and "pipelineId e \<noteq> r"
    and "names_of l \<inter> entry_keys e \<noteq> {}"
  shows "m' = m \<and> (replaced_by K m (pipelineId e) r \<or> replaced_by K m r (pipelineId e))"
proof -
  obtain e0 where "(m, e0) \<in> E" "pipelineId e0 = r" "entry_keys e0 = names_of l"
    using assms(2) unfolding holds_reservation_def names_of_def by (metis reservation_keys)
  with assms show ?thesis unfolding exclusive_def by (metis inf_commute)
qed

lemma free_keys_pool:
  assumes inv: "entries_inv cfg E P K R U" and a: "P r = Some a"
    and e: "(m', e) \<in> E" "pipelineId e \<noteq> r"
  shows "names_of (asm_launcher a) \<inter> entry_keys e = {}"
proof (rule ccontr)
  assume "names_of (asm_launcher a) \<inter> entry_keys e \<noteq> {}"
  with held_keys [OF _ pool_facts(2) [OF inv a] e] inv
  have "replaced_by K (asm_model a) (pipelineId e) r \<or> replaced_by K (asm_model a) r (pipelineId e)"
    by (simp add: entries_inv_def)
  then show False
  proof
    assume "replaced_by K (asm_model a) (pipelineId e) r"
    then obtain b ph where "K (asm_model a) = Some (b, ph)" "r = asm_reservation b"
      by (auto simp: replaced_by_def)
    with cold_facts(3) [OF inv this(1)] a show False by simp
  next
    assume "replaced_by K (asm_model a) r (pipelineId e)"
    then obtain b ph t where "K (asm_model a) = Some (b, ph)" "asm_tracked b = Some t" "r = pipelineId t"
      by (auto simp: replaced_by_def)
    with cold_facts(4) [OF inv this(1,2)] committed_not_reserved [OF _ pool_facts(2) [OF inv a]]
    show False by simp
  qed
qed

lemma free_keys_cold:
  assumes inv: "entries_inv cfg E P K R U" and a: "K m = Some (a, ph)"
    and e: "(m', e) \<in> E" "pipelineId e \<noteq> asm_reservation a"
    and t: "\<And>t. asm_tracked a = Some t \<Longrightarrow> pipelineId e \<noteq> pipelineId t"
  shows "names_of (asm_launcher a) \<inter> entry_keys e = {}"
proof (rule ccontr)
  assume "names_of (asm_launcher a) \<inter> entry_keys e \<noteq> {}"
  with held_keys [OF _ cold_facts(2) [OF inv a] e] inv
  have "replaced_by K m (pipelineId e) (asm_reservation a) \<or> replaced_by K m (asm_reservation a) (pipelineId e)"
    by (simp add: entries_inv_def)
  then show False
  proof
    assume "replaced_by K m (pipelineId e) (asm_reservation a)"
    with a t show False by (auto simp: replaced_by_def)
  next
    assume "replaced_by K m (asm_reservation a) (pipelineId e)"
    with a obtain t' where "asm_tracked a = Some t'" "asm_reservation a = pipelineId t'"
      by (auto simp: replaced_by_def)
    with cold_facts(4) [OF inv a this(1)] committed_not_reserved [OF _ cold_facts(2) [OF inv a]]
    show False by simp
  qed
qed

end
