(* ===== verification/Launcher_Exclusivity.thy ===== *)
theory Launcher_Exclusivity
  imports Interleaving
begin

text \<open>
  The invariant \<open>system_inv\<close> of the theory Interleaving is kept by every step, so it holds of every
  reachable state of the coordinator: no interleaving of the pool manager, the cold starts, the
  teardowns and the request path lets two pipelines of the pool claim one launcher. First what
  each change of the pool does to the invariant, then what each code segment does to the pool.
\<close>

subsection \<open>Adding an entry\<close>

lemma ids_ok_insert:
  assumes "ids_ok cfg E U" and "pipelineId e \<notin> U" and "m \<in> set (multi_pipeline_model_ids (cfg_catalog cfg))"
  shows "ids_ok cfg (insert (m, e) E) (insert (pipelineId e) U)"
  using assms unfolding ids_ok_def by (metis insert_iff prod.inject)

lemma drivers_ok_insert:
  "drivers_ok E \<Longrightarrow> (entry_state e = Assembling \<Longrightarrow> driverNodeId e = []) \<Longrightarrow> drivers_ok (insert (m, e) E)"
  unfolding drivers_ok_def by blast

lemma committed_insert:
  "committed E U m p \<Longrightarrow> pipelineId e \<notin> U \<Longrightarrow> committed (insert (m', e) E) (insert (pipelineId e) U) m p"
  unfolding committed_def by auto

lemma holds_reservation_insert: "holds_reservation E m r l \<Longrightarrow> holds_reservation (insert x E) m r l"
  unfolding holds_reservation_def by blast

lemma pool_ok_insert: "pool_ok E P \<Longrightarrow> pool_ok (insert x E) P"
  unfolding pool_ok_def using holds_reservation_insert by blast

lemma cold_ok_insert:
  "cold_ok E P K U \<Longrightarrow> pipelineId e \<notin> U \<Longrightarrow> cold_ok (insert (m', e) E) P K (insert (pipelineId e) U)"
  unfolding cold_ok_def using holds_reservation_insert committed_insert by blast

lemma reaping_ok_insert:
  "reaping_ok E R U \<Longrightarrow> pipelineId e \<notin> U \<Longrightarrow> reaping_ok (insert (m', e) E) R (insert (pipelineId e) U)"
  unfolding reaping_ok_def using committed_insert by blast

lemma exclusive_insert:
  assumes "exclusive E K"
    and "\<And>m' e'. (m', e') \<in> E \<Longrightarrow> entry_keys e \<inter> entry_keys e' = {}"
  shows "exclusive (insert (m, e) E) K"
proof -
  have "entry_keys e' \<inter> entry_keys e = {}" if "(m', e') \<in> E" for m' e'
    using assms(2) [OF that] by (simp add: inf_commute)
  then show ?thesis using assms unfolding exclusive_def by (metis insert_iff prod.inject)
qed

lemma entries_inv_add_committed:
  assumes inv: "entries_inv cfg E P K R U" and fresh: "pipelineId e \<notin> U"
    and m: "m \<in> set (multi_pipeline_model_ids (cfg_catalog cfg))"
    and state: "entry_state e \<noteq> Assembling"
    and keys: "\<And>m' e'. (m', e') \<in> E \<Longrightarrow> entry_keys e \<inter> entry_keys e' = {}"
  shows "entries_inv cfg (insert (m, e) E) P K R (insert (pipelineId e) U)"
proof -
  have "drivers_ok (insert (m, e) E)"
    using inv state by (intro drivers_ok_insert) (simp_all add: entries_inv_def)
  moreover have "exclusive (insert (m, e) E) K"
    using inv by (simp add: entries_inv_def exclusive_insert [OF _ keys])
  ultimately show ?thesis
    using inv fresh m
    by (simp add: entries_inv_def ids_ok_insert pool_ok_insert cold_ok_insert reaping_ok_insert)
qed

lemma cold_reservation_used:
  assumes "entries_inv cfg E P K R U" and "K m = Some (b, ph)"
  shows "asm_reservation b \<in> U"
  using reservation_in_multi(2) [OF assms(1) cold_facts(2) [OF assms]] .

lemma entries_inv_add_pool:
  assumes inv: "entries_inv cfg E P K R U" and fresh: "u \<notin> U"
    and m: "asm_model a \<in> set (multi_pipeline_model_ids (cfg_catalog cfg))"
    and a: "asm_reservation a = u"
    and keys: "\<And>m' e'. (m', e') \<in> E \<Longrightarrow> names_of (asm_launcher a) \<inter> entry_keys e' = {}"
  shows "entries_inv cfg (insert (asm_model a, reservation_entry u (asm_launcher a) now) E) (P(u \<mapsto> a)) K R (insert u U)"
proof -
  let ?e = "reservation_entry u (asm_launcher a) now"
  have e: "pipelineId ?e = u" "entry_state ?e = Assembling" "driverNodeId ?e = []"
    "entry_launcherId ?e = launcherId (asm_launcher a)"
    "entry_launcherEndpoint ?e = Some (launcher_endpoint (asm_launcher a))"
    by (simp_all add: reservation_entry_def)
  have held: "holds_reservation (insert (asm_model a, ?e) E) (asm_model a) u (asm_launcher a)"
    unfolding holds_reservation_def using e by blast
  have "pool_ok (insert (asm_model a, ?e) E) P" using inv by (simp add: entries_inv_def pool_ok_insert)
  then have "pool_ok (insert (asm_model a, ?e) E) (P(u \<mapsto> a))"
    using a held by (simp add: pool_ok_def)
  moreover have "cold_ok (insert (asm_model a, ?e) E) (P(u \<mapsto> a)) K (insert u U)"
    unfolding cold_ok_def
  proof (intro allI impI)
    fix m' b ph assume b: "K m' = Some (b, ph)"
    then have "asm_reservation b \<noteq> u" using cold_reservation_used [OF inv] fresh by blast
    with cold_facts [OF inv b] fresh e(1)
    show "asm_model b = m' \<and> holds_reservation (insert (asm_model a, ?e) E) m' (asm_reservation b) (asm_launcher b) \<and>
        (P(u \<mapsto> a)) (asm_reservation b) = None \<and>
        (\<forall>t. asm_tracked b = Some t \<longrightarrow> committed (insert (asm_model a, ?e) E) (insert u U) m' (pipelineId t))"
      using committed_insert [of E U _ _ ?e] by (simp add: holds_reservation_insert)
  qed
  ultimately show ?thesis
    using inv fresh m e ids_ok_insert [of cfg E U ?e] reaping_ok_insert [of E R U ?e]
      exclusive_insert [of E K ?e, OF _ keys [folded names_of_reservation [of u _ now]]]
    by (simp add: entries_inv_def drivers_ok_insert)
qed

lemma entries_inv_add_cold:
  assumes inv: "entries_inv cfg E P K R U" and fresh: "u \<notin> U" and none: "K m = None"
    and m: "m \<in> set (multi_pipeline_model_ids (cfg_catalog cfg))"
    and a: "asm_reservation a = u" "asm_model a = m"
    and tracked: "\<And>t. asm_tracked a = Some t \<Longrightarrow> (m, t) \<in> E \<and> entry_state t \<noteq> Assembling"
    and keys: "\<And>m' e'. (m', e') \<in> E \<Longrightarrow> asm_tracked a \<noteq> Some e' \<Longrightarrow>
                 names_of (asm_launcher a) \<inter> entry_keys e' = {}"
  shows "entries_inv cfg (insert (m, reservation_entry u (asm_launcher a) now) E) P (K(m \<mapsto> (a, None))) R (insert u U)"
proof -
  let ?e = "reservation_entry u (asm_launcher a) now"
  let ?K = "K(m \<mapsto> (a, None))" and ?E = "insert (m, ?e) E" and ?U = "insert u U"
  have e: "pipelineId ?e = u" "entry_state ?e = Assembling" "driverNodeId ?e = []"
    "entry_launcherId ?e = launcherId (asm_launcher a)"
    "entry_launcherEndpoint ?e = Some (launcher_endpoint (asm_launcher a))"
    by (simp_all add: reservation_entry_def)
  have held: "holds_reservation ?E m u (asm_launcher a)"
    unfolding holds_reservation_def using e by blast
  have ids: "ids_ok cfg E U" using inv by (simp add: entries_inv_def)
  have comm: "committed E U m (pipelineId t)" if "asm_tracked a = Some t" for t
    using tracked [OF that] ids unfolding committed_def ids_ok_def by metis
  have unused: "P u = None"
    using fresh inv reservation_in_multi(2) [OF inv pool_facts(2) [OF inv]] by fastforce
  have "cold_ok ?E P K ?U"
    using inv fresh e(1) cold_ok_insert [of E P K U ?e m] by (simp add: entries_inv_def)
  then have "cold_ok ?E P ?K ?U"
    using a held unused comm fresh e(1) committed_insert [of E U m _ ?e]
    by (simp add: cold_ok_def)
  moreover have "exclusive ?E ?K"
  proof -
    have mono: "replaced_by ?K m' p q" if "replaced_by K m' p q" for m' p q
      using that none by (auto simp: replaced_by_def)
    have new: "m' = m \<and> replaced_by ?K m (pipelineId e') u"
      if "(m', e') \<in> E" "names_of (asm_launcher a) \<inter> entry_keys e' \<noteq> {}" for m' e'
    proof -
      have t: "asm_tracked a = Some e'" using that keys by blast
      then have "(m, e') \<in> E" using tracked by blast
      then have "m' = m" using that(1) ids unfolding ids_ok_def by blast
      then show ?thesis using t a by (simp add: replaced_by_def)
    qed
    show ?thesis
      unfolding exclusive_def
    proof (intro allI impI)
      fix m1 e1 m2 e2
      assume *: "(m1, e1) \<in> ?E" "(m2, e2) \<in> ?E" "pipelineId e1 \<noteq> pipelineId e2"
        "entry_keys e1 \<inter> entry_keys e2 \<noteq> {}"
      consider "(m1, e1) \<in> E" "(m2, e2) \<in> E" | "m1 = m" "e1 = ?e" "(m2, e2) \<in> E" | "m2 = m" "e2 = ?e" "(m1, e1) \<in> E"
        using *(1-3) by auto
      then show "m1 = m2 \<and> (replaced_by ?K m1 (pipelineId e1) (pipelineId e2) \<or>
          replaced_by ?K m1 (pipelineId e2) (pipelineId e1))"
      proof cases
        case 1
        then have "m1 = m2 \<and> (replaced_by K m1 (pipelineId e1) (pipelineId e2) \<or>
          replaced_by K m1 (pipelineId e2) (pipelineId e1))"
          using inv *(3,4) unfolding entries_inv_def exclusive_def by blast
        then show ?thesis using mono by blast
      next
        case 2
        with new [of m2 e2] *(4) e(1) show ?thesis by simp
      next
        case 3
        with new [of m1 e1] *(4) e(1) show ?thesis by (simp add: inf_commute)
      qed
    qed
  qed
  ultimately show ?thesis
    using inv fresh m e ids_ok_insert [of cfg E U ?e] reaping_ok_insert [of E R U ?e]
    by (simp add: entries_inv_def drivers_ok_insert pool_ok_insert)
qed

subsection \<open>Changes that keep the entries' names\<close>

lemma entries_inv_phase:
  assumes inv: "entries_inv cfg E P K R U" and a: "K m = Some (a, ph)"
  shows "entries_inv cfg E P (K(m \<mapsto> (a, ph'))) R U"
proof -
  have "replaced_by (K(m \<mapsto> (a, ph'))) = replaced_by K"
    using a by (auto simp: replaced_by_def fun_eq_iff)
  moreover have "cold_ok E P (K(m \<mapsto> (a, ph'))) U"
    using inv a by (auto simp: entries_inv_def cold_ok_def)
  ultimately show ?thesis using inv by (simp add: entries_inv_def exclusive_def)
qed

lemma entries_inv_reap:
  "entries_inv cfg E P K R U \<Longrightarrow> committed E U m p \<Longrightarrow> entries_inv cfg E P K (insert (m, p) R) U"
  by (auto simp: entries_inv_def reaping_ok_def)

lemma entries_inv_reaped: "entries_inv cfg E P K R U \<Longrightarrow> entries_inv cfg E P K (R - X) U"
  by (auto simp: entries_inv_def reaping_ok_def)

text \<open>A change of the fields that are not names, in entries that are not reservations.\<close>

lemma entries_inv_revise:
  assumes inv: "entries_inv cfg E P K R U"
    and same: "\<And>e. pipelineId (f e) = pipelineId e" "\<And>e. entry_keys (f e) = entry_keys e"
    and comm: "\<And>m e. (m, e) \<in> E \<Longrightarrow> Q m e \<Longrightarrow> entry_state e \<noteq> Assembling \<and> entry_state (f e) \<noteq> Assembling"
  shows "entries_inv cfg (revise Q f E) P K R U"
proof -
  have old: "\<exists>e0. (m, e0) \<in> E \<and> pipelineId e = pipelineId e0 \<and> entry_keys e = entry_keys e0 \<and>
      (entry_state e = Assembling \<longleftrightarrow> entry_state e0 = Assembling) \<and> (entry_state e = Assembling \<longrightarrow> e = e0)"
    if "(m, e) \<in> revise Q f E" for m e
    using that same comm unfolding in_revise by (metis (full_types))
  have keep: "(m, e) \<in> revise Q f E" if "(m, e) \<in> E" "entry_state e = Assembling" for m e
    using that comm unfolding in_revise by metis
  have res: "holds_reservation (revise Q f E) m r l" if "holds_reservation E m r l" for m r l
    using that keep unfolding holds_reservation_def by metis
  have com: "committed (revise Q f E) U m p" if "committed E U m p" for m p
    using that old unfolding committed_def by metis
  have ids: "ids_ok cfg (revise Q f E) U"
    unfolding ids_ok_def
  proof (intro conjI allI impI)
    fix m e m' e' assume *: "(m, e) \<in> revise Q f E" "(m', e') \<in> revise Q f E" "pipelineId e = pipelineId e'"
    then obtain e0 e0' where 0: "(m, e0) \<in> E" "e = (if Q m e0 then f e0 else e0)"
      "(m', e0') \<in> E" "e' = (if Q m' e0' then f e0' else e0')" unfolding in_revise by blast
    then have "pipelineId e0 = pipelineId e0'" using *(3) same(1) by (auto split: if_splits)
    then have "m = m' \<and> e0 = e0'" using inv 0 unfolding entries_inv_def ids_ok_def by blast
    then show "m = m'" and "e = e'" using 0 by auto
  next
    fix m e assume "(m, e) \<in> revise Q f E"
    then show "pipelineId e \<in> U" "m \<in> set (multi_pipeline_model_ids (cfg_catalog cfg))"
      using old inv unfolding entries_inv_def ids_ok_def by metis+
  qed
  have "drivers_ok (revise Q f E)" using inv old unfolding entries_inv_def drivers_ok_def by metis
  moreover have "exclusive (revise Q f E) K"
    unfolding exclusive_def
  proof (intro allI impI)
    fix m e m' e' assume *: "(m, e) \<in> revise Q f E" "(m', e') \<in> revise Q f E" "pipelineId e \<noteq> pipelineId e'"
      "entry_keys e \<inter> entry_keys e' \<noteq> {}"
    obtain e0 where "(m, e0) \<in> E" "pipelineId e = pipelineId e0" "entry_keys e = entry_keys e0"
      using old [OF *(1)] by blast
    moreover obtain e0' where "(m', e0') \<in> E" "pipelineId e' = pipelineId e0'" "entry_keys e' = entry_keys e0'"
      using old [OF *(2)] by blast
    ultimately show "m = m' \<and> (replaced_by K m (pipelineId e) (pipelineId e') \<or> replaced_by K m (pipelineId e') (pipelineId e))"
      using inv *(3,4) unfolding entries_inv_def exclusive_def by simp
  qed
  ultimately show ?thesis
    using inv ids res com by (simp add: entries_inv_def pool_ok_def cold_ok_def reaping_ok_def)
qed

subsection \<open>What routing does to the pool\<close>

lemma route_from_pool_pool:
  "co_tracker (snd (route_from_pool m now st)) = co_tracker st \<or>
   (\<exists>e. e \<in> set (get_pool (co_tracker st) m) \<and> entry_state e = Warm \<and>
        co_tracker (snd (route_from_pool m now st)) = touch_entry m (pipelineId e) now (co_tracker st))"
proof -
  let ?us = "usable_entries (co_tracker st) m (fst (list_active (Some (co_reputation st)) now (co_nodes st)))"
  show ?thesis
  proof (cases ?us)
    case Nil
    then show ?thesis by (simp add: route_from_pool_def Let_def case_prod_beta)
  next
    case (Cons e es)
    then have "oldest_of e es \<in> set ?us" using oldest_of_mem [of e es] by simp
    then have "oldest_of e es \<in> set (get_pool (co_tracker st) m)" "entry_state (oldest_of e es) = Warm"
      by (simp_all add: usable_entries_def)
    with Cons show ?thesis by (auto simp: route_from_pool_def Let_def case_prod_beta)
  qed
qed

subsection \<open>Every step keeps the invariant\<close>

lemma system_inv_same_pool:
  "system_inv cfg s \<Longrightarrow> co_tracker st = co_tracker (sys_co s) \<Longrightarrow> system_inv cfg (s\<lparr>sys_co := st\<rparr>)"
  by (simp add: system_inv_def)

lemma in_ents: "(m, e) \<in> ents t \<longleftrightarrow> e \<in> set (get_pool t m)"
  by (simp add: ents_def)

lemma entry_committed:
  assumes "ids_ok cfg E U" and "(m, e) \<in> E" and "entry_state e \<noteq> Assembling"
  shows "committed E U m (pipelineId e)"
  using assms unfolding ids_ok_def committed_def by metis

lemma fresh_id:
  assumes "entries_inv cfg (ents t) P K R U" and "u \<notin> U" and "pipelineId e = u" and "pools_distinct t"
  shows "pools_distinct (add_entry m e t)"
proof (rule pools_distinct_add [OF assms(4)])
  have used: "pipelineId e' \<in> U" if "(m', e') \<in> ents t" for m' e'
    using assms(1) that unfolding entries_inv_def ids_ok_def by blast
  show "\<forall>(m', e') \<in> ents t. pipelineId e' \<noteq> pipelineId e" using assms(2,3) by (auto dest: used)
qed

lemma unclaimed_names:
  assumes inv: "entries_inv cfg (ents t) P K R U"
    and free: "\<not> is_launcher_claimed (claimed_launcher_ids (cfg_catalog cfg) t x) l"
    and e: "(m', e') \<in> ents t" "x \<noteq> Some e'"
  shows "names_of l \<inter> entry_keys e' = {}"
proof -
  have "m' \<in> set (multi_pipeline_model_ids (cfg_catalog cfg))"
    using inv e(1) by (auto simp: entries_inv_def ids_ok_def)
  then have "claim_keys l \<inter> entry_keys e' = {}"
    using unclaimed_entry_disjoint [OF free] e by (simp add: in_ents)
  then show ?thesis using names_claimed by blast
qed

lemma step_pool_claim:
  assumes inv: "system_inv cfg s" and m: "m \<in> set (multi_pipeline_model_ids (cfg_catalog cfg))"
    and u: "u \<notin> sys_used s" and run: "try_assemble_begin cfg m l now u rnd k (sys_co s) = (Reserved a, st, k')"
  shows "system_inv cfg (s\<lparr>sys_co := st, sys_pool := (sys_pool s)(u \<mapsto> a), sys_used := insert u (sys_used s)\<rparr>)"
proof -
  note a = try_assemble_begin_Reserved [OF run]
  let ?t = "co_tracker (sys_co s)"
  from inv have d: "pools_distinct ?t"
    and E: "entries_inv cfg (ents ?t) (sys_pool s) (sys_cold s) (sys_reaping s) (sys_used s)"
    by (simp_all add: system_inv_def)
  have "entries_inv cfg (insert (asm_model a, reservation_entry u (asm_launcher a) now) (ents ?t))
      ((sys_pool s)(u \<mapsto> a)) (sys_cold s) (sys_reaping s) (insert u (sys_used s))"
    using a(1-3) m unclaimed_names [OF E a(4)] by (intro entries_inv_add_pool [OF E u]) simp_all
  moreover have "pools_distinct (add_entry m (reservation_entry u l now) ?t)"
    by (rule fresh_id [OF E u _ d]) (simp add: reservation_entry_def)
  ultimately show ?thesis using a by (simp add: system_inv_def ents_add)
qed

lemma step_cold_claim:
  assumes inv: "system_inv cfg s" and none: "sys_cold s m = None"
    and u: "u \<notin> sys_used s" and run: "cold_begin cfg m now u rnd k (sys_co s) = (Reserved a, st, k')"
  shows "system_inv cfg (s\<lparr>sys_co := st, sys_cold := (sys_cold s)(m \<mapsto> (a, None)), sys_used := insert u (sys_used s)\<rparr>)"
proof -
  note a = cold_begin_Reserved [OF run]
  let ?t = "co_tracker (sys_co s)"
  from inv have d: "pools_distinct ?t"
    and E: "entries_inv cfg (ents ?t) (sys_pool s) (sys_cold s) (sys_reaping s) (sys_used s)"
    by (simp_all add: system_inv_def)
  have "(m, t) \<in> ents ?t \<and> entry_state t \<noteq> Assembling" if "asm_tracked a = Some t" for t
    using that a(3,5) by (auto simp: first_entry_def in_ents split: list.splits)
  moreover have "m \<in> set (multi_pipeline_model_ids (cfg_catalog cfg))"
    using a(4) by (rule multi_pipeline_covers)
  ultimately have "entries_inv cfg (insert (m, reservation_entry u (asm_launcher a) now) (ents ?t))
      (sys_pool s) ((sys_cold s)(m \<mapsto> (a, None))) (sys_reaping s) (insert u (sys_used s))"
    using a(1,2) unclaimed_names [OF E a(6)] by (intro entries_inv_add_cold [OF E u none]) simp_all
  moreover have "pools_distinct (add_entry m (reservation_entry u (asm_launcher a) now) ?t)"
    by (rule fresh_id [OF E u _ d]) (simp add: reservation_entry_def)
  ultimately show ?thesis using a by (simp add: system_inv_def ents_add)
qed

lemma pool_failed:
  assumes inv: "system_inv cfg s" and a: "sys_pool s r = Some a"
    and t: "t = remove_entry (asm_model a) (asm_reservation a) (co_tracker (sys_co s))"
  shows "pools_distinct t"
    and "ents t = without r (ents (co_tracker (sys_co s)))"
    and "entries_inv cfg (ents t) ((sys_pool s)(r := None)) (sys_cold s) (sys_reaping s) (sys_used s)"
proof -
  let ?t = "co_tracker (sys_co s)"
  from inv have d: "pools_distinct ?t"
    and E: "entries_inv cfg (ents ?t) (sys_pool s) (sys_cold s) (sys_reaping s) (sys_used s)"
    by (simp_all add: system_inv_def)
  show "pools_distinct t" unfolding t by (rule pools_distinct_remove [OF d])
  have "ids_ok cfg (ents ?t) (sys_used s)" using E by (simp add: entries_inv_def)
  from reservation_remove [OF this pool_facts(2) [OF E a]] show e: "ents t = without r (ents ?t)"
    using d pool_facts(1) [OF E a] by (simp add: t ents_remove)
  show "entries_inv cfg (ents t) ((sys_pool s)(r := None)) (sys_cold s) (sys_reaping s) (sys_used s)"
    unfolding e by (rule entries_inv_drop_pool [OF E a])
qed

lemma step_pool_bad:
  assumes "system_inv cfg s" and "sys_pool s r = Some a"
  shows "system_inv cfg (s\<lparr>sys_co := try_assemble_failed a (sys_co s), sys_pool := (sys_pool s)(r := None)\<rparr>)"
  using pool_failed(1,3) [OF assms refl] by (simp add: system_inv_def try_assemble_failed_def)

lemma entries_inv_more_used:
  "entries_inv cfg E P K R U \<Longrightarrow> entries_inv cfg E P K R (insert u U)"
  by (fastforce simp: entries_inv_def ids_ok_def cold_ok_def reaping_ok_def committed_def)

lemma warm_entry_simps [simp]:
  "pipelineId (warm_entry u nid a now) = u" "entry_state (warm_entry u nid a now) = Warm"
  by (simp_all add: warm_entry_def)

lemma step_pool_ok:
  assumes inv: "system_inv cfg s" and a: "sys_pool s r = Some a" and u: "u \<notin> sys_used s"
    and run: "try_assemble_ok cfg a u now (sys_co s) = (ok, st)"
  shows "system_inv cfg (s\<lparr>sys_co := st, sys_pool := (sys_pool s)(r := None), sys_used := insert u (sys_used s)\<rparr>)"
proof (cases "launcher_driver cfg (asm_launcher a)")
  case None
  with step_pool_bad [OF inv a] run show ?thesis
    by (auto simp: try_assemble_ok_def system_inv_def entries_inv_more_used)
next
  case (Some drv)
  let ?old = "co_tracker (sys_co s)"
  let ?t = "remove_entry (asm_model a) (asm_reservation a) ?old"
  obtain nid st1 where reg: "register_driver cfg drv (asm_model a) now (sys_co s) = (nid, st1)" by force
  then have st1: "co_tracker st1 = ?old" using register_keeps_pool [of cfg drv "asm_model a" now "sys_co s"] by simp
  let ?w = "warm_entry u nid a now"
  have st: "co_tracker st = add_entry (asm_model a) ?w ?t"
    using run Some reg st1 by (auto simp: try_assemble_ok_def)
  note f = pool_failed [OF inv a refl]
  have E0: "entries_inv cfg (ents ?old) (sys_pool s) (sys_cold s) (sys_reaping s) (sys_used s)"
    using inv by (simp add: system_inv_def)
  have "entries_inv cfg (insert (asm_model a, ?w) (ents ?t)) ((sys_pool s)(r := None)) (sys_cold s)
      (sys_reaping s) (insert (pipelineId ?w) (sys_used s))"
  proof (rule entries_inv_add_committed [OF f(3)])
    show "asm_model a \<in> set (multi_pipeline_model_ids (cfg_catalog cfg))"
      by (rule reservation_in_multi(1) [OF E0 pool_facts(2) [OF E0 a]])
    show "entry_keys ?w \<inter> entry_keys e' = {}" if "(m', e') \<in> ents ?t" for m' e'
      using that free_keys_pool [OF E0 a, of m' e'] by (simp add: f(2))
  qed (simp_all add: u)
  moreover have "pools_distinct (add_entry (asm_model a) ?w ?t)"
    by (rule fresh_id [OF f(3) u _ f(1)]) simp
  ultimately show ?thesis by (simp add: system_inv_def st ents_add)
qed

lemma cold_dropped:
  assumes inv: "system_inv cfg s" and a: "sys_cold s m = Some (a, ph)"
    and d: "pools_distinct t"
    and E: "entries_inv cfg (ents t) (sys_pool s) (sys_cold s) (sys_reaping s) (sys_used s)"
  shows "ents (remove_entry (asm_model a) (asm_reservation a) t) = without (asm_reservation a) (ents t)"
    and "pools_distinct (remove_entry (asm_model a) (asm_reservation a) t)"
    and "entries_inv cfg (ents (remove_entry (asm_model a) (asm_reservation a) t)) (sys_pool s)
           ((sys_cold s)(m := None)) (sys_reaping s) (sys_used s)"
proof -
  have "ids_ok cfg (ents t) (sys_used s)" using E by (simp add: entries_inv_def)
  from reservation_remove [OF this cold_facts(2) [OF E a]]
  show e: "ents (remove_entry (asm_model a) (asm_reservation a) t) = without (asm_reservation a) (ents t)"
    using d cold_facts(1) [OF E a] by (simp add: ents_remove)
  show "entries_inv cfg (ents (remove_entry (asm_model a) (asm_reservation a) t)) (sys_pool s)
           ((sys_cold s)(m := None)) (sys_reaping s) (sys_used s)"
    unfolding e by (rule entries_inv_drop_cold [OF E a])
qed (rule pools_distinct_remove [OF d])

lemma entry_keys_failed [simp]: "entry_keys (e\<lparr>entry_state := st\<rparr>) = entry_keys e"
  by (simp add: entry_keys_def)

lemma entry_keys_touched [simp]: "entry_keys (e\<lparr>lastUsedAt := now\<rparr>) = entry_keys e"
  by (simp add: entry_keys_def)

lemma entries_inv_mark:
  assumes "entries_inv cfg E P K R U" and "committed E U m p"
  shows "entries_inv cfg (revise (\<lambda>m' e. m' = m \<and> pipelineId e = p) (\<lambda>e. e\<lparr>entry_state := Failed\<rparr>) E) P K R U"
  using assms(2) by (intro entries_inv_revise [OF assms(1)]) (auto simp: committed_def)

lemma step_cold_bad:
  assumes inv: "system_inv cfg s" and a: "sys_cold s m = Some (a, ph)"
    and st: "co_tracker st = co_tracker (sys_co s)"
  shows "system_inv cfg (s\<lparr>sys_co := cold_failed a st, sys_cold := (sys_cold s)(m := None)\<rparr>)"
proof -
  let ?old = "co_tracker (sys_co s)"
  let ?new = "remove_entry (asm_model a) (asm_reservation a) ?old"
  from inv have d: "pools_distinct ?old"
    and E: "entries_inv cfg (ents ?old) (sys_pool s) (sys_cold s) (sys_reaping s) (sys_used s)"
    by (simp_all add: system_inv_def)
  note f = cold_dropped [OF inv a d E]
  show ?thesis
  proof (cases "asm_tracked a")
    case None
    with f st show ?thesis by (simp add: system_inv_def cold_failed_def)
  next
    case (Some t)
    have "committed (ents ?new) (sys_used s) m (pipelineId t)"
      unfolding f(1) by (rule committed_without [OF cold_facts(4) [OF E a Some]])
    from entries_inv_mark [OF f(3) this]
    have "entries_inv cfg (ents (mark_entry_failed m (pipelineId t) ?new)) (sys_pool s)
        ((sys_cold s)(m := None)) (sys_reaping s) (sys_used s)"
      by (simp add: ents_mark [OF f(2)])
    then show ?thesis
      using Some st pools_distinct_mark [OF f(2)] cold_facts(1) [OF E a]
      by (simp add: system_inv_def cold_failed_def Let_def)
  qed
qed

lemma step_cold_commit:
  assumes inv: "system_inv cfg s" and a: "sys_cold s m = Some (a, ph)" and u: "u \<notin> sys_used s"
    and st: "co_tracker st = co_tracker (sys_co s)"
  shows "system_inv cfg (s\<lparr>sys_co := cold_commit a nid u now st, sys_cold := (sys_cold s)(m := None),
           sys_used := insert u (sys_used s)\<rparr>)"
proof -
  let ?old = "co_tracker (sys_co s)"
  let ?mid = "case asm_tracked a of None \<Rightarrow> ?old | Some e \<Rightarrow> remove_entry m (pipelineId e) ?old"
  let ?w = "warm_entry u nid (assembly.truncate a) now"
  let ?new = "remove_entry m (asm_reservation a) ?mid"
  from inv have d: "pools_distinct ?old"
    and E: "entries_inv cfg (ents ?old) (sys_pool s) (sys_cold s) (sys_reaping s) (sys_used s)"
    by (simp_all add: system_inv_def)
  have am: "asm_model a = m" by (rule cold_facts(1) [OF E a])
  have d': "pools_distinct ?mid" using d pools_distinct_remove by (simp split: option.split)
  have mid: "ents ?mid = {(m', e) \<in> ents ?old. \<forall>t. asm_tracked a = Some t \<longrightarrow> pipelineId e \<noteq> pipelineId t}"
    using committed_remove [OF cold_facts(4) [OF E a]]
    by (auto simp: ents_remove [OF d] without_def split: option.split)
  have E': "entries_inv cfg (ents ?mid) (sys_pool s) (sys_cold s) (sys_reaping s) (sys_used s)"
  proof (cases "asm_tracked a")
    case None
    then show ?thesis using E by simp
  next
    case (Some t)
    note c = cold_facts(4) [OF E a Some]
    have "ents ?mid = without (pipelineId t) (ents ?old)"
      using Some committed_remove [OF c] by (simp add: ents_remove [OF d])
    then show ?thesis using entries_inv_without_committed [OF E c] by simp
  qed
  note f = cold_dropped [OF inv a d' E', unfolded am]
  have "entries_inv cfg (insert (m, ?w) (ents ?new)) (sys_pool s) ((sys_cold s)(m := None))
      (sys_reaping s) (insert (pipelineId ?w) (sys_used s))"
  proof (rule entries_inv_add_committed [OF f(3)])
    show "m \<in> set (multi_pipeline_model_ids (cfg_catalog cfg))"
      by (rule reservation_in_multi(1) [OF E cold_facts(2) [OF E a]])
    show "entry_keys ?w \<inter> entry_keys e' = {}" if "(m', e') \<in> ents ?new" for m' e'
    proof -
      from that have "(m', e') \<in> ents ?old" "pipelineId e' \<noteq> asm_reservation a"
        "\<And>t. asm_tracked a = Some t \<Longrightarrow> pipelineId e' \<noteq> pipelineId t"
        unfolding f(1) in_without mid by auto
      from free_keys_cold [OF E a this] show ?thesis by (simp add: assembly.truncate_def)
    qed
  qed (simp_all add: u)
  moreover have "pools_distinct (add_entry m ?w ?new)"
    by (rule fresh_id [OF f(3) u _ f(2)]) simp
  moreover have "co_tracker (cold_commit a nid u now st) = add_entry m ?w ?new"
    by (simp add: cold_commit_def Let_def am st split: option.split)
  ultimately show ?thesis by (simp add: system_inv_def ents_add)
qed

lemma step_cold_stop:
  assumes inv: "system_inv cfg s" and a: "sys_cold s m = Some (a, ph)"
    and st: "co_tracker st = co_tracker (sys_co s)"
  shows "system_inv cfg (s\<lparr>sys_co := st, sys_cold := (sys_cold s)(m \<mapsto> (a, ph'))\<rparr>)"
  using inv entries_inv_phase [where K = "sys_cold s", OF _ a] st by (simp add: system_inv_def)

lemma step_reap_start:
  assumes inv: "system_inv cfg s" and e: "e \<in> set (get_pool (co_tracker (sys_co s)) m)" "entry_state e \<noteq> Assembling"
    and st: "co_tracker st = co_tracker (sys_co s)"
  shows "system_inv cfg (s\<lparr>sys_co := st, sys_reaping := insert (m, pipelineId e) (sys_reaping s)\<rparr>)"
proof -
  have "committed (ents (co_tracker (sys_co s))) (sys_used s) m (pipelineId e)"
    using inv e by (intro entry_committed) (auto simp: system_inv_def entries_inv_def in_ents)
  then show ?thesis using inv st by (simp add: system_inv_def entries_inv_reap)
qed

lemma step_reap_done:
  assumes inv: "system_inv cfg s" and mp: "(m, p) \<in> sys_reaping s"
  shows "system_inv cfg (s\<lparr>sys_co := (sys_co s)\<lparr>co_tracker := remove_entry m p (co_tracker (sys_co s))\<rparr>,
           sys_reaping := sys_reaping s - {(m, p)}\<rparr>)"
proof -
  let ?old = "co_tracker (sys_co s)"
  from inv have d: "pools_distinct ?old"
    and E: "entries_inv cfg (ents ?old) (sys_pool s) (sys_cold s) (sys_reaping s) (sys_used s)"
    by (simp_all add: system_inv_def)
  have c: "committed (ents ?old) (sys_used s) m p" using E mp by (auto simp: entries_inv_def reaping_ok_def)
  have "ents (remove_entry m p ?old) = without p (ents ?old)"
    using committed_remove [OF c] by (simp add: ents_remove [OF d])
  then show ?thesis
    using entries_inv_reaped [OF entries_inv_without_committed [OF E c]] pools_distinct_remove [OF d]
    by (simp add: system_inv_def)
qed

lemma step_forward_failed:
  assumes inv: "system_inv cfg s" and nid: "nid \<noteq> []"
  shows "system_inv cfg (s\<lparr>sys_co := mark_driver_failed m nid (sys_co s)\<rparr>)"
proof -
  let ?old = "co_tracker (sys_co s)"
  from inv have d: "pools_distinct ?old"
    and E: "entries_inv cfg (ents ?old) (sys_pool s) (sys_cold s) (sys_reaping s) (sys_used s)"
    by (simp_all add: system_inv_def)
  have "entries_inv cfg (revise (\<lambda>m' e. m' = m \<and> driverNodeId e = nid) (\<lambda>e. e\<lparr>entry_state := Failed\<rparr>) (ents ?old))
      (sys_pool s) (sys_cold s) (sys_reaping s) (sys_used s)"
    using E nid by (intro entries_inv_revise [OF E]) (auto simp: entries_inv_def drivers_ok_def)
  then show ?thesis
    using pools_distinct_mark_driver [OF d] by (simp add: system_inv_def ents_mark_driver [OF d])
qed

lemma step_routed:
  assumes inv: "system_inv cfg s"
  shows "system_inv cfg (s\<lparr>sys_co := snd (route_from_pool m now (sys_co s))\<rparr>)"
  using route_from_pool_pool [of m now "sys_co s"]
proof
  assume "\<exists>e. e \<in> set (get_pool (co_tracker (sys_co s)) m) \<and> entry_state e = Warm \<and>
      co_tracker (snd (route_from_pool m now (sys_co s))) = touch_entry m (pipelineId e) now (co_tracker (sys_co s))"
  then obtain e where e: "(m, e) \<in> ents (co_tracker (sys_co s))" "entry_state e = Warm"
    and t: "co_tracker (snd (route_from_pool m now (sys_co s))) = touch_entry m (pipelineId e) now (co_tracker (sys_co s))"
    by (auto simp: in_ents)
  let ?old = "co_tracker (sys_co s)"
  from inv have d: "pools_distinct ?old"
    and E: "entries_inv cfg (ents ?old) (sys_pool s) (sys_cold s) (sys_reaping s) (sys_used s)"
    by (simp_all add: system_inv_def)
  have "committed (ents ?old) (sys_used s) m (pipelineId e)"
    using E e by (intro entry_committed) (auto simp: entries_inv_def)
  then have "entries_inv cfg (revise (\<lambda>m' e'. m' = m \<and> pipelineId e' = pipelineId e) (\<lambda>e. e\<lparr>lastUsedAt := now\<rparr>) (ents ?old))
      (sys_pool s) (sys_cold s) (sys_reaping s) (sys_used s)"
    by (intro entries_inv_revise [OF E]) (auto simp: committed_def)
  then show ?thesis
    using pools_distinct_touch [OF d] by (simp add: system_inv_def t ents_touch [OF d])
qed (simp add: system_inv_same_pool [OF inv])

lemma sys_step_inv: "sys_step cfg s s' \<Longrightarrow> system_inv cfg s \<Longrightarrow> system_inv cfg s'"
proof (induction rule: sys_step.induct)
  case (pool_claim m u s l now rnd k a st k')
  then show ?case using step_pool_claim by blast
next
  case (pool_decline m l now u rnd k s r st k')
  then show ?case using system_inv_same_pool try_assemble_begin_keeps_pool by blast
next
  case (pool_answer_ok s r a u now ok st)
  then show ?case using step_pool_ok by blast
next
  case (pool_answer_bad s r a)
  then show ?case using step_pool_bad by blast
next
  case (cold_claim s m u now rnd k a st k')
  then show ?case using step_cold_claim by blast
next
  case (cold_decline s m now u rnd k r st k')
  then show ?case using system_inv_same_pool cold_begin_keeps_pool by blast
next
  case (cold_answer_bad s m a)
  then show ?case using step_cold_bad by blast
next
  case (cold_answer_unparsed s m a now st)
  then show ?case using step_cold_bad cold_register_keeps_pool by blast
next
  case (cold_answer_stop s m a now nid st)
  from step_cold_stop [OF cold_answer_stop(4,1)] cold_register_keeps_pool [OF cold_answer_stop(2)]
  show ?case by simp
next
  case (cold_answer_swap s m a now nid st u)
  then show ?case using step_cold_commit cold_register_keeps_pool by blast
next
  case (cold_stopped s m a nid u now)
  then show ?case using step_cold_commit by blast
next
  case (reap_start e s m now)
  from step_reap_start [OF reap_start(3,1,2)] show ?case by simp
next
  case (reap_done m p s)
  then show ?case using step_reap_done by blast
next
  case (forward_failed nid s m)
  then show ?case using step_forward_failed by blast
next
  case (routed s m now)
  then show ?case using step_routed by blast
next
  case (registries_changed st s)
  then show ?case using system_inv_same_pool by blast
qed

lemma system_inv_initial: "system_inv cfg (initial_system st)"
  by (simp add: system_inv_def initial_system_def ents_new entries_inv_def inv_defs)

lemma reachable_inv: "sys_reachable cfg s \<Longrightarrow> system_inv cfg s"
  by (induction rule: sys_reachable.induct) (auto intro: system_inv_initial sys_step_inv)

subsection \<open>What the invariant says of a state\<close>

lemma system_inv_entries:
  assumes "system_inv cfg s"
  shows "entries_inv cfg (ents (co_tracker (sys_co s))) (sys_pool s) (sys_cold s) (sys_reaping s) (sys_used s)"
  using assms by (simp add: system_inv_def)

lemma replacement_assembling:
  assumes inv: "entries_inv cfg E P K R U" and r: "replaced_by K m p q" and e: "(m, e) \<in> E" "pipelineId e = q"
  shows "entry_state e = Assembling"
proof -
  from r obtain a ph where a: "K m = Some (a, ph)" and q: "q = asm_reservation a"
    by (auto simp: replaced_by_def)
  from cold_facts(2) [OF inv a] obtain e' where "(m, e') \<in> E" "pipelineId e' = q" "entry_state e' = Assembling"
    unfolding holds_reservation_def q by blast
  moreover have "e' = e" using calculation e inv unfolding entries_inv_def ids_ok_def by blast
  ultimately show ?thesis by simp
qed

lemma inv_exclusive:
  assumes inv: "system_inv cfg s"
    and e: "e \<in> set (get_pool (co_tracker (sys_co s)) m)" "entry_state e \<noteq> Assembling"
    and e': "e' \<in> set (get_pool (co_tracker (sys_co s)) m')" "entry_state e' \<noteq> Assembling"
    and ne: "pipelineId e \<noteq> pipelineId e'"
  shows "entry_keys e \<inter> entry_keys e' = {}"
proof (rule ccontr)
  note E = system_inv_entries [OF inv]
  assume "entry_keys e \<inter> entry_keys e' \<noteq> {}"
  then have "m = m' \<and> (replaced_by (sys_cold s) m (pipelineId e) (pipelineId e') \<or>
      replaced_by (sys_cold s) m (pipelineId e') (pipelineId e))"
    using E e(1) e'(1) ne unfolding entries_inv_def exclusive_def by (simp add: in_ents)
  then show False
    using replacement_assembling [OF E] e e' by (metis in_ents)
qed

lemma open_reservation_claimed:
  assumes inv: "system_inv cfg s" and r: "holds_reservation (ents (co_tracker (sys_co s))) m r l"
  shows "names_of l \<subseteq> claimed_launcher_ids (cfg_catalog cfg) (co_tracker (sys_co s)) None"
    and "t \<in> set (get_pool (co_tracker (sys_co s)) m') \<Longrightarrow> entry_state t \<noteq> Assembling \<Longrightarrow>
      names_of l \<subseteq> claimed_launcher_ids (cfg_catalog cfg) (co_tracker (sys_co s)) (Some t)"
proof -
  have m: "m \<in> set (multi_pipeline_model_ids (cfg_catalog cfg))"
    by (rule reservation_in_multi(1) [OF system_inv_entries [OF inv] r])
  from r obtain e where e: "e \<in> set (get_pool (co_tracker (sys_co s)) m)" "entry_state e = Assembling"
    and keys: "entry_keys e = names_of l"
    unfolding holds_reservation_def names_of_def in_ents by (metis reservation_keys)
  have all: "names_of l \<subseteq> claimed_launcher_ids (cfg_catalog cfg) (co_tracker (sys_co s)) x" if "x \<noteq> Some e" for x
    using m e that keys by (auto simp: claimed_launcher_ids_eq)
  then show "names_of l \<subseteq> claimed_launcher_ids (cfg_catalog cfg) (co_tracker (sys_co s)) None" by simp
  show "names_of l \<subseteq> claimed_launcher_ids (cfg_catalog cfg) (co_tracker (sys_co s)) (Some t)"
    if "entry_state t \<noteq> Assembling" using that e(2) by (intro all) auto
qed

lemma claimed_by_names:
  "names_of l \<subseteq> K \<Longrightarrow> names_of l \<inter> claim_keys l' \<noteq> {} \<Longrightarrow> is_launcher_claimed K l'"
  by (auto simp: is_launcher_claimed_iff)

lemma disjoint_keys:
  assumes "entry_keys e \<inter> entry_keys e' = {}"
  shows "entry_launcherId e \<noteq> entry_launcherId e' \<and>
    (entry_launcherEndpoint e = entry_launcherEndpoint e' \<longrightarrow> entry_launcherEndpoint e \<in> {None, Some []})"
proof
  have "entry_launcherId e \<in> entry_keys e" "entry_launcherId e' \<in> entry_keys e'" by (simp_all add: entry_keys_def)
  with assms show "entry_launcherId e \<noteq> entry_launcherId e'" by (metis disjoint_iff)
  have "x = []" if "entry_launcherEndpoint e = Some x" "entry_launcherEndpoint e' = Some x" for x
  proof (rule ccontr)
    assume "x \<noteq> []"
    then have "x \<in> entry_keys e \<inter> entry_keys e'" using that by (simp add: entry_keys_def)
    with assms show False by simp
  qed
  then show "entry_launcherEndpoint e = entry_launcherEndpoint e' \<longrightarrow> entry_launcherEndpoint e \<in> {None, Some []}"
    by (cases "entry_launcherEndpoint e") auto
qed

subsection \<open>A reachable state with two pipelines\<close>

definition assembled :: "config \<Rightarrow> string \<Rightarrow> launcher_info \<Rightarrow> string \<Rightarrow> string \<Rightarrow> time \<Rightarrow> system \<Rightarrow> system" where
  "assembled cfg m l u u' now s =
     (case try_assemble_begin cfg m l now u (\<lambda>_. 0) 0 (sys_co s) of
        (Reserved a, st, k) \<Rightarrow> s\<lparr>sys_co := snd (try_assemble_ok cfg a u' now st),
                                 sys_used := insert u' (insert u (sys_used s))\<rparr>
      | _ \<Rightarrow> s)"

lemma reachable_assembled:
  assumes "sys_reachable cfg s" and "m \<in> set (multi_pipeline_model_ids (cfg_catalog cfg))"
    and "u \<notin> sys_used s" and "u' \<notin> insert u (sys_used s)" and "sys_pool s = Map.empty"
  shows "sys_reachable cfg (assembled cfg m l u u' now s)"
proof -
  obtain r st k where b: "try_assemble_begin cfg m l now u (\<lambda>_. 0) 0 (sys_co s) = (r, st, k)" by (metis prod_cases3)
  show ?thesis
  proof (cases r)
    case (Reserved a)
    let ?s = "s\<lparr>sys_co := st, sys_pool := (sys_pool s)(u \<mapsto> a), sys_used := insert u (sys_used s)\<rparr>"
    obtain ok st' where ok: "try_assemble_ok cfg a u' now st = (ok, st')" by force
    have "sys_reachable cfg ?s"
      using assms(1-3) b Reserved by (intro step [OF assms(1)] pool_claim) simp_all
    then have "sys_reachable cfg (?s\<lparr>sys_co := st', sys_pool := (sys_pool ?s)(u := None),
        sys_used := insert u' (sys_used ?s)\<rparr>)"
      by (rule step) (rule pool_answer_ok; use assms(4) ok in simp)
    moreover have "?s\<lparr>sys_co := st', sys_pool := (sys_pool ?s)(u := None), sys_used := insert u' (sys_used ?s)\<rparr> =
        assembled cfg m l u u' now s"
      using b Reserved ok assms(5) by (simp add: assembled_def)
    ultimately show ?thesis by simp
  qed (use assms(1) b in \<open>simp_all add: assembled_def\<close>)
qed

definition example_system :: system where
  "example_system =
     assembled example_config ''m2'' (example_launcher ''l2'' ''h2'') ''r2'' ''p2'' 12
       (assembled example_config ''m1'' (example_launcher ''l1'' ''h1'') ''r1'' ''p1'' 11 (initial_system example_swarm))"

definition assembled_co :: "config \<Rightarrow> string \<Rightarrow> launcher_info \<Rightarrow> string \<Rightarrow> string \<Rightarrow> time \<Rightarrow> coordinator \<Rightarrow> coordinator" where
  "assembled_co cfg m l u u' now st0 =
     (case try_assemble_begin cfg m l now u (\<lambda>_. 0) 0 st0 of
        (Reserved a, st, k) \<Rightarrow> snd (try_assemble_ok cfg a u' now st)
      | (r, st, k) \<Rightarrow> st0)"

lemma sys_co_assembled: "sys_co (assembled cfg m l u u' now s) = assembled_co cfg m l u u' now (sys_co s)"
  by (simp add: assembled_def assembled_co_def split: prod.split begin_result.split)

definition example_system_co :: coordinator where
  "example_system_co =
     assembled_co example_config ''m2'' (example_launcher ''l2'' ''h2'') ''r2'' ''p2'' 12
       (assembled_co example_config ''m1'' (example_launcher ''l1'' ''h1'') ''r1'' ''p1'' 11 example_swarm)"

lemma example_system_coordinator: "sys_co example_system = example_system_co"
proof -
  have "example_swarm\<lparr>co_tracker := new_pipeline_tracker\<rparr> = example_swarm" by (simp add: example_swarm_def)
  then show ?thesis
    by (simp add: example_system_def example_system_co_def sys_co_assembled initial_system_def)
qed

lemma assembled_pool: "sys_pool (assembled cfg m l u u' now s) = sys_pool s"
  by (simp add: assembled_def split: prod.split begin_result.split)

lemma sys_used_assembled: "sys_used (assembled cfg m l u u' now s) \<subseteq> insert u' (insert u (sys_used s))"
  by (auto simp: assembled_def split: prod.splits begin_result.splits)

lemma example_system_reachable: "sys_reachable example_config example_system"
proof -
  let ?s = "assembled example_config ''m1'' (example_launcher ''l1'' ''h1'') ''r1'' ''p1'' 11 (initial_system example_swarm)"
  have ids: "multi_pipeline_model_ids (cfg_catalog example_config) = [''m1'', ''m2'']" by code_simp
  have r: "sys_reachable example_config ?s"
    by (rule reachable_assembled [OF start]) (simp_all add: ids initial_system_def)
  have "sys_used ?s \<subseteq> {''p1'', ''r1''}"
    using sys_used_assembled [of example_config _ _ "''r1''" "''p1''" 11 "initial_system example_swarm"]
    by (force simp: initial_system_def)
  then have u: "''r2'' \<notin> sys_used ?s" "''p2'' \<notin> insert ''r2'' (sys_used ?s)" by auto
  have p: "sys_pool ?s = Map.empty" by (simp add: assembled_pool initial_system_def)
  show ?thesis unfolding example_system_def by (rule reachable_assembled [OF r _ u p]) (simp add: ids)
qed

lemma example_system_pools:
  "map (\<lambda>e. (pipelineId e, entry_state e)) (get_pool (co_tracker (sys_co example_system)) ''m1'') = [(''p1'', Warm)]"
  "map (\<lambda>e. (pipelineId e, entry_state e)) (get_pool (co_tracker (sys_co example_system)) ''m2'') = [(''p2'', Warm)]"
  unfolding example_system_coordinator by code_simp+

subsection \<open>Properties\<close>

text \<open>
  C1: Exclusive launchers. In every state the coordinator can reach, by any interleaving of the
  background loop, cold starts, teardowns, forwarding failures, routing and registry traffic, and
  whatever the launchers answer and when, two pipelines in the pools, of one model or of two, never
  name the same launcher: neither by id nor by endpoint. So no request for one model is served by
  an agent that was started for another, and no teardown stops another pipeline's agent.
\<close>

theorem launchers_exclusive:
  assumes "sys_reachable cfg s"
    and "e \<in> set (get_pool (co_tracker (sys_co s)) m)" and "e' \<in> set (get_pool (co_tracker (sys_co s)) m')"
    and "entry_state e \<noteq> Assembling" and "entry_state e' \<noteq> Assembling" and "(m, pipelineId e) \<noteq> (m', pipelineId e')"
  shows "entry_launcherId e \<noteq> entry_launcherId e' \<and>
    (entry_launcherEndpoint e = entry_launcherEndpoint e' \<longrightarrow> entry_launcherEndpoint e \<in> {None, Some []})"
proof -
  note inv = reachable_inv [OF assms(1)]
  have "pipelineId e \<noteq> pipelineId e'"
  proof
    assume "pipelineId e = pipelineId e'"
    with assms(2,3) system_inv_entries [OF inv] have "m = m'"
      unfolding entries_inv_def ids_ok_def in_ents by blast
    with \<open>pipelineId e = pipelineId e'\<close> assms(6) show False by simp
  qed
  from inv_exclusive [OF inv assms(2,4,3,5) this] have "entry_keys e \<inter> entry_keys e' = {}" .
  then show ?thesis by (rule disjoint_keys)
qed

theorem launchers_exclusive_witness:
  "\<exists>e e'. e \<in> set (get_pool (co_tracker (sys_co example_system)) ''m1'') \<and>
     e' \<in> set (get_pool (co_tracker (sys_co example_system)) ''m2'') \<and> entry_launcherId e \<noteq> entry_launcherId e'"
proof -
  obtain e e' where "e \<in> set (get_pool (co_tracker (sys_co example_system)) ''m1'')" "pipelineId e = ''p1''"
    "e' \<in> set (get_pool (co_tracker (sys_co example_system)) ''m2'')" "pipelineId e' = ''p2''"
    "entry_state e = Warm" "entry_state e' = Warm"
    using example_system_pools by (auto simp: map_eq_Cons_conv)
  with launchers_exclusive [OF example_system_reachable, of e "''m1''" e' "''m2''"] show ?thesis by auto
qed

text \<open>
  C2: Reservations hold. While an assembly waits for its launcher's answer, in any reachable state,
  neither the background loop nor a cold start of any model can reserve a launcher that shares the
  id or the endpoint of that launcher: both decline.
\<close>

theorem open_assembly_excludes_others:
  assumes "sys_reachable cfg s" and "sys_pool s r = Some a \<or> sys_cold s n = Some (c, ph) \<and> a = assembly.truncate c"
  shows "(names_of (asm_launcher a) \<inter> claim_keys l \<noteq> {} \<longrightarrow>
      try_assemble_begin cfg m l now u rnd k (sys_co s) \<noteq> (Reserved b, st, k')) \<and>
    (names_of (asm_launcher a) \<inter> claim_keys (asm_launcher d) \<noteq> {} \<longrightarrow>
      cold_begin cfg m now u rnd k (sys_co s) \<noteq> (Reserved d, st, k'))"
proof -
  note inv = reachable_inv [OF assms(1)] and E = system_inv_entries [OF reachable_inv [OF assms(1)]]
  from assms(2) obtain m' r' where r: "holds_reservation (ents (co_tracker (sys_co s))) m' r' (asm_launcher a)"
    using pool_facts(2) [OF E] cold_facts(2) [OF E] by (fastforce simp: assembly.truncate_def)
  note taken = open_reservation_claimed [OF inv r]
  have "try_assemble_begin cfg m l now u rnd k (sys_co s) \<noteq> (Reserved b, st, k')"
    if "names_of (asm_launcher a) \<inter> claim_keys l \<noteq> {}"
    using try_assemble_begin_Reserved(4) claimed_by_names [OF taken(1) that] by blast
  moreover have "cold_begin cfg m now u rnd k (sys_co s) \<noteq> (Reserved d, st, k')"
    if n: "names_of (asm_launcher a) \<inter> claim_keys (asm_launcher d) \<noteq> {}"
  proof
    assume run: "cold_begin cfg m now u rnd k (sys_co s) = (Reserved d, st, k')"
    note d = cold_begin_Reserved [OF run]
    have "names_of (asm_launcher a) \<subseteq>
        claimed_launcher_ids (cfg_catalog cfg) (co_tracker (sys_co s)) (asm_tracked d)"
    proof (cases "asm_tracked d")
      case None
      with taken(1) show ?thesis by simp
    next
      case (Some t)
      then have "t \<in> set (get_pool (co_tracker (sys_co s)) m)"
        using d(3) by (auto simp: first_entry_def split: list.splits)
      with taken(2) d(5) Some show ?thesis by simp
    qed
    from claimed_by_names [OF this n] d(6) show False by simp
  qed
  ultimately show ?thesis by blast
qed

theorem open_assembly_excludes_others_witness:
  "\<exists>s. sys_reachable example_config s \<and> sys_pool s ''r1'' \<noteq> None \<and>
     (\<forall>b st k. try_assemble_begin example_config ''m2'' (example_launcher ''l1'' ''h1'') 12 ''r2'' (\<lambda>_. 0) 0 (sys_co s)
        \<noteq> (Reserved b, st, k))"
proof -
  let ?l = "example_launcher ''l1'' ''h1''" and ?init = "initial_system example_swarm"
  have co: "sys_co ?init = example_swarm" by (simp add: initial_system_def example_swarm_def)
  obtain r st k where b: "try_assemble_begin example_config ''m1'' ?l 10 ''r1'' (\<lambda>_. 0) 0 example_swarm = (r, st, k)"
    by (metis prod_cases3)
  have "case fst (try_assemble_begin example_config ''m1'' ?l 10 ''r1'' (\<lambda>_. 0) 0 example_swarm) of
      Reserved a \<Rightarrow> True | _ \<Rightarrow> False" by code_simp
  with b obtain a where a: "try_assemble_begin example_config ''m1'' ?l 10 ''r1'' (\<lambda>_. 0) 0 (sys_co ?init) = (Reserved a, st, k)"
    by (auto simp: co split: begin_result.splits)
  let ?s = "?init\<lparr>sys_co := st, sys_pool := (sys_pool ?init)(''r1'' \<mapsto> a), sys_used := insert ''r1'' (sys_used ?init)\<rparr>"
  have "multi_pipeline_model_ids (cfg_catalog example_config) = [''m1'', ''m2'']" by code_simp
  then have "sys_step example_config ?init ?s"
    by (intro pool_claim [OF _ _ a]) (simp_all add: initial_system_def)
  then have reach: "sys_reachable example_config ?s" by (rule step [OF start])
  have "asm_launcher a = ?l" by (rule try_assemble_begin_Reserved(2) [OF a])
  then have "names_of (asm_launcher a) \<inter> claim_keys ?l \<noteq> {}" by (simp add: names_of_def claim_keys_def)
  with open_assembly_excludes_others [OF reach, of "''r1''" a] reach show ?thesis
    by (intro exI [of _ ?s]) auto
qed

end
