(* ===== verification/Pool_Manager.thy ===== *)
theory Pool_Manager
  imports Request_Routing
begin

text \<open>
  The background loop, class \<open>PipelinePoolManager\<close> of \<^verbatim>\<open>coordinator/src/pipeline_pool_manager.ts\<close>:
  \<open>healthCheckAndScaleDown\<close> (the heartbeat of every pooled driver, then the teardown of broken and
  idle entries), \<open>allocate\<close> (snapshots, plan, execution of the claims), \<open>runOnce\<close>, and the timer
  with its re-entrancy guard. The run is sequential: what other requests do while the loop awaits
  is the subject of the theory Interleaving. The surroundings are a record \<open>world\<close>: the clock after
  each await, the launchers' answers, the draws of \<open>random\<close> and the UUIDs. A \<open>pass\<close> holds the
  coordinator, the number of awaits, draws and UUIDs so far, and the calls made.
\<close>

record world =
  w_clock :: "nat \<Rightarrow> time"
  w_reply :: "nat \<Rightarrow> launcher_call \<Rightarrow> fetch_outcome"
  w_random :: "nat \<Rightarrow> rat"
  w_uuid :: "nat \<Rightarrow> string"

record pass =
  ps_co :: coordinator
  ps_awaits :: nat
  ps_draws :: nat
  ps_uuids :: nat
  ps_calls :: "launcher_call list"

subsection \<open>Health check and scale-down\<close>

fun beat_drivers :: "time \<Rightarrow> pooled_pipeline list \<Rightarrow> node_registry \<Rightarrow> node_registry" where
  "beat_drivers now [] nr = nr"
| "beat_drivers now (e # es) nr =
     beat_drivers now es
       (if entry_state e = Assembling then nr else snd (node_heartbeat (driverNodeId e) now nr))"

definition heartbeat_drivers :: "string list \<Rightarrow> time \<Rightarrow> coordinator \<Rightarrow> coordinator" where
  "heartbeat_drivers modelIds now st =
     st\<lparr>co_nodes := fold (\<lambda>m. beat_drivers now (get_pool (co_tracker st) m)) modelIds (co_nodes st)\<rparr>"

text \<open>The loop body's three reasons to tear an entry down, in the code's order.\<close>

definition must_tear_down :: "time \<Rightarrow> string set \<Rightarrow> time \<Rightarrow> pooled_pipeline \<Rightarrow> bool" where
  "must_tear_down idleGrace active now e =
     (if entry_state e = Assembling then False
      else if \<not> list_all (\<lambda>nid. nid \<in> active) (driverNodeId e # computeNodeIds e) then True
      else if entry_state e = Failed then True
      else entry_state e = Warm \<and> now - lastUsedAt e > idleGrace)"

definition tear_down :: "world \<Rightarrow> string \<Rightarrow> pooled_pipeline \<Rightarrow> pass \<Rightarrow> pass" where
  "tear_down w modelId e p =
     (let (call, st) = stop_launcher_pipeline (entry_launcherId e) (entry_launcherEndpoint e)
                         (w_clock w (ps_awaits p)) (ps_co p)
      in p\<lparr>ps_co := st\<lparr>co_tracker := remove_entry modelId (pipelineId e) (co_tracker st)\<rparr>,
           ps_awaits := Suc (ps_awaits p),
           ps_calls := ps_calls p @ (case call of None \<Rightarrow> [] | Some c \<Rightarrow> [c])\<rparr>)"

text \<open>The loop over a copy of one model's pool; the time was read once, before the loop.\<close>

fun sweep_pool :: "world \<Rightarrow> time \<Rightarrow> string set \<Rightarrow> time \<Rightarrow> string \<Rightarrow> pooled_pipeline list \<Rightarrow> pass \<Rightarrow> pass" where
  "sweep_pool w grace active now modelId [] p = p"
| "sweep_pool w grace active now modelId (e # es) p =
     sweep_pool w grace active now modelId es
       (if must_tear_down grace active now e then tear_down w modelId e p else p)"

definition sweep :: "world \<Rightarrow> time \<Rightarrow> string set \<Rightarrow> time \<Rightarrow> string list \<Rightarrow> pass \<Rightarrow> pass" where
  "sweep w grace active now modelIds p =
     fold (\<lambda>m p. sweep_pool w grace active now m (get_pool (co_tracker (ps_co p)) m) p) modelIds p"

definition health_check :: "config \<Rightarrow> world \<Rightarrow> string list \<Rightarrow> pass \<Rightarrow> pass" where
  "health_check cfg w modelIds p =
     (let now = w_clock w (ps_awaits p);
          st = heartbeat_drivers modelIds now (ps_co p);
          (active, nr) = list_active (Some (co_reputation st)) now (co_nodes st)
      in sweep w (cfg_idleGraceMs cfg) (set (map nodeId active)) now modelIds
           (p\<lparr>ps_co := st\<lparr>co_nodes := nr\<rparr>\<rparr>))"

subsection \<open>Allocation\<close>

fun take_snapshots ::
  "config \<Rightarrow> time \<Rightarrow> string list \<Rightarrow> coordinator \<Rightarrow> pool_demand_snapshot list \<times> coordinator" where
  "take_snapshots cfg now [] st = ([], st)"
| "take_snapshots cfg now (m # ms) st =
     (let (d, dt) = recent_demand m now (co_demand st);
          st = st\<lparr>co_demand := dt\<rparr>;
          s = \<lparr>snap_modelId = m, demand = d, currentCount = length (get_pool (co_tracker st) m),
               desiredCount = desired_pipeline_count d (max_pipelines (cfg_catalog cfg) m)
                 (required_node_count (cfg_catalog cfg) m) (cfg_requestsPerPipeline cfg)\<rparr>;
          (ss, st) = take_snapshots cfg now ms st
      in (s # ss, st))"

text \<open>
  \<open>planAllocations\<close> asks \<open>listForModel\<close> for the launchers of each under-provisioned model; each
  call also prunes the launcher registry. All calls happen at one time, so they list what the
  first one would (\<open>list_for_model_pruned\<close>).
\<close>

definition make_plan :: "config \<Rightarrow> time \<Rightarrow> pool_demand_snapshot list \<Rightarrow> coordinator \<Rightarrow>
    pipeline_claim list \<times> coordinator" where
  "make_plan cfg now snapshots st =
     (plan_allocations snapshots (\<lambda>m. fst (list_for_model m now (co_launchers st)))
        (claimed_launcher_ids (cfg_catalog cfg) (co_tracker st) None),
      st\<lparr>co_launchers := fold (\<lambda>s lr. snd (list_for_model (snap_modelId s) now lr))
            (under_provisioned snapshots) (co_launchers st)\<rparr>)"

text \<open>The loop over the claims; the result is false where \<open>tryAssemble\<close> throws.\<close>

fun carry_out :: "config \<Rightarrow> world \<Rightarrow> pipeline_claim list \<Rightarrow> string set \<Rightarrow> pass \<Rightarrow> bool \<times> pass" where
  "carry_out cfg w [] failed p = (True, p)"
| "carry_out cfg w (c # cs) failed p =
     (if claim_modelId c \<in> failed then carry_out cfg w cs failed p
      else
        (let (ok, calls, st, k) = try_assemble cfg (w_reply w (ps_awaits p)) (claim_modelId c) (claim_launcher c)
               (w_clock w (ps_awaits p)) (w_clock w (Suc (ps_awaits p)))
               (w_uuid w (ps_uuids p)) (w_uuid w (Suc (ps_uuids p))) (w_random w) (ps_draws p) (ps_co p);
             p = p\<lparr>ps_co := st, ps_awaits := Suc (ps_awaits p), ps_draws := k,
                   ps_uuids := ps_uuids p + 2, ps_calls := ps_calls p @ calls\<rparr>
         in case ok of
              None \<Rightarrow> (False, p)
            | Some assembled \<Rightarrow>
                carry_out cfg w cs (if assembled then failed else insert (claim_modelId c) failed) p))"

definition allocate :: "config \<Rightarrow> world \<Rightarrow> string list \<Rightarrow> pass \<Rightarrow> bool \<times> pass" where
  "allocate cfg w modelIds p =
     (let now = w_clock w (ps_awaits p);
          (snapshots, st) = take_snapshots cfg now modelIds (ps_co p);
          (claims, st) = make_plan cfg now snapshots st
      in carry_out cfg w claims {} (p\<lparr>ps_co := st\<rparr>))"

definition run_once :: "config \<Rightarrow> world \<Rightarrow> pass \<Rightarrow> bool \<times> pass" where
  "run_once cfg w p =
     (let modelIds = multi_pipeline_model_ids (cfg_catalog cfg)
      in if modelIds = [] then (True, p)
         else allocate cfg w modelIds (health_check cfg w modelIds p))"

subsection \<open>The timer\<close>

text \<open>
  \<open>start\<close>, \<open>stop\<close>, the callback of \<open>setInterval\<close> and the \<open>finally\<close> of the run it started.
  \<open>tm_runs\<close> counts the runs the timer has started that are not over.
\<close>

record pool_timer =
  tm_timer :: bool
  tm_ticking :: bool
  tm_runs :: nat

datatype timer_event = Start | Stop | Fire | Settled

fun timer_step :: "timer_event \<Rightarrow> pool_timer \<Rightarrow> pool_timer option" where
  "timer_step Start t = Some (if tm_timer t then t else t\<lparr>tm_timer := True\<rparr>)"
| "timer_step Stop t = Some (if tm_timer t then t\<lparr>tm_timer := False\<rparr> else t)"
| "timer_step Fire t =
     (if \<not> tm_timer t then None
      else if tm_ticking t then Some t
      else Some (t\<lparr>tm_ticking := True, tm_runs := Suc (tm_runs t)\<rparr>))"
| "timer_step Settled t =
     (case tm_runs t of 0 \<Rightarrow> None | Suc n \<Rightarrow> Some (t\<lparr>tm_ticking := False, tm_runs := n\<rparr>))"

fun timer_run :: "timer_event list \<Rightarrow> pool_timer \<Rightarrow> pool_timer option" where
  "timer_run [] t = Some t"
| "timer_run (ev # evs) t = (case timer_step ev t of None \<Rightarrow> None | Some t' \<Rightarrow> timer_run evs t')"

definition new_timer :: pool_timer where
  "new_timer = \<lparr>tm_timer = False, tm_ticking = False, tm_runs = 0\<rparr>"

lemma timer_step_runs:
  "timer_step ev t = Some t' \<Longrightarrow> tm_runs t = (if tm_ticking t then 1 else 0) \<Longrightarrow>
   tm_runs t' = (if tm_ticking t' then 1 else 0)"
  by (cases ev) (auto split: if_splits nat.splits)

lemma timer_run_runs:
  "timer_run evs t = Some t' \<Longrightarrow> tm_runs t = (if tm_ticking t then 1 else 0) \<Longrightarrow>
   tm_runs t' = (if tm_ticking t' then 1 else 0)"
  by (induction evs arbitrary: t) (auto split: option.splits dest: timer_step_runs)

subsection \<open>The sweep removes what must go and nothing else\<close>

lemma tear_down_pool:
  "get_pool (co_tracker (ps_co (tear_down w m e p))) m' =
     (if m' = m then remove_first (pipelineId e) (get_pool (co_tracker (ps_co p)) m)
      else get_pool (co_tracker (ps_co p)) m')"
proof -
  have "co_tracker (snd (stop_launcher_pipeline l f now st)) = co_tracker st" for l f now st
    by (auto simp: stop_launcher_pipeline_def Let_def split: prod.splits option.splits)
  then show ?thesis by (simp add: tear_down_def case_prod_beta pool_simps)
qed

lemma sweep_pool_other:
  "m' \<noteq> m \<Longrightarrow> get_pool (co_tracker (ps_co (sweep_pool w g A now m es p))) m' = get_pool (co_tracker (ps_co p)) m'"
  by (induction es arbitrary: p) (auto simp: tear_down_pool)

lemma sweep_pool_own:
  assumes "get_pool (co_tracker (ps_co p)) m = kept @ es" and "ids_distinct (kept @ es)"
  shows "get_pool (co_tracker (ps_co (sweep_pool w g A now m es p))) m =
    kept @ filter (\<lambda>e. \<not> must_tear_down g A now e) es"
  using assms
proof (induction es arbitrary: kept p)
  case Nil
  then show ?case by simp
next
  case (Cons e es)
  show ?case
  proof (cases "must_tear_down g A now e")
    case True
    have "pipelineId e \<notin> pipelineId ` set kept" using Cons.prems(2) by auto
    then have "get_pool (co_tracker (ps_co (tear_down w m e p))) m = kept @ es"
      by (simp add: tear_down_pool Cons.prems(1) remove_first_append)
    from Cons.IH [OF this] Cons.prems(2) True show ?thesis by auto
  next
    case False
    from Cons.IH [of p "kept @ [e]"] Cons.prems False show ?thesis by simp
  qed
qed

lemma sweep_pools:
  assumes "\<And>m. ids_distinct (get_pool (co_tracker (ps_co p)) m)"
  shows "get_pool (co_tracker (ps_co (sweep w g A now ms p))) m =
    (if m \<in> set ms then filter (\<lambda>e. \<not> must_tear_down g A now e) (get_pool (co_tracker (ps_co p)) m)
     else get_pool (co_tracker (ps_co p)) m)"
  using assms
proof (induction ms arbitrary: p)
  case Nil
  then show ?case by (simp add: sweep_def)
next
  case (Cons n ms)
  let ?p = "sweep_pool w g A now n (get_pool (co_tracker (ps_co p)) n) p"
  have own: "get_pool (co_tracker (ps_co ?p)) n =
      filter (\<lambda>e. \<not> must_tear_down g A now e) (get_pool (co_tracker (ps_co p)) n)"
    using sweep_pool_own [of p n "[]"] Cons.prems by simp
  have "ids_distinct (get_pool (co_tracker (ps_co ?p)) m')" for m'
    using Cons.prems own by (cases "m' = n") (simp_all add: distinct_map_filter sweep_pool_other)
  from Cons.IH [OF this] show ?case
    using own by (cases "m = n") (auto simp: sweep_def sweep_pool_other)
qed

subsection \<open>The pre-pass heartbeats keep exactly the nodes that are within the timeout\<close>

lemma beat_within:
  assumes "0 \<le> node_timeoutMs nr"
  shows "within_timeout (node_timeoutMs nr) now (node_seen (snd (node_heartbeat k now nr)) j) \<longleftrightarrow>
    within_timeout (node_timeoutMs nr) now (node_seen nr j)"
proof (cases "within_timeout (node_timeoutMs nr) now (node_seen nr k)")
  case True
  with assms show ?thesis by (simp add: noderegistry.beat_renews)
next
  case False
  then show ?thesis by (auto simp: noderegistry.beat_drops)
qed

definition same_nodes :: "(string \<Rightarrow> string) \<Rightarrow> time \<Rightarrow> node_registry \<Rightarrow> node_registry \<Rightarrow> bool" where
  "same_nodes sha256 now nr nr' \<longleftrightarrow>
     node_timeoutMs nr' = node_timeoutMs nr \<and> (nodes_wf sha256 nr \<longrightarrow> nodes_wf sha256 nr') \<and>
     (\<forall>j. within_timeout (node_timeoutMs nr) now (node_seen nr' j) \<longleftrightarrow>
          within_timeout (node_timeoutMs nr) now (node_seen nr j))"

lemma same_nodes_refl: "same_nodes sha256 now nr nr"
  by (simp add: same_nodes_def)

lemma same_nodes_trans:
  "same_nodes sha256 now nr nr' \<Longrightarrow> same_nodes sha256 now nr' nr'' \<Longrightarrow> same_nodes sha256 now nr nr''"
  by (simp add: same_nodes_def)

lemma same_nodes_beat:
  "0 \<le> node_timeoutMs nr \<Longrightarrow> same_nodes sha256 now nr (snd (node_heartbeat k now nr))"
  by (simp add: same_nodes_def beat_within nodes_wf_heartbeat noderegistry.beat_timeout)

lemma same_nodes_beat_drivers:
  "0 \<le> node_timeoutMs nr \<Longrightarrow> same_nodes sha256 now nr (beat_drivers now es nr)"
proof (induction es arbitrary: nr)
  case Nil
  then show ?case by (simp add: same_nodes_refl)
next
  case (Cons e es)
  let ?nr = "if entry_state e = Assembling then nr else snd (node_heartbeat (driverNodeId e) now nr)"
  have "same_nodes sha256 now nr ?nr" using Cons.prems by (simp add: same_nodes_beat same_nodes_refl)
  moreover from this have "0 \<le> node_timeoutMs ?nr" using Cons.prems by (simp add: same_nodes_def)
  then have "same_nodes sha256 now ?nr (beat_drivers now es ?nr)" by (rule Cons.IH)
  ultimately have "same_nodes sha256 now nr (beat_drivers now es ?nr)" by (rule same_nodes_trans)
  then show ?case by (simp only: beat_drivers.simps)
qed

lemma same_nodes_heartbeats:
  "0 \<le> node_timeoutMs (co_nodes st) \<Longrightarrow>
   same_nodes sha256 now (co_nodes st) (co_nodes (heartbeat_drivers ms now st))"
proof -
  have "0 \<le> node_timeoutMs nr \<Longrightarrow>
      same_nodes sha256 now nr (fold (\<lambda>m. beat_drivers now (pool m)) ms nr)" for nr pool
  proof (induction ms arbitrary: nr)
    case Nil
    then show ?case by (simp add: same_nodes_refl)
  next
    case (Cons m ms)
    note one = same_nodes_beat_drivers [OF Cons.prems, of sha256 now "pool m"]
    then have "0 \<le> node_timeoutMs (beat_drivers now (pool m) nr)"
      using Cons.prems by (simp add: same_nodes_def)
    from same_nodes_trans [OF one Cons.IH [OF this]] show ?case by simp
  qed
  then show "0 \<le> node_timeoutMs (co_nodes st) \<Longrightarrow> ?thesis" by (simp add: heartbeat_drivers_def)
qed

lemma active_after_heartbeats:
  assumes "nodes_wf sha256 (co_nodes st)" and "0 \<le> node_timeoutMs (co_nodes st)"
  shows "set (map nodeId (fst (list_active (Some (co_reputation st)) now
           (co_nodes (heartbeat_drivers ms now st))))) = {nid. node_usable st now nid}"
proof -
  have s: "same_nodes sha256 now (co_nodes st) (co_nodes (heartbeat_drivers ms now st))"
    by (rule same_nodes_heartbeats [OF assms(2)])
  then have wf: "nodes_wf sha256 (co_nodes (heartbeat_drivers ms now st))"
    using assms(1) by (simp add: same_nodes_def)
  show ?thesis
    using listed_id_iff [OF wf, of _ "Some (co_reputation st)" now] s
    by (auto simp: node_usable_def same_nodes_def trusted_by_def)
qed

lemma heartbeat_drivers_keeps [simp]:
  "co_tracker (heartbeat_drivers ms now st) = co_tracker st"
  "co_reputation (heartbeat_drivers ms now st) = co_reputation st"
  "co_launchers (heartbeat_drivers ms now st) = co_launchers st"
  by (simp_all add: heartbeat_drivers_def)

text \<open>The whole health check, in terms of the state it starts in.\<close>

definition reaped :: "config \<Rightarrow> coordinator \<Rightarrow> time \<Rightarrow> pooled_pipeline \<Rightarrow> bool" where
  "reaped cfg st now e \<longleftrightarrow>
     entry_state e \<noteq> Assembling \<and>
     ((\<exists>nid \<in> insert (driverNodeId e) (set (computeNodeIds e)). \<not> node_usable st now nid) \<or>
      entry_state e = Failed \<or> now - lastUsedAt e > cfg_idleGraceMs cfg)"

lemma must_tear_down_reaped:
  assumes "A = {nid. node_usable st now nid}"
  shows "must_tear_down (cfg_idleGraceMs cfg) A now e \<longleftrightarrow> reaped cfg st now e"
  using assms by (cases "entry_state e") (auto simp: must_tear_down_def reaped_def list_all_iff)

lemma health_check_pools:
  assumes wf: "nodes_wf sha256 (co_nodes (ps_co p))" and tmo: "0 \<le> node_timeoutMs (co_nodes (ps_co p))"
    and ids: "\<And>m. ids_distinct (get_pool (co_tracker (ps_co p)) m)"
  shows "get_pool (co_tracker (ps_co (health_check cfg w ms p))) m =
    (if m \<in> set ms
     then filter (\<lambda>e. \<not> reaped cfg (ps_co p) (w_clock w (ps_awaits p)) e) (get_pool (co_tracker (ps_co p)) m)
     else get_pool (co_tracker (ps_co p)) m)"
proof -
  let ?now = "w_clock w (ps_awaits p)"
  let ?st = "heartbeat_drivers ms ?now (ps_co p)"
  obtain active nr where l: "list_active (Some (co_reputation ?st)) ?now (co_nodes ?st) = (active, nr)"
    by force
  have A: "set (map nodeId active) = {nid. node_usable (ps_co p) ?now nid}"
    using active_after_heartbeats [OF wf tmo, of ?now ms] l by simp
  have "health_check cfg w ms p =
      sweep w (cfg_idleGraceMs cfg) (set (map nodeId active)) ?now ms (p\<lparr>ps_co := ?st\<lparr>co_nodes := nr\<rparr>\<rparr>)"
    using l by (simp add: health_check_def Let_def)
  then show ?thesis
    using ids by (simp add: sweep_pools must_tear_down_reaped [OF A [unfolded set_map]])
qed

subsection \<open>The stops a sweep sends\<close>

text \<open>
  One \<open>DELETE\<close> per entry torn down that has an endpoint, in the order of the pool, addressed to
  the launcher as it is registered or, where the registration has lapsed, as the entry recorded it.
\<close>

definition launchers_at :: "launcher_registry \<Rightarrow> string \<Rightarrow> string set" where
  "launchers_at lr lid = {launcher_endpoint l | k l. (k, l) \<in> set (launchers lr) \<and> launcherId l = lid}"

definition stops :: "launcher_registry \<Rightarrow> pooled_pipeline \<Rightarrow> launcher_call \<Rightarrow> bool" where
  "stops lr e c \<longleftrightarrow>
     (\<exists>ep. c = DeletePipeline (ep @ ''/pipeline'') \<and>
        (entry_launcherEndpoint e = Some ep \<or> ep \<in> launchers_at lr (entry_launcherId e)))"

lemma stop_launcher_call:
  assumes "stop_launcher_pipeline (entry_launcherId e) (entry_launcherEndpoint e) now st = (call, st')"
    and ep: "entry_launcherEndpoint e = Some ep" "ep \<noteq> []"
    and reg: "\<forall>(k, l) \<in> set (launchers (co_launchers st)). launcher_endpoint l \<noteq> []"
  shows "\<exists>c. call = Some c \<and> stops (co_launchers st) e c"
    and "set (launchers (co_launchers st')) \<subseteq> set (launchers (co_launchers st))"
proof -
  obtain active lr where l: "list_launchers now (co_launchers st) = (active, lr)" by force
  then have sub: "set (launchers lr) \<subseteq> set (launchers (co_launchers st))"
    and mem: "\<And>x. x \<in> set active \<Longrightarrow> \<exists>k y. (k, y) \<in> set (launchers (co_launchers st)) \<and> x = launcher_info.truncate y"
    by (auto simp: list_launchers_eq) blast+
  show "\<exists>c. call = Some c \<and> stops (co_launchers st) e c"
  proof (cases "find (\<lambda>l. launcherId l = entry_launcherId e) active")
    case None
    with assms(1) l ep show ?thesis by (auto simp: stop_launcher_pipeline_def Let_def stops_def)
  next
    case (Some x)
    then have x: "x \<in> set active" "launcherId x = entry_launcherId e" by (auto dest: find_SomeD)
    then obtain k y where y: "(k, y) \<in> set (launchers (co_launchers st))" "x = launcher_info.truncate y"
      using mem by blast
    then have "launcher_endpoint x \<in> launchers_at (co_launchers st) (entry_launcherId e)"
      using x(2) by (force simp: launchers_at_def launcher_info.truncate_def)
    moreover have "launcher_endpoint x \<noteq> []"
      using reg y by (auto simp: launcher_info.truncate_def)
    ultimately show ?thesis using assms(1) l Some by (auto simp: stop_launcher_pipeline_def Let_def stops_def)
  qed
  show "set (launchers (co_launchers st')) \<subseteq> set (launchers (co_launchers st))"
    using assms(1) l sub by (auto simp: stop_launcher_pipeline_def Let_def split: option.splits if_splits)
qed

lemma stops_mono:
  "stops lr' e c \<Longrightarrow> set (launchers lr') \<subseteq> set (launchers lr) \<Longrightarrow> stops lr e c"
  by (fastforce simp: stops_def launchers_at_def)

lemma sweep_pool_calls:
  assumes ep: "\<forall>e \<in> set es. \<exists>ep. entry_launcherEndpoint e = Some ep \<and> ep \<noteq> []"
    and reg: "\<forall>(k, l) \<in> set (launchers (co_launchers (ps_co p))). launcher_endpoint l \<noteq> []"
  shows "\<exists>calls. ps_calls (sweep_pool w g A now m es p) = ps_calls p @ calls \<and>
      list_all2 (stops (co_launchers (ps_co p))) (filter (must_tear_down g A now) es) calls"
  using assms
proof (induction es arbitrary: p)
  case Nil
  then show ?case by simp
next
  case (Cons e es)
  show ?case
  proof (cases "must_tear_down g A now e")
    case True
    obtain call st where stop: "stop_launcher_pipeline (entry_launcherId e) (entry_launcherEndpoint e)
        (w_clock w (ps_awaits p)) (ps_co p) = (call, st)" by force
    obtain x where x: "entry_launcherEndpoint e = Some x" "x \<noteq> []" using Cons.prems(1) by auto
    obtain c where c: "call = Some c" "stops (co_launchers (ps_co p)) e c"
      using stop_launcher_call(1) [OF stop x Cons.prems(2)] by blast
    have sub: "set (launchers (co_launchers (ps_co (tear_down w m e p)))) \<subseteq> set (launchers (co_launchers (ps_co p)))"
      using stop_launcher_call(2) [OF stop x Cons.prems(2)] stop by (simp add: tear_down_def)
    have "ps_calls (tear_down w m e p) = ps_calls p @ [c]"
      using stop c(1) by (simp add: tear_down_def)
    moreover obtain calls where "ps_calls (sweep_pool w g A now m es (tear_down w m e p)) =
        ps_calls (tear_down w m e p) @ calls"
      "list_all2 (stops (co_launchers (ps_co (tear_down w m e p)))) (filter (must_tear_down g A now) es) calls"
      using Cons.IH [of "tear_down w m e p"] Cons.prems sub by auto
    ultimately show ?thesis
      using True c(2) list_all2_mono [OF _ stops_mono [OF _ sub]]
      by (intro exI [of _ "c # calls"]) auto
  next
    case False
    with Cons show ?thesis by simp
  qed
qed

subsection \<open>Allocation stays within the ceiling\<close>

lemma try_assemble_length:
  assumes "try_assemble cfg reply m l now now' u u' rnd k st = (ok, calls, st', k')"
  shows "length (get_pool (co_tracker st') m') \<le> length (get_pool (co_tracker st) m') + (if m' = m then 1 else 0)"
proof -
  obtain r st1 k1 where b: "try_assemble_begin cfg m l now u rnd k st = (r, st1, k1)" by (metis prod_cases3)
  show ?thesis
  proof (cases r)
    case (Reserved a)
    with b have a: "asm_model a = m" "asm_reservation a = u"
      "co_tracker st1 = add_entry m (reservation_entry u l now) (co_tracker st)"
      by (auto simp: try_assemble_begin_def Let_def split: prod.splits option.splits if_splits)
    have rest: "length (get_pool (remove_entry m u (co_tracker st1)) m') = length (get_pool (co_tracker st) m')"
      using a(3) by (simp add: pool_simps length_remove_first reservation_entry_def)
    show ?thesis
    proof (cases "reply (pipeline_call a)")
      case FetchOk
      obtain ok1 st2 where t: "try_assemble_ok cfg a u' now' st1 = (ok1, st2)" by force
      have "length (get_pool (co_tracker st2) m') \<le> length (get_pool (co_tracker st) m') + (if m' = m then 1 else 0)"
        using t rest a(1,2)
        by (auto simp: try_assemble_ok_def try_assemble_failed_def register_driver_def Let_def pool_simps
            split: option.splits prod.splits)
      with assms b Reserved FetchOk t show ?thesis by (simp add: try_assemble_def)
    qed (use assms b Reserved rest a in \<open>auto simp: try_assemble_def try_assemble_failed_def\<close>)
  qed (use assms b in \<open>auto simp: try_assemble_def try_assemble_begin_def Let_def
        split: prod.splits option.splits if_splits\<close>)
qed

lemma carry_out_length:
  "carry_out cfg w cs failed p = (done, p') \<Longrightarrow>
   length (get_pool (co_tracker (ps_co p')) m) \<le> length (get_pool (co_tracker (ps_co p)) m) + length (claims_for m cs)"
proof (induction cs arbitrary: failed p)
  case Nil
  then show ?case by simp
next
  case (Cons c cs)
  have more: "length (claims_for m (c # cs)) = (if claim_modelId c = m then 1 else 0) + length (claims_for m cs)"
    by (simp add: claims_for_def)
  show ?case
  proof (cases "claim_modelId c \<in> failed")
    case True
    with Cons.IH Cons.prems more show ?thesis by fastforce
  next
    case False
    obtain ok calls st k where t: "try_assemble cfg (w_reply w (ps_awaits p)) (claim_modelId c) (claim_launcher c)
               (w_clock w (ps_awaits p)) (w_clock w (Suc (ps_awaits p)))
               (w_uuid w (ps_uuids p)) (w_uuid w (Suc (ps_uuids p))) (w_random w) (ps_draws p) (ps_co p) =
            (ok, calls, st, k)" by (metis prod_cases4)
    note len = try_assemble_length [OF t, of m]
    let ?p = "p\<lparr>ps_co := st, ps_awaits := Suc (ps_awaits p), ps_draws := k,
                   ps_uuids := ps_uuids p + 2, ps_calls := ps_calls p @ calls\<rparr>"
    show ?thesis
    proof (cases ok)
      case None
      with Cons.prems False t len more show ?thesis by auto
    next
      case (Some good)
      with Cons.prems False t
      have "carry_out cfg w cs (if good then failed else insert (claim_modelId c) failed) ?p = (done, p')"
        by simp
      from Cons.IH [OF this] len more show ?thesis by (simp split: if_splits)
    qed
  qed
qed

definition snapshot_of :: "config \<Rightarrow> coordinator \<Rightarrow> pool_demand_snapshot \<Rightarrow> bool" where
  "snapshot_of cfg st s \<longleftrightarrow>
     currentCount s = length (get_pool (co_tracker st) (snap_modelId s)) \<and>
     desiredCount s = desired_pipeline_count (demand s) (max_pipelines (cfg_catalog cfg) (snap_modelId s))
       (required_node_count (cfg_catalog cfg) (snap_modelId s)) (cfg_requestsPerPipeline cfg)"

lemma take_snapshots_spec:
  "take_snapshots cfg now ms st = (ss, st') \<Longrightarrow>
   map snap_modelId ss = ms \<and> co_tracker st' = co_tracker st \<and> co_launchers st' = co_launchers st \<and>
   (\<forall>s \<in> set ss. snapshot_of cfg st s)"
proof (induction ms arbitrary: st ss st')
  case Nil
  then show ?case by simp
next
  case (Cons m ms)
  obtain d dt where d: "recent_demand m now (co_demand st) = (d, dt)" by force
  obtain ss1 st1 where r: "take_snapshots cfg now ms (st\<lparr>co_demand := dt\<rparr>) = (ss1, st1)" by force
  from Cons.IH [OF r] Cons.prems d r show ?case by (auto simp: snapshot_of_def)
qed

lemma allocate_length:
  assumes "distinct ms" and run: "allocate cfg w ms p = (done, p')"
  shows "int (length (get_pool (co_tracker (ps_co p')) m)) \<le>
    max (int (length (get_pool (co_tracker (ps_co p)) m))) (max_pipelines (cfg_catalog cfg) m)"
proof -
  let ?now = "w_clock w (ps_awaits p)"
  obtain ss st where ss: "take_snapshots cfg ?now ms (ps_co p) = (ss, st)" by force
  obtain cs st1 where cs: "make_plan cfg ?now ss st = (cs, st1)" by force
  note spec = take_snapshots_spec [OF ss]
  let ?L = "\<lambda>m. fst (list_for_model m ?now (co_launchers st))"
  have "plan_ok ?L (under_provisioned ss) (claimed_launcher_ids (cfg_catalog cfg) (co_tracker st) None) cs"
    using plan_allocations_spec [of ss ?L] spec assms(1) cs by (auto simp: make_plan_def)
  note plan = this [unfolded plan_ok_def]
  let ?n = "length (get_pool (co_tracker (ps_co p)) m)"
  have claims: "int ?n + int (length (claims_for m cs)) \<le> max (int ?n) (max_pipelines (cfg_catalog cfg) m)"
  proof (cases "\<exists>s \<in> set (under_provisioned ss). snap_modelId s = m")
    case True
    then obtain s where s: "s \<in> set (under_provisioned ss)" "snap_modelId s = m" by blast
    then have "s \<in> set ss" by (simp add: under_provisioned_set)
    with spec s have snap: "currentCount s = ?n" "desiredCount s = desired_pipeline_count (demand s)
        (max_pipelines (cfg_catalog cfg) m) (required_node_count (cfg_catalog cfg) m) (cfg_requestsPerPipeline cfg)"
      by (auto simp: snapshot_of_def)
    have "desiredCount s \<le> max_pipelines (cfg_catalog cfg) m"
      using desired_bounds [of "required_node_count (cfg_catalog cfg) m" "demand s"
          "max_pipelines (cfg_catalog cfg) m" "cfg_requestsPerPipeline cfg"]
        max_pipelines_ge_1 [of "cfg_catalog cfg" m] desired_single snap(2)
      by (cases "1 < required_node_count (cfg_catalog cfg) m") auto
    moreover have "int (length (claims_for m cs)) \<le> max 0 (deficit_of s)"
      using plan s by blast
    ultimately show ?thesis using snap(1) by (simp add: deficit_of_def)
  next
    case False
    then have "claims_for m cs = []" using plan by (intro claims_for_none) force
    then show ?thesis by simp
  qed
  have "co_tracker st1 = co_tracker (ps_co p)" using cs spec by (auto simp: make_plan_def)
  moreover have "carry_out cfg w cs {} (p\<lparr>ps_co := st1\<rparr>) = (done, p')"
    using run ss cs by (simp add: allocate_def)
  ultimately show ?thesis
    using carry_out_length [of cfg w cs "{}" "p\<lparr>ps_co := st1\<rparr>" "done" p' m] claims by simp
qed

text \<open>Listing at one time is not affected by an earlier listing at that time.\<close>

lemma list_for_model_pruned:
  "fst (list_for_model m now (snd (list_for_model m' now lr))) = fst (list_for_model m now lr)"
  by (auto simp: list_for_model_def list_launchers_eq intro!: arg_cong [where f = "filter _"] filter_cong)

subsection \<open>Ticks in time keep every driver of the pool\<close>

lemma beat_drivers_keeps:
  "0 \<le> node_timeoutMs nr \<Longrightarrow> node_seen nr d = Some now \<Longrightarrow> node_seen (beat_drivers now es nr) d = Some now"
proof (induction es arbitrary: nr)
  case Nil
  then show ?case by simp
next
  case (Cons e es)
  let ?nr = "if entry_state e = Assembling then nr else snd (node_heartbeat (driverNodeId e) now nr)"
  have "node_seen ?nr d = Some now"
    using Cons.prems noderegistry.beat_other [of d "driverNodeId e" now nr]
    by (cases "driverNodeId e = d") (auto simp: noderegistry.beat_renews)
  moreover have "0 \<le> node_timeoutMs ?nr" using Cons.prems by (simp add: noderegistry.beat_timeout)
  ultimately show ?case using Cons.IH by simp
qed

lemma beat_drivers_renews:
  assumes "0 \<le> node_timeoutMs nr" and "within_timeout (node_timeoutMs nr) now (node_seen nr d)"
    and "\<exists>e \<in> set es. entry_state e \<noteq> Assembling \<and> driverNodeId e = d"
  shows "node_seen (beat_drivers now es nr) d = Some now"
  using assms
proof (induction es arbitrary: nr)
  case Nil
  then show ?case by simp
next
  case (Cons e es)
  let ?nr = "if entry_state e = Assembling then nr else snd (node_heartbeat (driverNodeId e) now nr)"
  have tmo: "node_timeoutMs ?nr = node_timeoutMs nr" by (simp add: noderegistry.beat_timeout)
  show ?case
  proof (cases "entry_state e \<noteq> Assembling \<and> driverNodeId e = d")
    case True
    with Cons.prems(2) have "node_seen ?nr d = Some now" by (simp add: noderegistry.beat_renews)
    with beat_drivers_keeps [of ?nr] Cons.prems(1) tmo show ?thesis by simp
  next
    case False
    then have "within_timeout (node_timeoutMs ?nr) now (node_seen ?nr d)"
      using Cons.prems(2) tmo noderegistry.beat_other [of d "driverNodeId e" now nr]
      by (cases "entry_state e = Assembling") auto
    with Cons.IH [of ?nr] Cons.prems(1,3) False tmo show ?thesis by auto
  qed
qed

lemma heartbeat_drivers_renews:
  assumes tmo: "0 \<le> node_timeoutMs (co_nodes st)"
    and d: "within_timeout (node_timeoutMs (co_nodes st)) now (node_seen (co_nodes st) d)"
    and e: "m \<in> set ms" "e \<in> set (get_pool (co_tracker st) m)" "entry_state e \<noteq> Assembling" "driverNodeId e = d"
  shows "node_seen (co_nodes (heartbeat_drivers ms now st)) d = Some now"
proof -
  obtain xs ys where ms: "ms = xs @ m # ys" using e(1) by (meson split_list)
  let ?pool = "get_pool (co_tracker st)"
  have keep: "0 \<le> node_timeoutMs nr \<Longrightarrow> node_seen nr d = Some now \<Longrightarrow>
      node_seen (fold (\<lambda>m. beat_drivers now (?pool m)) zs nr) d = Some now" for zs nr
  proof (induction zs arbitrary: nr)
    case (Cons z zs)
    then show ?case
      using beat_drivers_keeps same_nodes_beat_drivers [OF Cons.prems(1)] by (simp add: same_nodes_def)
  qed simp
  let ?n1 = "co_nodes (heartbeat_drivers xs now st)"
  have one: "same_nodes id now (co_nodes st) ?n1" by (rule same_nodes_heartbeats [OF tmo])
  have "node_seen (beat_drivers now (?pool m) ?n1) d = Some now"
    using one tmo d e(2-4) by (intro beat_drivers_renews) (auto simp: same_nodes_def)
  moreover have "0 \<le> node_timeoutMs (beat_drivers now (?pool m) ?n1)"
    using one tmo same_nodes_beat_drivers [of ?n1 id now "?pool m"] by (simp add: same_nodes_def)
  ultimately show ?thesis using keep by (simp add: ms heartbeat_drivers_def)
qed

lemma heartbeat_drivers_timeout:
  "0 \<le> node_timeoutMs (co_nodes st) \<Longrightarrow>
   node_timeoutMs (co_nodes (heartbeat_drivers ms now st)) = node_timeoutMs (co_nodes st)"
  using same_nodes_heartbeats [of st id now ms] by (simp add: same_nodes_def)

lemma ticks_keep_driver:
  assumes "0 \<le> node_timeoutMs (co_nodes st)"
    and "m \<in> set ms" "e \<in> set (get_pool (co_tracker st) m)" "entry_state e \<noteq> Assembling" "driverNodeId e = d"
    and "node_seen (co_nodes st) d = Some t" and "paced (node_timeoutMs (co_nodes st)) t us"
  shows "node_seen (co_nodes (fold (heartbeat_drivers ms) us st)) d = Some (last (t # us))"
  using assms
proof (induction us arbitrary: st t)
  case (Cons u us)
  have "node_seen (co_nodes (heartbeat_drivers ms u st)) d = Some u"
    using Cons.prems by (intro heartbeat_drivers_renews) auto
  with Cons.IH [of "heartbeat_drivers ms u st" u] Cons.prems show ?case
    by (simp add: heartbeat_drivers_timeout)
qed simp

lemma sweep_pool_launchers:
  "set (launchers (co_launchers (ps_co (sweep_pool w g A now m es p)))) \<subseteq> set (launchers (co_launchers (ps_co p)))"
proof (induction es arbitrary: p)
  case (Cons e es)
  have "set (launchers (co_launchers (snd (stop_launcher_pipeline l f t st)))) \<subseteq> set (launchers (co_launchers st))" for l f t st
    by (auto simp: stop_launcher_pipeline_def Let_def list_launchers_eq split: option.splits)
  then have "set (launchers (co_launchers (ps_co (tear_down w m e p)))) \<subseteq> set (launchers (co_launchers (ps_co p)))"
    by (simp add: tear_down_def case_prod_beta)
  with Cons.IH show ?case by auto
qed simp

text \<open>The stops of a whole sweep, model by model.\<close>

lemma sweep_calls:
  assumes "distinct ms"
    and "\<forall>m \<in> set ms. \<forall>e \<in> set (get_pool (co_tracker (ps_co p)) m). \<exists>ep. entry_launcherEndpoint e = Some ep \<and> ep \<noteq> []"
    and "\<forall>(k, l) \<in> set (launchers (co_launchers (ps_co p))). launcher_endpoint l \<noteq> []"
  shows "\<exists>calls. ps_calls (sweep w g A now ms p) = ps_calls p @ calls \<and>
      list_all2 (stops (co_launchers (ps_co p)))
        (concat (map (\<lambda>m. filter (must_tear_down g A now) (get_pool (co_tracker (ps_co p)) m)) ms)) calls"
  using assms
proof (induction ms arbitrary: p)
  case Nil
  then show ?case by (simp add: sweep_def)
next
  case (Cons m ms)
  let ?p = "sweep_pool w g A now m (get_pool (co_tracker (ps_co p)) m) p"
  have same: "get_pool (co_tracker (ps_co ?p)) m' = get_pool (co_tracker (ps_co p)) m'" if "m' \<in> set ms" for m'
    using that Cons.prems(1) by (intro sweep_pool_other) auto
  note sub = sweep_pool_launchers [of w g A now m "get_pool (co_tracker (ps_co p)) m" p]
  obtain c1 where c1: "ps_calls ?p = ps_calls p @ c1"
    "list_all2 (stops (co_launchers (ps_co p))) (filter (must_tear_down g A now) (get_pool (co_tracker (ps_co p)) m)) c1"
    using sweep_pool_calls [of "get_pool (co_tracker (ps_co p)) m" p w g A now m] Cons.prems by auto
  obtain c2 where c2: "ps_calls (sweep w g A now ms ?p) = ps_calls ?p @ c2"
    "list_all2 (stops (co_launchers (ps_co ?p)))
       (concat (map (\<lambda>m. filter (must_tear_down g A now) (get_pool (co_tracker (ps_co ?p)) m)) ms)) c2"
    using Cons.IH [of ?p] Cons.prems sub by (auto simp: same)
  have pools: "map (\<lambda>m. filter (must_tear_down g A now) (get_pool (co_tracker (ps_co ?p)) m)) ms =
      map (\<lambda>m. filter (must_tear_down g A now) (get_pool (co_tracker (ps_co p)) m)) ms"
    by (rule map_cong) (simp_all add: same)
  have step: "sweep w g A now (m # ms) p = sweep w g A now ms ?p" by (simp add: sweep_def)
  show ?case
    unfolding step using c1 c2(1) list_all2_mono [OF c2(2) [unfolded pools] stops_mono [OF _ sub]]
    by (intro exI [of _ "c1 @ c2"]) (simp add: list_all2_appendI)
qed

lemma health_check_calls:
  assumes wf: "nodes_wf sha256 (co_nodes (ps_co p))" and tmo: "0 \<le> node_timeoutMs (co_nodes (ps_co p))"
    and "distinct ms"
    and "\<forall>m \<in> set ms. \<forall>e \<in> set (get_pool (co_tracker (ps_co p)) m). \<exists>ep. entry_launcherEndpoint e = Some ep \<and> ep \<noteq> []"
    and "\<forall>(k, l) \<in> set (launchers (co_launchers (ps_co p))). launcher_endpoint l \<noteq> []"
  shows "\<exists>calls. ps_calls (health_check cfg w ms p) = ps_calls p @ calls \<and>
      list_all2 (stops (co_launchers (ps_co p)))
        (concat (map (\<lambda>m. filter (reaped cfg (ps_co p) (w_clock w (ps_awaits p))) (get_pool (co_tracker (ps_co p)) m)) ms)) calls"
proof -
  let ?now = "w_clock w (ps_awaits p)"
  let ?st = "heartbeat_drivers ms ?now (ps_co p)"
  obtain active nr where l: "list_active (Some (co_reputation ?st)) ?now (co_nodes ?st) = (active, nr)"
    by force
  have A: "set (map nodeId active) = {nid. node_usable (ps_co p) ?now nid}"
    using active_after_heartbeats [OF wf tmo, of ?now ms] l by simp
  have run: "health_check cfg w ms p =
      sweep w (cfg_idleGraceMs cfg) (set (map nodeId active)) ?now ms (p\<lparr>ps_co := ?st\<lparr>co_nodes := nr\<rparr>\<rparr>)"
    using l by (simp add: health_check_def Let_def)
  have must: "must_tear_down (cfg_idleGraceMs cfg) (set (map nodeId active)) ?now = reaped cfg (ps_co p) ?now"
    using must_tear_down_reaped [OF A] by (intro ext) simp
  show ?thesis
    unfolding run using sweep_calls [OF assms(3), of "p\<lparr>ps_co := ?st\<lparr>co_nodes := nr\<rparr>\<rparr>" w "cfg_idleGraceMs cfg"
        "set (map nodeId active)" ?now] assms(4,5)
    by (simp add: must del: set_map)
qed

subsection \<open>Properties\<close>

text \<open>
  C9: The health check tears down exactly the entries it must. An entry of a multi-node model goes if
  and only if it is not a reservation and its driver or a contributor is past the heartbeat timeout
  or untrusted, or it is failed, or it has been idle for longer than the grace period; every
  other entry stays, in its place, with its content. The heartbeats the loop sends first never
  change the verdict. Each entry that goes has its agent stopped by one \<open>DELETE\<close>, addressed to the
  launcher as it is registered now or, if it is not, as the entry recorded it.
\<close>

theorem health_check_exact:
  assumes wf: "nodes_wf sha256 (co_nodes (ps_co p))" and tmo: "0 \<le> node_timeoutMs (co_nodes (ps_co p))"
    and ids: "\<And>m. ids_distinct (get_pool (co_tracker (ps_co p)) m)" and ms: "distinct ms"
    and eps: "\<forall>m \<in> set ms. \<forall>e \<in> set (get_pool (co_tracker (ps_co p)) m). \<exists>ep. entry_launcherEndpoint e = Some ep \<and> ep \<noteq> []"
    and lrs: "\<forall>(k, l) \<in> set (launchers (co_launchers (ps_co p))). launcher_endpoint l \<noteq> []"
  shows "get_pool (co_tracker (ps_co (health_check cfg w ms p))) m =
      (if m \<in> set ms
       then filter (\<lambda>e. \<not> reaped cfg (ps_co p) (w_clock w (ps_awaits p)) e) (get_pool (co_tracker (ps_co p)) m)
       else get_pool (co_tracker (ps_co p)) m) \<and>
    (\<exists>calls. ps_calls (health_check cfg w ms p) = ps_calls p @ calls \<and>
       list_all2 (stops (co_launchers (ps_co p)))
         (concat (map (\<lambda>m. filter (reaped cfg (ps_co p) (w_clock w (ps_awaits p))) (get_pool (co_tracker (ps_co p)) m)) ms)) calls)"
  using health_check_pools [OF wf tmo ids, of cfg w ms m] health_check_calls [OF wf tmo ms eps lrs, of cfg w] by simp

definition example_world :: world where
  "example_world = \<lparr>w_clock = (\<lambda>n. 25 + int n), w_reply = (\<lambda>n c. FetchOk), w_random = (\<lambda>n. 0),
     w_uuid = (\<lambda>n. if n = 0 then ''u0'' else if n = 1 then ''u1'' else ''u2'')\<rparr>"

definition pass_of :: "coordinator \<Rightarrow> pass" where
  "pass_of st = \<lparr>ps_co = st, ps_awaits = 0, ps_draws = 0, ps_uuids = 0, ps_calls = []\<rparr>"

lemma example_warm_ids: "ids_distinct (get_pool (co_tracker (ps_co (pass_of example_warm))) m)"
proof -
  have "map fst (co_tracker example_warm) = [''m1'']" by code_simp
  then have "map_get (co_tracker example_warm) = [''m1'' \<mapsto> get_pool (co_tracker example_warm) ''m1'']"
    by (auto simp: map_eq_Cons_conv get_pool_def fun_eq_iff)
  then show ?thesis by (auto simp: pass_of_def get_pool_def [of _ m] example_warm_pool)
qed

theorem health_check_exact_witness:
  "get_pool (co_tracker (ps_co (health_check example_config example_world [''m1''] (pass_of example_warm)))) ''m1'' =
   get_pool (co_tracker example_warm) ''m1''"
proof -
  note ids = example_warm_ids
  have wf: "nodes_wf id (co_nodes (ps_co (pass_of example_warm)))"
    using example_warm_nodes_wf by (simp add: pass_of_def)
  have tmo: "0 \<le> node_timeoutMs (co_nodes (ps_co (pass_of example_warm)))" by code_simp
  have lrs: "\<forall>(k, l) \<in> set (launchers (co_launchers (ps_co (pass_of example_warm)))). launcher_endpoint l \<noteq> []"
    by code_simp
  have eps: "\<forall>m \<in> set [''m1'']. \<forall>e \<in> set (get_pool (co_tracker (ps_co (pass_of example_warm))) m).
      \<exists>ep. entry_launcherEndpoint e = Some ep \<and> ep \<noteq> []"
    by (simp add: pass_of_def example_warm_pool)
  have "list_all (\<lambda>e. \<not> reaped example_config example_warm 25 e) (get_pool (co_tracker example_warm) ''m1'')"
    by code_simp
  then show ?thesis
    using health_check_exact [OF wf tmo ids _ eps lrs, of example_config example_world "''m1''"]
    by (simp add: pass_of_def example_world_def list_all_iff filter_True)
qed

text \<open>
  C24: A reconciliation pass during which no request assembles a pipeline, whatever the launchers
  answer and even if the pass is cut short by an exception, leaves every model's pool no larger
  than it was or than the model's ceiling. The condition matters: the plan is made once, and a
  request that fills a pool while the pass awaits is not counted again (see the theory Known_Races).
\<close>

theorem run_once_within_ceiling:
  assumes wf: "nodes_wf sha256 (co_nodes (ps_co p))" and tmo: "0 \<le> node_timeoutMs (co_nodes (ps_co p))"
    and ids: "\<And>m. ids_distinct (get_pool (co_tracker (ps_co p)) m)"
    and cat: "distinct (map entry_id (cfg_catalog cfg))"
  shows "int (length (get_pool (co_tracker (ps_co (snd (run_once cfg w p)))) m)) \<le>
    max (int (length (get_pool (co_tracker (ps_co p)) m))) (max_pipelines (cfg_catalog cfg) m)"
proof -
  let ?ms = "multi_pipeline_model_ids (cfg_catalog cfg)"
  have "distinct ?ms" using cat by (simp add: multi_pipeline_model_ids_def distinct_map_filter)
  note one = allocate_length [OF this, of cfg w "health_check cfg w ?ms p"]
  have "length (get_pool (co_tracker (ps_co (health_check cfg w ?ms p))) m) \<le> length (get_pool (co_tracker (ps_co p)) m)"
    by (simp add: health_check_pools [OF wf tmo ids])
  with one [of _ _ m] show ?thesis
    by (cases "allocate cfg w ?ms (health_check cfg w ?ms p)") (force simp: run_once_def Let_def)
qed

theorem run_once_within_ceiling_witness:
  "length (get_pool (co_tracker (ps_co (snd (run_once example_config example_world (pass_of example_warm))))) ''m1'') \<le> 1"
proof -
  have wf: "nodes_wf id (co_nodes (ps_co (pass_of example_warm)))"
    using example_warm_nodes_wf by (simp add: pass_of_def)
  have f: "0 \<le> node_timeoutMs (co_nodes (ps_co (pass_of example_warm)))"
    "distinct (map entry_id (cfg_catalog example_config))" "max_pipelines (cfg_catalog example_config) ''m1'' = 1"
    by code_simp+
  from run_once_within_ceiling [OF wf f(1) example_warm_ids f(2), of example_world "''m1''"] show ?thesis
    by (simp add: f(3) example_warm_pool, simp add: pass_of_def example_warm_pool)
qed

text \<open>
  C25: A pool whose drivers are heartbeat in time stays alive. If the heartbeats that open each
  reconciliation pass come at gaps of at most the registry's timeout (10 seconds against 30 by
  default), then the driver of every entry that is not a reservation is within the timeout after any
  number of them, with no traffic at all. The entries are those of the pools as they are: the
  teardown of idle entries, which follows the heartbeats in a pass, is not part of this run.
\<close>

theorem ticked_driver_stays_active:
  assumes "0 \<le> node_timeoutMs (co_nodes st)"
    and "m \<in> set ms" and "e \<in> set (get_pool (co_tracker st) m)" and "entry_state e \<noteq> Assembling"
    and "node_seen (co_nodes st) (driverNodeId e) = Some t"
    and "paced (node_timeoutMs (co_nodes st)) t (us @ [now])" and "is_trusted (co_reputation st) (driverNodeId e)"
  shows "node_usable (fold (heartbeat_drivers ms) us st) now (driverNodeId e)"
proof -
  have split: "paced g u (vs @ [x]) \<Longrightarrow> paced g u vs \<and> x - last (u # vs) \<le> g" for g u vs x
    by (induction vs arbitrary: u) auto
  from split [OF assms(6)] have pace: "paced (node_timeoutMs (co_nodes st)) t us"
    and gap: "now - last (t # us) \<le> node_timeoutMs (co_nodes st)" by auto
  have "node_timeoutMs (co_nodes (fold (heartbeat_drivers ms) us st)) = node_timeoutMs (co_nodes st) \<and>
      co_reputation (fold (heartbeat_drivers ms) us st) = co_reputation st"
    using assms(1) by (induction us arbitrary: st) (simp_all add: heartbeat_drivers_timeout)
  then show ?thesis
    using ticks_keep_driver [OF assms(1-4) refl assms(5) pace] gap assms(7) by (simp add: node_usable_def)
qed

theorem ticked_driver_stays_active_witness:
  "node_usable (fold (heartbeat_drivers [''m1'']) [10020, 20020, 30020, 40020] example_warm) 50020 ''http://h1:7000''"
proof -
  have f: "0 \<le> node_timeoutMs (co_nodes example_warm)" "node_timeoutMs (co_nodes example_warm) = 30000"
    "node_seen (co_nodes example_warm) ''http://h1:7000'' = Some 20"
    "is_trusted (co_reputation example_warm) ''http://h1:7000''" by code_simp+
  then show ?thesis
    using ticked_driver_stays_active [OF f(1), of "''m1''" "[''m1'']" "hd (get_pool (co_tracker example_warm) ''m1'')" 20
        "[10020, 20020, 30020, 40020]" 50020]
    by (simp add: example_warm_pool)
qed

text \<open>
  The timer never overlaps its runs. After any sequence of starts, stops, timer callbacks and
  ends of runs, at most one run the timer started is under way, and the \<open>ticking\<close> flag says whether.
\<close>

theorem timer_runs_never_overlap:
  assumes "timer_run evs new_timer = Some t"
  shows "tm_runs t \<le> 1 \<and> (tm_ticking t \<longleftrightarrow> tm_runs t = 1)"
  using timer_run_runs [OF assms] by (simp add: new_timer_def split: if_splits)

theorem timer_runs_never_overlap_witness:
  "tm_runs \<lparr>tm_timer = True, tm_ticking = True, tm_runs = 1\<rparr> \<le> 1"
  using timer_runs_never_overlap [of "[Start, Fire, Stop, Start, Fire]" "\<lparr>tm_timer = True, tm_ticking = True, tm_runs = 1\<rparr>"]
  by (simp add: new_timer_def)

end
