(* ===== verification/Known_Races.thy ===== *)
theory Known_Races
  imports Pool_Manager
begin

text \<open>
  Three behaviours of the code that its comments rule out: an assembly that stops the agent it has
  just started, a teardown that stops an agent another procedure is starting, and a pool that grows
  past the model's ceiling. Each is stated for every swarm in which its conditions hold; the
  witnesses run the model's segments on concrete swarms, in an order the event loop allows.
\<close>

definition dead_entry :: "string \<Rightarrow> string \<Rightarrow> string \<Rightarrow> pooled_pipeline" where
  "dead_entry pid lid ep =
     \<lparr>pipelineId = pid, driverNodeId = ''http://h1:7000'', computeNodeIds = [''http://b''],
      entry_launcherId = lid, entry_launcherEndpoint = Some ep, entry_state = Failed, lastUsedAt = 0\<rparr>"

text \<open>The swarm with one failed pipeline, on the machine \<open>http://h1\<close> under the launcher id \<open>lid\<close>.\<close>

definition swarm_with_dead :: "string \<Rightarrow> coordinator" where
  "swarm_with_dead lid = example_swarm\<lparr>co_tracker := add_entry ''m1'' (dead_entry ''p0'' lid ''http://h1'') new_pipeline_tracker\<rparr>"

text \<open>The swarm with a third launcher, idle, and enough demand for two pipelines of the second model.\<close>

definition busy_swarm :: coordinator where
  "busy_swarm = example_swarm\<lparr>
     co_launchers := snd (register_launcher ''http://h3'' [''m1'', ''m2''] 7000 ''l3'' 0 example_launchers),
     co_demand := fold (\<lambda>t. record_request ''m2'' t) [1, 2, 3, 4, 5, 6, 7, 8, 9, 10, 11] new_demand_tracker\<rparr>"

text \<open>
  The pool manager's plan for that swarm, carried out while requests come in: the first assembly
  waits for its launcher, and a request cold-starts the first model on the second launcher. The
  state is the one in which the plan's third claim is due.
\<close>

definition stale_plan :: "pipeline_claim list" where
  "stale_plan =
     (let (snaps, st) = take_snapshots example_config 20 [''m1'', ''m2''] busy_swarm
      in fst (make_plan example_config 20 snaps st))"

definition stale_moment :: coordinator where
  "stale_moment =
     (let (snaps, st) = take_snapshots example_config 20 [''m1'', ''m2''] busy_swarm;
          st = snd (make_plan example_config 20 snaps st);
          (first, st, k) = try_assemble_begin example_config ''m2'' (claim_launcher (stale_plan ! 0)) 20 ''r1'' (\<lambda>_. 0) 0 st;
          (second, st, k) = cold_begin example_config ''m1'' 21 ''r2'' (\<lambda>_. 0) 0 st
      in case first of
           Reserved a \<Rightarrow> snd (try_assemble_ok example_config a ''p1'' 22 st)
         | _ \<Rightarrow> st)"

subsection \<open>A cold start that is accepted\<close>

lemma cold_begin_launchers:
  "set (launchers (co_launchers (fst (snd (cold_begin cfg m now u rnd k st))))) \<subseteq> set (launchers (co_launchers st))"
  by (auto simp: cold_begin_def Let_def case_prod_beta list_for_model_def list_launchers_eq
      split: option.splits if_splits)

lemma stop_unregistered:
  assumes "\<forall>(k, l) \<in> set (launchers (co_launchers st)). launcherId l \<noteq> lid" and "ep \<noteq> []"
  shows "fst (stop_launcher_pipeline lid (Some ep) now st) = Some (DeletePipeline (ep @ ''/pipeline''))"
proof -
  have "find (\<lambda>l. launcherId l = lid) (fst (list_launchers now (co_launchers st))) = None"
    using assms(1) by (auto simp: find_None_iff list_launchers_eq launcher_info.truncate_def)
  then show ?thesis using assms(2) by (simp add: stop_launcher_pipeline_def case_prod_beta Let_def)
qed

lemma cold_start_accepted:
  assumes b: "cold_begin cfg m now u rnd k st = (Reserved a, st1, k1)"
    and ok: "reply (pipeline_call (assembly.truncate a)) = FetchOk"
  obtains nid st2 where "co_launchers st2 = co_launchers st1" and "co_tracker st2 = co_tracker st1"
    and "assemble_pipeline cfg reply m now now' now'' u u' rnd k st =
      (True, pipeline_call (assembly.truncate a) # (case fst (cold_stop a now' st2) of None \<Rightarrow> [] | Some c \<Rightarrow> [c]),
       cold_commit a nid u' now'' (snd (cold_stop a now' st2)), k1)"
proof -
  from cold_begin_sound [OF b] obtain drv where drv: "launcher_driver cfg (asm_launcher a) = Some drv"
    by (auto simp: sound_choice_def)
  obtain nid st2 where reg: "register_driver cfg drv (asm_model a) now' st1 = (nid, st2)" by force
  then have "cold_register cfg a now' st1 = (Some nid, st2)" using drv by (simp add: cold_register_def)
  then have "assemble_pipeline cfg reply m now now' now'' u u' rnd k st =
      (True, pipeline_call (assembly.truncate a) # (case fst (cold_stop a now' st2) of None \<Rightarrow> [] | Some c \<Rightarrow> [c]),
       cold_commit a nid u' now'' (snd (cold_stop a now' st2)), k1)"
    using b ok by (simp add: assemble_pipeline_def case_prod_beta Let_def)
  moreover have "co_launchers st2 = co_launchers st1" "co_tracker st2 = co_tracker st1"
    using reg by (auto simp: register_driver_def case_prod_beta)
  ultimately show thesis using that by blast
qed

subsection \<open>Properties\<close>

text \<open>
  C38: A cold start can stop its own agent. Suppose the first entry of the model's pool was started by
  a launcher that has since registered again, at the same endpoint and under a new id, so that the
  old id is registered no more, and the cold start chooses that launcher. If the launcher accepts,
  then because the ids differ the cold start stops ``the other'' launcher: the two calls are
  \<open>POST\<close> and \<open>DELETE\<close> to one endpoint, in this order, and the pool keeps a warm entry for the
  agent that the second call stopped.
\<close>

theorem cold_start_stops_its_own_agent:
  assumes b: "cold_begin cfg m now u rnd k st = (Reserved a, st1, k1)"
    and e: "first_entry st m = Some e" "entry_launcherId e \<noteq> launcherId (asm_launcher a)"
    and ep: "entry_launcherEndpoint e = Some ep" "launcher_endpoint (asm_launcher a) = ep" "ep \<noteq> []"
    and gone: "\<forall>(k, l) \<in> set (launchers (co_launchers st)). launcherId l \<noteq> entry_launcherId e"
    and ok: "reply (pipeline_call (assembly.truncate a)) = FetchOk"
  shows "case assemble_pipeline cfg reply m now now' now'' u u' rnd k st of (done, calls, st', k') \<Rightarrow>
    calls = [pipeline_call (assembly.truncate a), DeletePipeline (ep @ ''/pipeline'')] \<and>
    call_url (pipeline_call (assembly.truncate a)) = ep @ ''/pipeline'' \<and>
    (\<exists>x \<in> set (get_pool (co_tracker st') m).
       pipelineId x = u' \<and> entry_state x = Warm \<and> entry_launcherEndpoint x = Some ep)"
proof -
  note a = cold_begin_Reserved [OF b]
  obtain nid st2 where st2: "co_launchers st2 = co_launchers st1" and run: "assemble_pipeline cfg reply m now now' now'' u u' rnd k st =
      (True, pipeline_call (assembly.truncate a) # (case fst (cold_stop a now' st2) of None \<Rightarrow> [] | Some c \<Rightarrow> [c]),
       cold_commit a nid u' now'' (snd (cold_stop a now' st2)), k1)"
    using cold_start_accepted [where reply = reply, OF b ok] by blast
  have "\<forall>(k, l) \<in> set (launchers (co_launchers st2)). launcherId l \<noteq> entry_launcherId e"
    using gone cold_begin_launchers [of cfg m now u rnd k st] b st2 by auto
  then have "fst (cold_stop a now' st2) = Some (DeletePipeline (ep @ ''/pipeline''))"
    using a(3) e ep by (simp add: cold_stop_def must_stop_tracked_def stop_unregistered)
  moreover have "warm_entry u' nid (assembly.truncate a) now'' \<in>
      set (get_pool (co_tracker (cold_commit a nid u' now'' (snd (cold_stop a now' st2)))) m)"
    using a(1) by (simp add: cold_commit_def Let_def pool_simps)
  then have "\<exists>x \<in> set (get_pool (co_tracker (cold_commit a nid u' now'' (snd (cold_stop a now' st2)))) m).
       pipelineId x = u' \<and> entry_state x = Warm \<and> entry_launcherEndpoint x = Some ep"
    by (rule rev_bexI) (simp add: warm_entry_def assembly.truncate_def ep)
  ultimately show ?thesis unfolding run using ep by (simp add: pipeline_call_def assembly.truncate_def)
qed

theorem cold_start_stops_its_own_agent_witness:
  "case assemble_pipeline example_config (\<lambda>_. FetchOk) ''m1'' 10 20 30 ''r1'' ''p1'' (\<lambda>_. 0) 0 (swarm_with_dead ''l0'') of
     (done, calls, st, k) \<Rightarrow>
       map call_url calls = [''http://h1/pipeline'', ''http://h1/pipeline''] \<and> calls ! 1 = DeletePipeline ''http://h1/pipeline'' \<and>
       (\<exists>x \<in> set (get_pool (co_tracker st) ''m1''). pipelineId x = ''p1'' \<and> entry_state x = Warm)"
proof -
  let ?st = "swarm_with_dead ''l0''"
  have "case cold_begin example_config ''m1'' 10 ''r1'' (\<lambda>_. 0) 0 ?st of
      (Reserved a, st1, k1) \<Rightarrow> launcherId (asm_launcher a) = ''l1'' \<and> launcher_endpoint (asm_launcher a) = ''http://h1''
    | _ \<Rightarrow> False" by code_simp
  then obtain a st1 k1 where b: "cold_begin example_config ''m1'' 10 ''r1'' (\<lambda>_. 0) 0 ?st = (Reserved a, st1, k1)"
    and l: "launcherId (asm_launcher a) = ''l1''" "launcher_endpoint (asm_launcher a) = ''http://h1''"
    by (auto split: prod.splits begin_result.splits)
  have e: "first_entry ?st ''m1'' = Some (dead_entry ''p0'' ''l0'' ''http://h1'')"
    and gone: "\<forall>(k, l) \<in> set (launchers (co_launchers ?st)). launcherId l \<noteq> ''l0''" by code_simp+
  from cold_start_stops_its_own_agent [OF b e, where ep = "''http://h1''" and reply = "\<lambda>_. FetchOk" and now' = 20
      and now'' = 30 and u' = "''p1''"] l gone
  show ?thesis by (auto simp: dead_entry_def case_prod_beta)
qed

text \<open>
  C39: A teardown can stop the agent of a cold start in flight. While the cold start that replaces a
  failed entry waits for the launcher's answer to its \<open>POST\<close>, a reconciliation tick tears the
  failed entry down. If the cold start has chosen the machine the failed entry ran on, one of the
  calls of the tick is a \<open>DELETE\<close> to the very URL of the open \<open>POST\<close>; the reservation that was to
  protect the machine is in the pool all the while.
\<close>

theorem teardown_stops_agent_being_started:
  assumes b: "cold_begin cfg m now u rnd k st = (Reserved a, st1, k1)" and p: "ps_co p = st1"
    and e: "first_entry st m = Some e" "entry_state e = Failed"
    and ep: "entry_launcherEndpoint e = Some (launcher_endpoint (asm_launcher a))"
      "launchers_at (co_launchers st1) (entry_launcherId e) \<subseteq> {launcher_endpoint (asm_launcher a)}"
    and wf: "nodes_wf sha256 (co_nodes st1)" and tmo: "0 \<le> node_timeoutMs (co_nodes st1)"
    and ids: "\<And>m. ids_distinct (get_pool (co_tracker st1) m)" and ms: "distinct ms" "m \<in> set ms"
    and eps: "\<forall>m \<in> set ms. \<forall>e \<in> set (get_pool (co_tracker st1) m). \<exists>ep. entry_launcherEndpoint e = Some ep \<and> ep \<noteq> []"
    and lrs: "\<forall>(k, l) \<in> set (launchers (co_launchers st1)). launcher_endpoint l \<noteq> []"
  shows "DeletePipeline (call_url (pipeline_call (assembly.truncate a))) \<in> set (ps_calls (health_check cfg w ms p)) \<and>
    reservation_entry u (asm_launcher a) now \<in> set (get_pool (co_tracker (ps_co (health_check cfg w ms p))) m)"
proof
  note a = cold_begin_Reserved [OF b]
  let ?r = "reservation_entry u (asm_launcher a) now" and ?now = "w_clock w (ps_awaits p)"
  have pool: "get_pool (co_tracker st1) m = get_pool (co_tracker st) m @ [?r]" using a(7) by (simp add: pool_simps)
  have "e \<in> set (get_pool (co_tracker st) m)" using e(1) by (auto simp: first_entry_def split: list.splits)
  then have mem: "e \<in> set (concat (map (\<lambda>m. filter (reaped cfg st1 ?now) (get_pool (co_tracker st1) m)) ms))"
    using ms(2) pool e(2) by (auto simp: reaped_def intro!: bexI [of _ m])
  obtain calls where calls: "ps_calls (health_check cfg w ms p) = ps_calls p @ calls"
    and all: "list_all2 (stops (co_launchers st1))
      (concat (map (\<lambda>m. filter (reaped cfg st1 ?now) (get_pool (co_tracker st1) m)) ms)) calls"
    using health_check_calls [of sha256 p ms cfg w] wf tmo ms(1) eps lrs unfolding p by blast
  from mem all obtain c where c: "c \<in> set calls" "stops (co_launchers st1) e c"
    by (metis in_set_conv_nth list_all2_conv_all_nth)
  then have "c = DeletePipeline (launcher_endpoint (asm_launcher a) @ ''/pipeline'')" using ep by (auto simp: stops_def)
  with c(1) calls show "DeletePipeline (call_url (pipeline_call (assembly.truncate a))) \<in> set (ps_calls (health_check cfg w ms p))"
    by (simp add: pipeline_call_def assembly.truncate_def)
  show "?r \<in> set (get_pool (co_tracker (ps_co (health_check cfg w ms p))) m)"
    using health_check_pools [of sha256 p cfg w ms m] wf tmo ids ms(2) pool unfolding p by (simp add: reaped_def)
qed

text \<open>The example's cold start, seen while it waits.\<close>

definition waiting_swarm :: coordinator where
  "waiting_swarm = fst (snd (cold_begin example_config ''m1'' 10 ''r1'' (\<lambda>_. 0) 0 (swarm_with_dead ''l1'')))"

lemma waiting_swarm_facts:
  "get_pool (co_tracker waiting_swarm) ''m1'' =
     [dead_entry ''p0'' ''l1'' ''http://h1'', reservation_entry ''r1'' (example_launcher ''l1'' ''h1'') 10]"
  "map fst (co_tracker waiting_swarm) = [''m1'']"
  "nodes_wf id (co_nodes waiting_swarm)" "0 \<le> node_timeoutMs (co_nodes waiting_swarm)"
  "map (\<lambda>(k, l). (launcherId l, launcher_endpoint l)) (launchers (co_launchers waiting_swarm)) =
     [(''l1'', ''http://h1''), (''l2'', ''http://h2'')]"
  by code_simp+

lemma waiting_swarm_ids: "ids_distinct (get_pool (co_tracker waiting_swarm) m)"
proof -
  have "map_get (co_tracker waiting_swarm) = [''m1'' \<mapsto> get_pool (co_tracker waiting_swarm) ''m1'']"
    using waiting_swarm_facts(2) by (auto simp: map_eq_Cons_conv get_pool_def fun_eq_iff)
  then show ?thesis by (auto simp: get_pool_def [of _ m] waiting_swarm_facts(1) dead_entry_def)
qed

theorem teardown_stops_agent_being_started_witness:
  "DeletePipeline ''http://h1/pipeline'' \<in> set (ps_calls (health_check example_config example_world [''m1''] (pass_of waiting_swarm)))"
proof -
  let ?st = "swarm_with_dead ''l1''" and ?p = "pass_of waiting_swarm"
  have "case fst (cold_begin example_config ''m1'' 10 ''r1'' (\<lambda>_. 0) 0 ?st) of
      Reserved a \<Rightarrow> launcher_endpoint (asm_launcher a) = ''http://h1'' | _ \<Rightarrow> False" by code_simp
  then obtain a where a: "fst (cold_begin example_config ''m1'' 10 ''r1'' (\<lambda>_. 0) 0 ?st) = Reserved a"
    and l: "launcher_endpoint (asm_launcher a) = ''http://h1''" by (simp only: split: begin_result.splits)
  obtain k1 where b: "cold_begin example_config ''m1'' 10 ''r1'' (\<lambda>_. 0) 0 ?st = (Reserved a, waiting_swarm, k1)"
    unfolding waiting_swarm_def a [symmetric] by (metis prod.collapse)
  have e: "first_entry ?st ''m1'' = Some (dead_entry ''p0'' ''l1'' ''http://h1'')"
    "entry_state (dead_entry ''p0'' ''l1'' ''http://h1'') = Failed" by code_simp+
  have listed: "(k, x) \<in> set (launchers (co_launchers waiting_swarm)) \<Longrightarrow>
      (launcherId x, launcher_endpoint x) \<in> {(''l1'', ''http://h1''), (''l2'', ''http://h2'')}" for k x
  proof -
    assume "(k, x) \<in> set (launchers (co_launchers waiting_swarm))"
    from imageI [OF this, of "\<lambda>(k, l). (launcherId l, launcher_endpoint l)"]
    have "(launcherId x, launcher_endpoint x) \<in>
        set (map (\<lambda>(k, l). (launcherId l, launcher_endpoint l)) (launchers (co_launchers waiting_swarm)))" by simp
    then show ?thesis unfolding waiting_swarm_facts(5) by simp
  qed
  have ep: "entry_launcherEndpoint (dead_entry ''p0'' ''l1'' ''http://h1'') = Some (launcher_endpoint (asm_launcher a))"
    "launchers_at (co_launchers waiting_swarm) (entry_launcherId (dead_entry ''p0'' ''l1'' ''http://h1'')) \<subseteq> {launcher_endpoint (asm_launcher a)}"
    using l listed by (force simp: dead_entry_def launchers_at_def)+
  have eps: "\<forall>m \<in> set [''m1'']. \<forall>e \<in> set (get_pool (co_tracker waiting_swarm) m).
      \<exists>ep. entry_launcherEndpoint e = Some ep \<and> ep \<noteq> []"
    by (simp add: waiting_swarm_facts(1) dead_entry_def reservation_entry_def example_launcher_def)
  have lrs: "\<forall>(k, l) \<in> set (launchers (co_launchers waiting_swarm)). launcher_endpoint l \<noteq> []" using listed by fastforce
  have p: "ps_co ?p = waiting_swarm" by (simp add: pass_of_def)
  from teardown_stops_agent_being_started [OF b p e ep waiting_swarm_facts(3,4) waiting_swarm_ids _ _ eps lrs] l
  show ?thesis by (simp add: pipeline_call_def assembly.truncate_def)
qed

text \<open>
  C40: The pool manager can push a pool past its ceiling. When it carries out a claim of its plan, it
  checks the launcher again but not the count: whatever the size of the model's pool, an unclaimed
  launcher whose driver is trusted, enough active nodes and a positive answer are all it takes for one
  more pipeline. So a pool that has reached its ceiling since the plan was made ends up above it.
\<close>

theorem stale_plan_exceeds_ceiling:
  assumes full: "max_pipelines (cfg_catalog cfg) (claim_modelId c) \<le> int (length (get_pool (co_tracker (ps_co p)) (claim_modelId c)))"
    and free: "\<not> is_launcher_claimed (claimed_launcher_ids (cfg_catalog cfg) (co_tracker (ps_co p)) None) (claim_launcher c)"
    and drv: "launcher_driver cfg (claim_launcher c) = Some drv"
      "is_trusted (co_reputation (ps_co p)) (stable_node_id (cfg_sha256 cfg) drv)"
    and nodes: "required_node_count (cfg_catalog cfg) (claim_modelId c)
      \<le> int (length (fst (list_active (Some (co_reputation (ps_co p))) (w_clock w (ps_awaits p)) (co_nodes (ps_co p)))))"
    and ok: "\<And>x. w_reply w (ps_awaits p) x = FetchOk"
  shows "int (length (get_pool (co_tracker (ps_co (snd (carry_out cfg w [c] {} p)))) (claim_modelId c))) =
      int (length (get_pool (co_tracker (ps_co p)) (claim_modelId c))) + 1 \<and>
    max_pipelines (cfg_catalog cfg) (claim_modelId c) <
      int (length (get_pool (co_tracker (ps_co (snd (carry_out cfg w [c] {} p)))) (claim_modelId c)))"
proof -
  let ?m = "claim_modelId c" and ?st = "ps_co p" and ?now = "w_clock w (ps_awaits p)" and ?u = "w_uuid w (ps_uuids p)"
  let ?sel = "select_pipeline (fst (list_active (Some (co_reputation ?st)) ?now (co_nodes ?st)))
    (co_reputation ?st) (required_node_count (cfg_catalog cfg) ?m) (w_random w) (ps_draws p)"
  from nodes obtain sel where sel: "fst ?sel = Some sel" using select_pipeline_None by fastforce
  obtain a st1 k1 where b: "try_assemble_begin cfg ?m (claim_launcher c) ?now ?u (w_random w) (ps_draws p) ?st = (Reserved a, st1, k1)"
    using sel drv free by (simp add: try_assemble_begin_def case_prod_beta Let_def)
  note a = try_assemble_begin_Reserved [OF b]
  let ?after = "snd (register_driver cfg drv ?m (w_clock w (Suc (ps_awaits p))) st1)"
  let ?e = "warm_entry (w_uuid w (Suc (ps_uuids p))) (fst (register_driver cfg drv ?m (w_clock w (Suc (ps_awaits p))) st1)) a (w_clock w (Suc (ps_awaits p)))"
  have "co_tracker (ps_co (snd (carry_out cfg w [c] {} p))) = add_entry ?m ?e (remove_entry ?m ?u (co_tracker ?after))"
    using b ok drv(1) a(1-3) by (simp add: try_assemble_def try_assemble_ok_def case_prod_beta Let_def)
  then have "length (get_pool (co_tracker (ps_co (snd (carry_out cfg w [c] {} p)))) ?m) = length (get_pool (co_tracker ?st) ?m) + 1"
    using a(5) register_keeps_pool by (simp add: pool_simps length_remove_first)
  with full show ?thesis by simp
qed

text \<open>
  The example: the plan gives the first two launchers to the second model and the third to the first
  model, whose ceiling is 1. The cold start that came in between holds the second launcher, so the
  plan's claim of it is refused; the claim of the third is carried out.
\<close>

lemma stale_run:
  "map (\<lambda>c. (claim_modelId c, launcherId (claim_launcher c))) stale_plan = [(''m2'', ''l1''), (''m2'', ''l2''), (''m1'', ''l3'')] \<and>
   map entry_state (get_pool (co_tracker (ps_co (snd (carry_out example_config example_world (drop 1 stale_plan) {}
     (pass_of stale_moment))))) ''m1'') = [Assembling, Warm]"
  by code_simp

theorem stale_plan_exceeds_ceiling_witness:
  "max_pipelines (cfg_catalog example_config) ''m1'' = 1 \<and>
   length (get_pool (co_tracker (ps_co (snd (carry_out example_config example_world [stale_plan ! 2] {}
     (pass_of stale_moment))))) ''m1'') = 2"
proof -
  let ?c = "stale_plan ! 2" and ?p = "pass_of stale_moment"
  have c: "claim_modelId ?c = ''m1''" by code_simp
  have one: "max_pipelines (cfg_catalog example_config) ''m1'' = 1" by code_simp
  have pool: "length (get_pool (co_tracker (ps_co ?p)) ''m1'') = 1" by code_simp
  have free: "\<not> is_launcher_claimed (claimed_launcher_ids (cfg_catalog example_config) (co_tracker (ps_co ?p)) None) (claim_launcher ?c)"
    by code_simp
  have drv: "launcher_driver example_config (claim_launcher ?c) = Some ''http://h3:7000''" by code_simp
  have trusted: "is_trusted (co_reputation (ps_co ?p)) (stable_node_id (cfg_sha256 example_config) ''http://h3:7000'')"
    by code_simp
  have nodes: "required_node_count (cfg_catalog example_config) (claim_modelId ?c)
      \<le> int (length (fst (list_active (Some (co_reputation (ps_co ?p))) (w_clock example_world (ps_awaits ?p)) (co_nodes (ps_co ?p)))))"
    by code_simp
  have full: "max_pipelines (cfg_catalog example_config) (claim_modelId ?c) \<le> int (length (get_pool (co_tracker (ps_co ?p)) (claim_modelId ?c)))"
    by (simp add: c one pool)
  have ok: "w_reply example_world (ps_awaits ?p) x = FetchOk" for x by (simp add: example_world_def)
  from stale_plan_exceeds_ceiling [OF full free drv trusted nodes ok] show ?thesis by (simp add: c one pool)
qed

end
