(* ===== verification/Json.thy ===== *)
theory Json
  imports Js_Strings
begin

text \<open>
  JSON values as the code handles them: what \<open>JSON.parse\<close> yields and what \<open>JSON.stringify\<close>
  serialises. The type of the strings in a value is a parameter, because the HTTP handlers only
  compare and copy strings while the safety rules look at their UTF-16 code units; the names of
  properties are ASCII. \<open>field k v\<close> is the property read \<open>v.k\<close> on a value that is not null; reading a
  property of a primitive or of an array yields \<open>undefined\<close> for every name the code uses.

  \<open>js_string\<close> is \<open>String(v)\<close>, which throws on an object whose own \<open>toString\<close> is not callable, and
  \<open>json_text\<close> is \<open>JSON.stringify(v)\<close>. The decimal form of a number is a parameter of both. The
  lemma \<open>json_text_no_newline\<close> is what makes JSON safe inside a frame of an event stream.
\<close>

datatype 's json_value =
  JNull
| JBool bool
| JNum number
| JStr 's
| JArr "'s json_value list"
| JObj "(string \<times> 's json_value) list"

type_synonym json = "string json_value"

text \<open>The checks \<open>typeof v === "object" && v !== null\<close> and \<open>Array.isArray(v)\<close>.\<close>

fun is_object :: "'s json_value \<Rightarrow> bool" where
  "is_object (JObj _) = True"
| "is_object (JArr _) = True"
| "is_object _ = False"

fun is_array :: "'s json_value \<Rightarrow> bool" where
  "is_array (JArr _) = True"
| "is_array _ = False"

fun field :: "string \<Rightarrow> 's json_value \<Rightarrow> 's json_value option" where
  "field k (JObj kvs) = map_of kvs k"
| "field k _ = None"

text \<open>The property read \<open>v.k\<close> where \<open>v\<close> may be null, which throws.\<close>

fun read_field :: "string \<Rightarrow> 's json_value \<Rightarrow> 's json_value option option" where
  "read_field k JNull = None"
| "read_field k v = Some (field k v)"

subsection \<open>String(v)\<close>

fun js_string :: "(number \<Rightarrow> string) \<Rightarrow> json \<Rightarrow> string option" where
  "js_string show JNull = Some ''null''"
| "js_string show (JBool b) = Some (if b then ''true'' else ''false'')"
| "js_string show (JNum n) = Some (show n)"
| "js_string show (JStr s) = Some s"
| "js_string show (JArr vs) =
     map_option (join '','') (those (map (\<lambda>v. if v = JNull then Some [] else js_string show v) vs))"
| "js_string show (JObj kvs) = (if ''toString'' \<in> fst ` set kvs then None else Some ''[object Object]'')"

text \<open>The same for a value that may be \<open>undefined\<close>.\<close>

fun js_string_of :: "(number \<Rightarrow> string) \<Rightarrow> json option \<Rightarrow> string option" where
  "js_string_of show None = Some ''undefined''"
| "js_string_of show (Some v) = js_string show v"

subsection \<open>JSON.stringify(v)\<close>

definition escape_char :: "char \<Rightarrow> string" where
  "escape_char c =
     (if c = CHR 0x22 then [CHR 0x5C, CHR 0x22]
      else if c = CHR 0x5C then [CHR 0x5C, CHR 0x5C]
      else if c = CHR 0x08 then [CHR 0x5C, CHR ''b'']
      else if c = CHR 0x09 then [CHR 0x5C, CHR ''t'']
      else if c = CHR 0x0A then [CHR 0x5C, CHR ''n'']
      else if c = CHR 0x0C then [CHR 0x5C, CHR ''f'']
      else if c = CHR 0x0D then [CHR 0x5C, CHR ''r'']
      else if (of_char c :: nat) < 32
      then [CHR 0x5C, CHR ''u'', CHR ''0'', CHR ''0'', ''0123456789abcdef'' ! (of_char c div 16),
            ''0123456789abcdef'' ! (of_char c mod 16)]
      else [c])"

definition quote_string :: "string \<Rightarrow> string" where
  "quote_string s = [CHR 0x22] @ concat (map escape_char s) @ [CHR 0x22]"

fun json_text :: "(number \<Rightarrow> string) \<Rightarrow> json \<Rightarrow> string" where
  "json_text show JNull = ''null''"
| "json_text show (JBool b) = (if b then ''true'' else ''false'')"
| "json_text show (JNum n) = (if is_finite n then show n else ''null'')"
| "json_text show (JStr s) = quote_string s"
| "json_text show (JArr vs) = ''['' @ join '','' (map (json_text show) vs) @ '']''"
| "json_text show (JObj kvs) =
     ''{'' @ join '','' (map (\<lambda>(k, v). quote_string k @ '':'' @ json_text show v) kvs) @ ''}''"

lemma set_join: "set (join sep xs) \<subseteq> \<Union> (set ` set xs) \<union> set sep"
  by (induction sep xs rule: join.induct) auto

lemma hex_digit_not_newline: "i < 16 \<Longrightarrow> ''0123456789abcdef'' ! i \<noteq> CHR 0x0A"
proof -
  assume "i < 16"
  then have "''0123456789abcdef'' ! i \<in> set ''0123456789abcdef''" by (intro nth_mem) simp
  then show ?thesis by auto
qed

lemma escape_char_no_newline: "CHR 0x0A \<notin> set (escape_char c)"
proof -
  have "(of_char c :: nat) div 16 < 16" by (simp add: div_less_iff_less_mult)
  then show ?thesis
    using hex_digit_not_newline [of "of_char c div 16"] hex_digit_not_newline [of "of_char c mod 16"]
    by (auto simp: escape_char_def)
qed

lemma quote_string_no_newline: "CHR 0x0A \<notin> set (quote_string s)"
  using escape_char_no_newline by (auto simp: quote_string_def)

lemma json_text_no_newline:
  assumes "\<And>n. CHR 0x0A \<notin> set (show n)"
  shows "CHR 0x0A \<notin> set (json_text show v)"
proof (induction v)
  case (JArr vs)
  then show ?case using set_join [of "'',''" "map (json_text show) vs"] by auto
next
  case (JObj kvs)
  let ?ms = "map (\<lambda>(k, v). quote_string k @ '':'' @ json_text show v) kvs"
  have "CHR 0x0A \<notin> set m" if "m \<in> set ?ms" for m
  proof -
    from that obtain k v where kv: "(k, v) \<in> set kvs" and m: "m = quote_string k @ '':'' @ json_text show v"
      by auto
    from JObj [OF kv, of v] show ?thesis using quote_string_no_newline by (simp add: m)
  qed
  moreover have "CHR 0x0A \<notin> set '',''" by simp
  ultimately have "CHR 0x0A \<notin> set (join '','' ?ms)" using set_join [of "'',''" ?ms] by blast
  then show ?case by simp
qed (use assms quote_string_no_newline in auto)

end
