(* ===== verification/Http_Messages.thy ===== *)
theory Http_Messages
  imports Json Request_Routing
begin

text \<open>
  Requests, responses and the world around a request handler of \<^verbatim>\<open>coordinator/src/server.ts\<close>.

  A handler runs from one await to the next without interruption; between its awaits other
  handlers and the pool manager run. The world therefore holds, beside the parameters of the model
  (configuration, token, classifier, the answers of nodes, peers and launchers, the static files,
  JSON and number texts), the clock after each await and \<open>hw_others\<close>, an arbitrary change of
  the server's state at each await. A handler maps the request and the state at its start to a
  response, the outgoing HTTP calls in order, and the state at its end.

  Request bodies arrive parsed or as one of the failures \<open>readJsonBody\<close> distinguishes; an empty body
  is the empty object. Names and tokens are strings of code units below 256, as Node.js delivers
  header values; \<open>Buffer.from\<close> encodes them in UTF-8 (\<open>utf8\<close>).
\<close>

datatype request_body = StreamError | InvalidJson | EmptyBody | JsonBody json

record request =
  rq_method :: "string option"
  rq_pathname :: "string option"
  rq_authorization :: "string option"
  rq_body :: request_body

datatype payload = NoPayload | JsonPayload json | FilePayload string | StreamPayload "string list"

record response =
  rs_status :: int
  rs_headers :: "(string \<times> string) list"
  rs_payload :: payload

text \<open>What a node answers to \<open>POST /complete\<close>: status, content type, the body as JSON, and the body as a stream.\<close>

record node_reply =
  nr_status :: int
  nr_contentType :: "string option"
  nr_json :: "json option"
  nr_stream :: "(string list \<times> bool) option"

datatype node_answer = NodeThrew | NodeReplied node_reply

datatype peer_answer = PeerThrew | PeerReplied int "json option"

text \<open>How the promise of \<open>classify\<close> settles: after so many milliseconds with a value or an error, or never.\<close>

datatype settlement = Resolves int "json option" | Rejects int | Never

text \<open>The body of a call to a node.\<close>

record completion =
  cp_prompt :: string
  cp_nPredict :: int
  cp_stream :: bool
  cp_includeUsage :: bool

datatype outgoing =
  GetCapacity (out_url: string) (out_authorization: string)
| PostComplete (out_url: string) (out_authorization: string) (out_completion: completion)
| ToLauncher launcher_call

record server_state =
  sv_co :: coordinator
  sv_inFlight :: "string list"
  sv_draws :: nat

text \<open>
  \<open>hw_joined_ok\<close> says whether a cold start that this request joins, rather than starts, fulfils its promise.
\<close>

record http_world =
  hw_config :: config
  hw_token :: string
  hw_clock :: "nat \<Rightarrow> time"
  hw_others :: "nat \<Rightarrow> server_state \<Rightarrow> server_state"
  hw_uuid :: "nat \<Rightarrow> string"
  hw_random :: "nat \<Rightarrow> rat"
  hw_classify :: "string \<Rightarrow> settlement"
  hw_node :: "string \<Rightarrow> completion \<Rightarrow> node_answer"
  hw_peer :: "string \<Rightarrow> peer_answer"
  hw_launcher :: "launcher_call \<Rightarrow> fetch_outcome"
  hw_joined_ok :: bool
  hw_file :: "string \<Rightarrow> string option"
  hw_document :: json
  hw_json_parse :: "string \<Rightarrow> json option"
  hw_show :: "number \<Rightarrow> string"

type_synonym result = "response \<times> outgoing list \<times> server_state"

text \<open>A check of a handler: the message of its error reply, or the value checked.\<close>

type_synonym 'a checked = "string + 'a"

fun bind_checked :: "'e + 'a \<Rightarrow> ('a \<Rightarrow> 'e + 'b) \<Rightarrow> 'e + 'b" where
  "bind_checked (Inl msg) f = Inl msg"
| "bind_checked (Inr v) f = f v"

named_theorems checked_iff \<open>when the checks of a handler succeed\<close>

lemma bind_checked_Inr [checked_iff]: "bind_checked c f = Inr w \<longleftrightarrow> (\<exists>v. c = Inr v \<and> f v = Inr w)"
  by (cases c) auto

subsection \<open>Replies\<close>

definition send_json :: "int \<Rightarrow> json \<Rightarrow> response" where
  "send_json status body =
     \<lparr>rs_status = status, rs_headers = [(''content-type'', ''application/json'')], rs_payload = JsonPayload body\<rparr>"

definition error_json :: "string \<Rightarrow> json" where
  "error_json msg = JObj [(''error'', JStr msg)]"

definition send_unauthorized :: response where
  "send_unauthorized =
     \<lparr>rs_status = 401,
      rs_headers = [(''content-type'', ''application/json''), (''www-authenticate'', ''Bearer'')],
      rs_payload = JsonPayload (error_json ''missing or invalid Authorization header'')\<rparr>"

definition send_status :: "int \<Rightarrow> response" where
  "send_status status = \<lparr>rs_status = status, rs_headers = [], rs_payload = NoPayload\<rparr>"

definition event_stream :: "string list \<Rightarrow> response" where
  "event_stream chunks =
     \<lparr>rs_status = 200, rs_headers = [(''content-type'', ''text/event-stream''), (''cache-control'', ''no-cache'')],
      rs_payload = StreamPayload chunks\<rparr>"

definition serve_static_file :: "http_world \<Rightarrow> string \<Rightarrow> string \<Rightarrow> response" where
  "serve_static_file w filename contentType =
     (case hw_file w filename of
        Some content \<Rightarrow> \<lparr>rs_status = 200, rs_headers = [(''content-type'', contentType)], rs_payload = FilePayload content\<rparr>
      | None \<Rightarrow> send_status 404)"

subsection \<open>Reading a request\<close>

datatype body_error = JsonParseError | BodyStreamError

fun read_json_body :: "request_body \<Rightarrow> body_error + json" where
  "read_json_body StreamError = Inl BodyStreamError"
| "read_json_body EmptyBody = Inr (JObj [])"
| "read_json_body InvalidJson = Inl JsonParseError"
| "read_json_body (JsonBody v) = Inr v"

text \<open>\<open>url.pathname.split("/").filter(Boolean)\<close>\<close>

definition path_parts :: "string \<Rightarrow> string list" where
  "path_parts pathname = filter (\<lambda>p. p \<noteq> []) (split ''/'' pathname)"

definition utf8 :: "string \<Rightarrow> nat list" where
  "utf8 s = concat (map (\<lambda>c. let n = of_char c in if n < 128 then [n] else [192 + n div 64, 128 + n mod 64]) s)"

definition bearer :: "string \<Rightarrow> string" where
  "bearer token = ''Bearer '' @ token"

definition is_authorized :: "string option \<Rightarrow> string \<Rightarrow> bool" where
  "is_authorized header authToken =
     (case header of
        None \<Rightarrow> False
      | Some h \<Rightarrow>
          if \<not> starts_with ''Bearer '' h then False
          else (let provided = utf8 (drop 7 h); expected = utf8 authToken
                in if length provided \<noteq> length expected then False else provided = expected))"

lemma utf8_inj: "utf8 s = utf8 t \<Longrightarrow> s = t"
proof (induction s arbitrary: t)
  case Nil
  then show ?case by (cases t) (auto simp: utf8_def Let_def split: if_splits)
next
  case (Cons c s)
  then obtain d t' where t: "t = d # t'" by (cases t) (auto simp: utf8_def Let_def split: if_splits)
  let ?b = "\<lambda>c. if (of_char c :: nat) < 128 then [of_char c] else [192 + of_char c div 64, 128 + of_char c mod 64]"
  have eq: "?b c @ utf8 s = ?b d @ utf8 t'" using Cons.prems by (simp add: t utf8_def Let_def)
  have high: "(of_char c :: nat) < 256" for c :: char by simp
  have "c = d \<and> utf8 s = utf8 t'"
    using eq high [of c] high [of d]
    by (auto split: if_splits) (metis div_mult_mod_eq of_char_eq_iff)
  with Cons.IH [of t'] t show ?case by simp
qed

lemma is_authorized_iff: "is_authorized header token \<longleftrightarrow> header = Some (bearer token)"
proof (cases header)
  case (Some h)
  have "utf8 (drop 7 h) = utf8 token \<longleftrightarrow> drop 7 h = token" using utf8_inj by blast
  moreover have "starts_with ''Bearer '' h \<and> drop 7 h = token \<longleftrightarrow> h = bearer token"
    by (auto simp: starts_with_iff bearer_def)
  ultimately show ?thesis using Some by (auto simp: is_authorized_def Let_def)
qed (simp add: is_authorized_def)

text \<open>\<open>res.ok\<close>\<close>

definition status_ok :: "int \<Rightarrow> bool" where
  "status_ok status \<longleftrightarrow> 200 \<le> status \<and> status \<le> 299"

subsection \<open>Bodies of handlers\<close>

text \<open>
  A handler that reads its body first, with the replies of the server's outermost \<open>catch\<close> for the
  two ways the reading fails.
\<close>

definition bad_json :: response where
  "bad_json = send_json 400 (error_json ''request body is not valid JSON'')"

definition internal_error :: response where
  "internal_error = send_json 500 (error_json ''internal server error'')"

definition with_body ::
  "http_world \<Rightarrow> request \<Rightarrow> server_state \<Rightarrow> (json \<Rightarrow> server_state \<Rightarrow> result) \<Rightarrow> result" where
  "with_body w rq st k =
     (case read_json_body (rq_body rq) of
        Inl JsonParseError \<Rightarrow> (bad_json, [], hw_others w 0 st)
      | Inl BodyStreamError \<Rightarrow> (internal_error, [], hw_others w 0 st)
      | Inr v \<Rightarrow> k v (hw_others w 0 st))"

definition checked_reply :: "'a checked \<Rightarrow> server_state \<Rightarrow> ('a \<Rightarrow> result) \<Rightarrow> result" where
  "checked_reply c st k = (case c of Inl msg \<Rightarrow> (send_json 400 (error_json msg), [], st) | Inr v \<Rightarrow> k v)"

definition json_object :: "json \<Rightarrow> json checked" where
  "json_object v = (if is_object v then Inr v else Inl ''request body must be a JSON object'')"

lemma with_body_cases:
  "with_body w rq st k = (bad_json, [], hw_others w 0 st) \<or> with_body w rq st k = (internal_error, [], hw_others w 0 st) \<or>
   (\<exists>v. read_json_body (rq_body rq) = Inr v \<and> with_body w rq st k = k v (hw_others w 0 st))"
  by (auto simp: with_body_def split: sum.split body_error.split)

definition on_co :: "(coordinator \<Rightarrow> coordinator) \<Rightarrow> server_state \<Rightarrow> server_state" where
  "on_co f st = st\<lparr>sv_co := f (sv_co st)\<rparr>"

lemma on_co_sel [simp]:
  "sv_co (on_co f st) = f (sv_co st)" "sv_inFlight (on_co f st) = sv_inFlight st" "sv_draws (on_co f st) = sv_draws st"
  by (simp_all add: on_co_def)

end
