(* ===== verification/Registry_Routes.thy ===== *)
theory Registry_Routes
  imports Http_Messages
begin

text \<open>
  The routes of \<^verbatim>\<open>coordinator/src/server.ts\<close> that read or change the registries and the reputation
  ledger: registration of nodes, peers and launchers with the validation of their bodies,
  heartbeats, reputation events, and the listings, with the federated capacity behind the catalog.
  Each body check is a function that names the reply's error message or returns the checked value;
  each route is a function from the request and the state to a \<open>result\<close>.
\<close>

subsection \<open>Validation\<close>

definition checked_endpoint :: "config \<Rightarrow> json \<Rightarrow> string checked" where
  "checked_endpoint cfg c =
     (case field ''endpoint'' c of
        Some (JStr e) \<Rightarrow>
          if e = [] then Inl ''endpoint must be a non-empty string''
          else (case cfg_parse_url cfg e of
                  None \<Rightarrow> Inl ''endpoint must be a valid URL''
                | Some u \<Rightarrow>
                    if url_protocol u \<noteq> ''http:'' \<and> url_protocol u \<noteq> ''https:''
                    then Inl ''endpoint must use http or https''
                    else Inr (strip_slash (url_href u)))
      | _ \<Rightarrow> Inl ''endpoint must be a non-empty string'')"

fun tier_of :: "string \<Rightarrow> device_tier option" where
  "tier_of s =
     (if s = ''desktop'' then Some Desktop else if s = ''android'' then Some Android
      else if s = ''ios'' then Some Ios else None)"

definition checked_tier :: "json \<Rightarrow> device_tier checked" where
  "checked_tier c =
     (case field ''deviceTier'' c of
        Some (JStr s) \<Rightarrow>
          (case tier_of s of
             Some t \<Rightarrow> Inr t
           | None \<Rightarrow> Inl ''deviceTier must be one of: desktop, android, ios'')
      | _ \<Rightarrow> Inl ''deviceTier must be one of: desktop, android, ios'')"

definition checked_locality :: "json \<Rightarrow> string option checked" where
  "checked_locality c =
     (case field ''localityGroup'' c of
        None \<Rightarrow> Inr None
      | Some (JStr s) \<Rightarrow>
          if s = [] then Inl ''localityGroup must be a non-empty string when provided'' else Inr (Some s)
      | Some _ \<Rightarrow> Inl ''localityGroup must be a non-empty string when provided'')"

definition checked_model :: "config \<Rightarrow> json \<Rightarrow> string option checked" where
  "checked_model cfg c =
     (case field ''servesModel'' c of
        None \<Rightarrow> Inr None
      | Some (JStr s) \<Rightarrow>
          if \<not> has_model (cfg_catalog cfg) s
          then Inl ''servesModel must be a known catalog model id when provided'' else Inr (Some s)
      | Some _ \<Rightarrow> Inl ''servesModel must be a known catalog model id when provided'')"

definition checked_memory :: "json \<Rightarrow> rat option checked" where
  "checked_memory c =
     (case field ''availableMemoryMb'' c of
        None \<Rightarrow> Inr None
      | Some (JNum n) \<Rightarrow>
          if \<not> is_finite n \<or> num_lt n 0
          then Inl ''availableMemoryMb must be a non-negative number when provided'' else Inr (Some (num_value n))
      | Some _ \<Rightarrow> Inl ''availableMemoryMb must be a non-negative number when provided'')"

record node_registration =
  nreg_endpoint :: string
  nreg_tier :: device_tier
  nreg_locality :: "string option"
  nreg_model :: "string option"
  nreg_memory :: "rat option"

definition checked_node :: "config \<Rightarrow> json \<Rightarrow> node_registration checked" where
  "checked_node cfg body =
     bind_checked (json_object body) (\<lambda>c.
     bind_checked (checked_endpoint cfg c) (\<lambda>endpoint.
     bind_checked (checked_tier c) (\<lambda>tier.
     bind_checked (checked_locality c) (\<lambda>locality.
     bind_checked (checked_model cfg c) (\<lambda>model.
     bind_checked (checked_memory c) (\<lambda>memory.
       Inr \<lparr>nreg_endpoint = endpoint, nreg_tier = tier, nreg_locality = locality, nreg_model = model,
            nreg_memory = memory\<rparr>))))))"

definition checked_peer :: "config \<Rightarrow> json \<Rightarrow> string checked" where
  "checked_peer cfg body = bind_checked (json_object body) (checked_endpoint cfg)"

fun string_value :: "json \<Rightarrow> string option" where
  "string_value (JStr s) = Some s"
| "string_value _ = None"

definition checked_models :: "json \<Rightarrow> string list checked" where
  "checked_models c =
     (case field ''servesModels'' c of
        Some (JArr vs) \<Rightarrow>
          (case those (map string_value vs) of
             Some ms \<Rightarrow> Inr ms
           | None \<Rightarrow> Inl ''servesModels must be an array of strings'')
      | _ \<Rightarrow> Inl ''servesModels must be an array of strings'')"

definition checked_port :: "json \<Rightarrow> int checked" where
  "checked_port c =
     (case field ''agentPort'' c of
        Some (JNum n) \<Rightarrow>
          if \<not> is_integer n \<or> num_lt n 1 then Inl ''agentPort must be a positive integer'' else Inr \<lfloor>num_value n\<rfloor>
      | _ \<Rightarrow> Inl ''agentPort must be a positive integer'')"

definition checked_launcher :: "config \<Rightarrow> json \<Rightarrow> (string \<times> string list \<times> int) checked" where
  "checked_launcher cfg body =
     bind_checked (json_object body) (\<lambda>c.
     bind_checked (checked_endpoint cfg c) (\<lambda>endpoint.
     bind_checked (checked_models c) (\<lambda>models.
     bind_checked (checked_port c) (\<lambda>port. Inr (endpoint, models, port)))))"

subsection \<open>Registration\<close>

definition post_nodes_register :: "http_world \<Rightarrow> request \<Rightarrow> server_state \<Rightarrow> result" where
  "post_nodes_register w rq st =
     with_body w rq st (\<lambda>body st.
       checked_reply (checked_node (hw_config w) body) st (\<lambda>r.
         let (nid, nr) = register_node (cfg_sha256 (hw_config w)) (nreg_endpoint r) (nreg_tier r)
                           (nreg_locality r) (nreg_model r) (nreg_memory r) (hw_clock w 0) (co_nodes (sv_co st))
         in (send_json 200 (JObj [(''nodeId'', JStr nid)]), [], on_co (co_nodes_update (\<lambda>_. nr)) st)))"

definition post_peers_register :: "http_world \<Rightarrow> request \<Rightarrow> server_state \<Rightarrow> result" where
  "post_peers_register w rq st =
     with_body w rq st (\<lambda>body st.
       checked_reply (checked_peer (hw_config w) body) st (\<lambda>endpoint.
         let (pid, pr) = register_peer endpoint (hw_uuid w 0) (hw_clock w 0) (co_peers (sv_co st))
         in (send_json 200 (JObj [(''peerId'', JStr pid)]), [], on_co (co_peers_update (\<lambda>_. pr)) st)))"

definition post_launchers_register :: "http_world \<Rightarrow> request \<Rightarrow> server_state \<Rightarrow> result" where
  "post_launchers_register w rq st =
     with_body w rq st (\<lambda>body st.
       checked_reply (checked_launcher (hw_config w) body) st (\<lambda>(endpoint, models, port).
         let (lid, lr) = register_launcher endpoint models port (hw_uuid w 0) (hw_clock w 0) (co_launchers (sv_co st))
         in (send_json 200 (JObj [(''launcherId'', JStr lid)]), [], on_co (co_launchers_update (\<lambda>_. lr)) st)))"

subsection \<open>Heartbeats, reputation and removal\<close>

definition found_reply :: "bool \<Rightarrow> response" where
  "found_reply ok = (if \<not> ok then send_status 404 else send_status 204)"

definition post_node_heartbeat :: "http_world \<Rightarrow> string \<Rightarrow> server_state \<Rightarrow> result" where
  "post_node_heartbeat w nid st =
     (let (ok, nr) = node_heartbeat nid (hw_clock w 0) (co_nodes (sv_co st))
      in (found_reply ok, [], on_co (co_nodes_update (\<lambda>_. nr)) st))"

definition post_launcher_heartbeat :: "http_world \<Rightarrow> string \<Rightarrow> server_state \<Rightarrow> result" where
  "post_launcher_heartbeat w lid st =
     (let (ok, lr) = launcher_heartbeat lid (hw_clock w 0) (co_launchers (sv_co st))
      in (found_reply ok, [], on_co (co_launchers_update (\<lambda>_. lr)) st))"

definition post_peer_heartbeat :: "http_world \<Rightarrow> string \<Rightarrow> server_state \<Rightarrow> result" where
  "post_peer_heartbeat w pid st =
     (let (ok, pr) = peer_heartbeat pid (hw_clock w 0) (co_peers (sv_co st))
      in (found_reply ok, [], on_co (co_peers_update (\<lambda>_. pr)) st))"

definition delete_peer :: "http_world \<Rightarrow> string \<Rightarrow> server_state \<Rightarrow> result" where
  "delete_peer w pid st =
     (let (ok, pr) = deregister_peer pid (co_peers (sv_co st))
      in (found_reply ok, [], on_co (co_peers_update (\<lambda>_. pr)) st))"

text \<open>Whether the unfiltered listing names a node, and the registry the listing leaves.\<close>

definition node_exists :: "http_world \<Rightarrow> string \<Rightarrow> server_state \<Rightarrow> bool \<times> server_state" where
  "node_exists w nid st =
     (let (active, nr) = list_active None (hw_clock w 0) (co_nodes (sv_co st))
      in (list_ex (\<lambda>n. nodeId n = nid) active, on_co (co_nodes_update (\<lambda>_. nr)) st))"

definition post_reputation :: "http_world \<Rightarrow> string \<Rightarrow> string \<Rightarrow> server_state \<Rightarrow> result" where
  "post_reputation w nid verdict st =
     (let (found, st) = node_exists w nid st
      in if \<not> found then (send_status 404, [], st)
         else (send_status 204, [],
               on_co (co_reputation_update (if verdict = ''agree'' then record_agreement nid else record_disagreement nid)) st))"

definition json_of_nat :: "nat \<Rightarrow> json" where
  "json_of_nat n = JNum (Fin (of_nat n))"

definition get_reputation :: "http_world \<Rightarrow> string \<Rightarrow> server_state \<Rightarrow> result" where
  "get_reputation w nid st =
     (let (found, st) = node_exists w nid st
      in if \<not> found then (send_status 404, [], st)
         else (let s = get_stats (co_reputation (sv_co st)) nid
               in (send_json 200 (JObj
                     [(''agreements'', json_of_nat (agreements s)), (''disagreements'', json_of_nat (disagreements s)),
                      (''trusted'', JBool (is_trusted (co_reputation (sv_co st)) nid))]), [], st)))"

subsection \<open>Listings\<close>

fun tier_text :: "device_tier \<Rightarrow> string" where
  "tier_text Desktop = ''desktop''"
| "tier_text Android = ''android''"
| "tier_text Ios = ''ios''"

text \<open>Serialisation drops the properties that are \<open>undefined\<close>.\<close>

definition optional_field :: "string \<Rightarrow> ('a \<Rightarrow> json) \<Rightarrow> 'a option \<Rightarrow> (string \<times> json) list" where
  "optional_field k f v = (case v of None \<Rightarrow> [] | Some x \<Rightarrow> [(k, f x)])"

definition node_json :: "node_info \<Rightarrow> json" where
  "node_json n = JObj
     ([(''nodeId'', JStr (nodeId n)), (''endpoint'', JStr (node_endpoint n)),
       (''deviceTier'', JStr (tier_text (deviceTier n)))] @
      optional_field ''localityGroup'' JStr (localityGroup n) @
      optional_field ''servesModel'' JStr (servesModel n) @
      optional_field ''availableMemoryMb'' (\<lambda>m. JNum (Fin m)) (availableMemoryMb n))"

definition peer_json :: "peer_info \<Rightarrow> json" where
  "peer_json p = JObj [(''peerId'', JStr (peerId p)), (''endpoint'', JStr (peer_endpoint p))]"

definition availability_json :: "catalog_entry \<times> bool \<Rightarrow> json" where
  "availability_json ea =
     (let e = fst ea
      in JObj
        ([(''id'', JStr (entry_id e)), (''displayName'', JStr (displayName e)),
          (''minActiveNodes'', JNum (Fin (minActiveNodes e)))] @
         optional_field ''requiredNodeCount'' (\<lambda>n. JNum (Fin (of_int n))) (entry_requiredNodeCount e) @
         optional_field ''maxPipelines'' JNum (entry_maxPipelines e) @
         [(''available'', JBool (snd ea))]))"

text \<open>The trusted active nodes, as the capacity-facing routes see them.\<close>

definition trusted_nodes :: "http_world \<Rightarrow> nat \<Rightarrow> server_state \<Rightarrow> node_info list \<times> server_state" where
  "trusted_nodes w i st =
     (let (active, nr) = list_active (Some (co_reputation (sv_co st))) (hw_clock w i) (co_nodes (sv_co st))
      in (active, on_co (co_nodes_update (\<lambda>_. nr)) st))"

definition get_nodes :: "http_world \<Rightarrow> server_state \<Rightarrow> result" where
  "get_nodes w st =
     (let (active, st) = trusted_nodes w 0 st in (send_json 200 (JArr (map node_json active)), [], st))"

definition get_nodes_locality :: "http_world \<Rightarrow> server_state \<Rightarrow> result" where
  "get_nodes_locality w st =
     (let (groups, nr) = group_by_locality (Some (co_reputation (sv_co st))) (hw_clock w 0) (co_nodes (sv_co st))
      in (send_json 200 (JObj (map (\<lambda>(g, ns). (g, JArr (map node_json ns))) groups)), [],
          on_co (co_nodes_update (\<lambda>_. nr)) st))"

definition get_capacity :: "http_world \<Rightarrow> server_state \<Rightarrow> result" where
  "get_capacity w st =
     (let (active, st) = trusted_nodes w 0 st
      in (send_json 200 (JObj [(''activeNodes'', json_of_nat (length active))]), [], st))"

definition list_peers_now :: "http_world \<Rightarrow> server_state \<Rightarrow> peer_info list \<times> server_state" where
  "list_peers_now w st =
     (let (active, pr) = list_peers (hw_clock w 0) (co_peers (sv_co st))
      in (active, on_co (co_peers_update (\<lambda>_. pr)) st))"

definition get_peers :: "http_world \<Rightarrow> server_state \<Rightarrow> result" where
  "get_peers w st =
     (let (active, st) = list_peers_now w st in (send_json 200 (JArr (map peer_json active)), [], st))"

subsection \<open>Federated capacity\<close>

text \<open>What a peer's answer counts for: 0 unless it is a finite number that is not negative.\<close>

definition fetch_peer_capacity :: "http_world \<Rightarrow> string \<Rightarrow> rat" where
  "fetch_peer_capacity w endpoint =
     (case hw_peer w (endpoint @ ''/capacity'') of
        PeerThrew \<Rightarrow> 0
      | PeerReplied status body \<Rightarrow>
          if \<not> status_ok status then 0
          else (case body of
                  None \<Rightarrow> 0
                | Some v \<Rightarrow>
                    (case field ''activeNodes'' v of
                       Some (JNum n) \<Rightarrow> if is_finite n \<and> \<not> num_lt n 0 then num_value n else 0
                     | _ \<Rightarrow> 0)))"

definition federated_active_node_count :: "http_world \<Rightarrow> server_state \<Rightarrow> rat \<times> outgoing list \<times> server_state" where
  "federated_active_node_count w st =
     (let (local, st) = trusted_nodes w 0 st;
          (active, st) = list_peers_now w st
      in (of_nat (length local) + sum_list (map (\<lambda>p. fetch_peer_capacity w (peer_endpoint p)) active),
          map (\<lambda>p. GetCapacity (peer_endpoint p @ ''/capacity'') (bearer (hw_token w))) active,
          hw_others w 1 st))"

definition get_catalog :: "http_world \<Rightarrow> server_state \<Rightarrow> result" where
  "get_catalog w st =
     (let (count, calls, st) = federated_active_node_count w st
      in (send_json 200 (JArr (map availability_json (availability count (cfg_catalog (hw_config w))))), calls, st))"

definition get_models :: "http_world \<Rightarrow> server_state \<Rightarrow> result" where
  "get_models w st =
     (send_json 200 (JObj [(''object'', JStr ''list''),
        (''data'', JArr (map (\<lambda>ea. JObj [(''id'', JStr (entry_id (fst ea))), (''object'', JStr ''model''),
           (''created'', json_of_nat 0), (''owned_by'', JStr ''swarm-llm'')])
           (availability 0 (cfg_catalog (hw_config w)))))]), [], st)"

lemma fetch_peer_capacity_nonneg: "0 \<le> fetch_peer_capacity w endpoint"
proof -
  have "\<not> num_lt n 0 \<Longrightarrow> 0 \<le> num_value n" for n by (cases n) simp_all
  then show ?thesis
    by (simp add: fetch_peer_capacity_def split: peer_answer.split option.split json_value.split)
qed

end
