(* ===== verification/Generate_Route.thy ===== *)
theory Generate_Route
  imports Http_Messages
begin

text \<open>
  The safety gate and the routes \<open>POST /classify\<close> and \<open>POST /generate\<close> of
  \<^verbatim>\<open>coordinator/src/server.ts\<close>: validation, classification with its timeout, the gate that fails
  closed, the demand record, pool-first routing, the cold start shared by concurrent requests, and
  the forward to the node, in one piece or as a stream.

  Awaits of a request, by the index at which others run: 0 the body, 1 the classifier, 2 the cold
  start, 3 the node's answer. The clock is read at index 0 before the first of them, 1 after the
  classifier, 2 and 3 inside the cold start and 4 after it.
\<close>

definition CLASSIFY_TIMEOUT_MS :: int where "CLASSIFY_TIMEOUT_MS = 2000"
definition DEFAULT_N_PREDICT :: int where "DEFAULT_N_PREDICT = 64"
definition MAX_N_PREDICT :: int where "MAX_N_PREDICT = 512"

subsection \<open>Classification\<close>

text \<open>The value of the promise, unless it rejects or the timer fires first.\<close>

fun with_timeout :: "settlement \<Rightarrow> int \<Rightarrow> json option option" where
  "with_timeout (Resolves after v) ms = (if after < ms then Some v else None)"
| "with_timeout (Rejects after) ms = None"
| "with_timeout Never ms = None"

text \<open>\<open>result?.k\<close>\<close>

fun optional_member :: "string \<Rightarrow> json option \<Rightarrow> json option" where
  "optional_member k None = None"
| "optional_member k (Some v) = field k v"

text \<open>The classifier's verdict, or nothing where the code throws.\<close>

definition verdict :: "http_world \<Rightarrow> string \<Rightarrow> (bool \<times> json list) option" where
  "verdict w prompt =
     (case with_timeout (hw_classify w prompt) CLASSIFY_TIMEOUT_MS of
        None \<Rightarrow> None
      | Some r \<Rightarrow>
          (case (optional_member ''safe'' r, optional_member ''categories'' r) of
             (Some (JBool safe), Some (JArr cats)) \<Rightarrow> Some (safe, cats)
           | _ \<Rightarrow> None))"

definition set_add :: "'a \<Rightarrow> 'a list \<Rightarrow> 'a list" where
  "set_add x xs = (if x \<in> set xs then xs else xs @ [x])"

definition unique_categories :: "(number \<Rightarrow> string) \<Rightarrow> json list \<Rightarrow> string list option" where
  "unique_categories show cats = map_option (\<lambda>cs. fold set_add cs []) (those (map (js_string show) cats))"

definition verdict_json :: "bool \<Rightarrow> string list \<Rightarrow> json" where
  "verdict_json ok cats = JObj [(''safe'', JBool ok), (''categories'', JArr (map JStr cats))]"

definition checked_prompt :: "json \<Rightarrow> string checked" where
  "checked_prompt c =
     (case field ''prompt'' c of Some (JStr p) \<Rightarrow> Inr p | _ \<Rightarrow> Inl ''prompt must be a string'')"

definition post_classify :: "http_world \<Rightarrow> request \<Rightarrow> server_state \<Rightarrow> result" where
  "post_classify w rq st =
     with_body w rq st (\<lambda>body st.
       checked_reply
         (bind_checked (json_object body) checked_prompt) st (\<lambda>prompt.
         let st = hw_others w 1 st;
             closed = send_json 200 (verdict_json False [''classifier_error''])
         in (case verdict w prompt of
               None \<Rightarrow> closed
             | Some (ok, cats) \<Rightarrow>
                 (case unique_categories (hw_show w) cats of
                    None \<Rightarrow> closed
                  | Some us \<Rightarrow> send_json 200 (verdict_json ok us)), [], st)))"

text \<open>The gate of \<open>POST /generate\<close>: nothing where the prompt may pass, else the categories of the reply.\<close>

definition blocked_categories :: "http_world \<Rightarrow> string \<Rightarrow> string list option" where
  "blocked_categories w prompt =
     (case verdict w prompt of
        None \<Rightarrow> Some [''classifier_error'']
      | Some (True, cats) \<Rightarrow> None
      | Some (False, cats) \<Rightarrow>
          (case unique_categories (hw_show w) cats of
             None \<Rightarrow> Some [''classifier_error'']
           | Some us \<Rightarrow> Some us))"

subsection \<open>The request\<close>

record generation =
  gen_prompt :: string
  gen_model :: string
  gen_stream :: bool
  gen_nPredict :: int

text \<open>A whole number between 1 and \<open>MAX_N_PREDICT\<close>.\<close>

fun token_count :: "json \<Rightarrow> int option" where
  "token_count (JNum n) =
     (if \<not> is_integer n \<or> num_lt n 1 \<or> num_gt n (of_int MAX_N_PREDICT) then None else Some \<lfloor>num_value n\<rfloor>)"
| "token_count _ = None"

definition checked_model_id :: "config \<Rightarrow> json \<Rightarrow> string checked" where
  "checked_model_id cfg c =
     (case field ''modelId'' c of
        Some (JStr m) \<Rightarrow>
          if \<not> has_model (cfg_catalog cfg) m then Inl ''modelId must be a known catalog model id'' else Inr m
      | _ \<Rightarrow> Inl ''modelId must be a known catalog model id'')"

definition checked_n_predict :: "json \<Rightarrow> int checked" where
  "checked_n_predict c =
     (case field ''n_predict'' c of
        None \<Rightarrow> Inr DEFAULT_N_PREDICT
      | Some v \<Rightarrow>
          (case token_count v of
             None \<Rightarrow> Inl ''n_predict must be an integer between 1 and 512''
           | Some n \<Rightarrow> Inr n))"

definition checked_generation :: "config \<Rightarrow> json \<Rightarrow> generation checked" where
  "checked_generation cfg body =
     bind_checked (json_object body) (\<lambda>c.
     bind_checked (checked_prompt c) (\<lambda>prompt.
     bind_checked (checked_model_id cfg c) (\<lambda>modelId.
     bind_checked (checked_n_predict c) (\<lambda>nPredict.
       Inr \<lparr>gen_prompt = prompt, gen_model = modelId, gen_stream = (field ''stream'' c = Some (JBool True)),
            gen_nPredict = nPredict\<rparr>))))"

subsection \<open>Forwarding\<close>

text \<open>\<open>markDriverFailedIfTracked\<close> and the error reply that follows it at each failing exit.\<close>

definition forward_failed :: "generation \<Rightarrow> node_info \<Rightarrow> string \<Rightarrow> server_state \<Rightarrow> response \<times> server_state" where
  "forward_failed g n msg st =
     (send_json 502 (error_json msg), on_co (mark_driver_failed (gen_model g) (nodeId n)) st)"

definition forward_stream :: "generation \<Rightarrow> node_info \<Rightarrow> node_answer \<Rightarrow> server_state \<Rightarrow> response \<times> server_state" where
  "forward_stream g n answer st =
     (case answer of
        NodeThrew \<Rightarrow> forward_failed g n ''failed to reach the selected node'' st
      | NodeReplied r \<Rightarrow>
          if \<not> status_ok (nr_status r) then forward_failed g n (''node returned status '' @ string_of_int (nr_status r)) st
          else (case nr_stream r of
                  None \<Rightarrow> forward_failed g n (''node returned status '' @ string_of_int (nr_status r)) st
                | Some (chunks, completed) \<Rightarrow>
                    if \<not> starts_with ''text/event-stream''
                            (to_lower (case nr_contentType r of None \<Rightarrow> [] | Some t \<Rightarrow> t))
                    then forward_failed g n ''node did not return a streaming response'' st
                    else (event_stream chunks,
                          if completed then st else on_co (mark_driver_failed (gen_model g) (nodeId n)) st)))"

definition forward_whole :: "generation \<Rightarrow> node_info \<Rightarrow> node_answer \<Rightarrow> server_state \<Rightarrow> response \<times> server_state" where
  "forward_whole g n answer st =
     (case answer of
        NodeThrew \<Rightarrow> forward_failed g n ''failed to reach the selected node'' st
      | NodeReplied r \<Rightarrow>
          if \<not> status_ok (nr_status r) then forward_failed g n (''node returned status '' @ string_of_int (nr_status r)) st
          else (case nr_json r of
                  None \<Rightarrow> forward_failed g n ''failed to reach the selected node'' st
                | Some body \<Rightarrow>
                    (case read_field ''text'' body of
                       None \<Rightarrow> forward_failed g n ''failed to reach the selected node'' st
                     | Some (Some (JStr text)) \<Rightarrow> (send_json 200 (JObj [(''text'', JStr text)]), st)
                     | Some _ \<Rightarrow> forward_failed g n ''node returned a malformed response'' st)))"

definition forward :: "http_world \<Rightarrow> generation \<Rightarrow> node_info \<Rightarrow> outgoing list \<Rightarrow> server_state \<Rightarrow> result" where
  "forward w g n calls st =
     (let url = node_endpoint n @ ''/complete'';
          body = \<lparr>cp_prompt = gen_prompt g, cp_nPredict = gen_nPredict g, cp_stream = gen_stream g, cp_includeUsage = False\<rparr>;
          answer = hw_node w url body;
          (resp, st) = (if gen_stream g then forward_stream else forward_whole) g n answer (hw_others w 3 st)
      in (resp, calls @ [PostComplete url (bearer (hw_token w)) body], st))"

subsection \<open>Routing\<close>

text \<open>
  \<open>ensurePipelineReady\<close>: join the model's cold start in flight, or start one and register it until it
  is over. The first component is false where the promise rejects.
\<close>

definition ensure_pipeline_ready :: "http_world \<Rightarrow> string \<Rightarrow> server_state \<Rightarrow> bool \<times> outgoing list \<times> server_state" where
  "ensure_pipeline_ready w modelId st =
     (if modelId \<in> set (sv_inFlight st) then (hw_joined_ok w, [], hw_others w 2 st)
      else
        (let (ok, calls, co, k) = assemble_pipeline (hw_config w) (hw_launcher w) modelId (hw_clock w 1) (hw_clock w 2)
                                    (hw_clock w 3) (hw_uuid w 0) (hw_uuid w 1) (hw_random w) (sv_draws st) (sv_co st);
             st = hw_others w 2 (st\<lparr>sv_co := co, sv_draws := k, sv_inFlight := modelId # sv_inFlight st\<rparr>)
         in (ok, map ToLauncher calls, st\<lparr>sv_inFlight := removeAll modelId (sv_inFlight st)\<rparr>)))"

definition generate_cold :: "http_world \<Rightarrow> generation \<Rightarrow> server_state \<Rightarrow> result" where
  "generate_cold w g st =
     (case ensure_pipeline_ready w (gen_model g) st of
        (False, calls, st) \<Rightarrow> (internal_error, calls, st)
      | (True, calls, st) \<Rightarrow>
          (let (selected, co, k) = route_from_registry (gen_model g) (hw_clock w 4) (hw_random w) (sv_draws st) (sv_co st);
               st = st\<lparr>sv_co := co, sv_draws := k\<rparr>
           in case selected of
                None \<Rightarrow> (send_json 503 (error_json (''no active node currently serves model '' @ [CHR 0x22] @ gen_model g @ [CHR 0x22])),
                         calls, st)
              | Some n \<Rightarrow> forward w g n calls st))"

definition generate_admitted :: "http_world \<Rightarrow> generation \<Rightarrow> server_state \<Rightarrow> result" where
  "generate_admitted w g st =
     (case route_from_pool (gen_model g) (hw_clock w 1) (sv_co st) of
        (Some n, co) \<Rightarrow> forward w g n [] (st\<lparr>sv_co := co\<rparr>)
      | (None, co) \<Rightarrow> generate_cold w g (st\<lparr>sv_co := co\<rparr>))"

definition post_generate :: "http_world \<Rightarrow> request \<Rightarrow> server_state \<Rightarrow> result" where
  "post_generate w rq st =
     with_body w rq st (\<lambda>body st.
       checked_reply (checked_generation (hw_config w) body) st (\<lambda>g.
         case blocked_categories w (gen_prompt g) of
           Some cats \<Rightarrow> (send_json 400 (verdict_json False cats), [], hw_others w 1 st)
         | None \<Rightarrow> generate_admitted w g (hw_others w 1 st)))"

end
