(* ===== verification/Chat_Prompt.thy ===== *)
theory Chat_Prompt
  imports Js_Strings
begin

text \<open>
  The transcript of an OpenAI-shaped conversation, \<^verbatim>\<open>coordinator/src/chat_prompt.ts\<close>. The prompt is
  what the safety classifier sees, so the lemma that matters is \<open>prompt_around_message\<close>: the
  content of every message stands in the prompt in full, between a space and a newline, where a
  phrase of the content is still a phrase of its own.
\<close>

datatype chat_role = RoleSystem | RoleUser | RoleAssistant

record chat_message =
  msg_role :: chat_role
  msg_content :: string

fun role_label :: "chat_role \<Rightarrow> string" where
  "role_label RoleUser = ''User''"
| "role_label RoleSystem = ''System''"
| "role_label RoleAssistant = ''Assistant''"

definition message_line :: "chat_message \<Rightarrow> string" where
  "message_line m = role_label (msg_role m) @ '': '' @ msg_content m"

definition build_prompt_from_messages :: "chat_message list \<Rightarrow> string" where
  "build_prompt_from_messages messages =
     (let transcript = join newline (map message_line messages)
      in (if transcript \<noteq> [] then transcript @ newline else []) @ ''Assistant:'')"

lemma join_member: "x \<in> set xs \<Longrightarrow> \<exists>pre post. join sep xs @ sep = pre @ x @ sep @ post"
proof (induction sep xs rule: join.induct)
  case (2 sep y)
  then show ?case by (intro exI [of _ "[]"] exI [of _ "[]"]) simp
next
  case (3 sep x' y ys)
  show ?case
  proof (cases "x = x'")
    case True
    then show ?thesis by (intro exI [of _ "[]"] exI [of _ "join sep (y # ys) @ sep"]) simp
  next
    case False
    with 3 obtain pre post where "join sep (y # ys) @ sep = pre @ x @ sep @ post" by auto
    then show ?thesis by (intro exI [of _ "x' @ sep @ pre"] exI [of _ post]) simp
  qed
qed simp

lemma prompt_around_message:
  assumes "m \<in> set messages"
  shows "\<exists>pre post. build_prompt_from_messages messages = pre @ '' '' @ msg_content m @ newline @ post"
proof -
  let ?t = "join newline (map message_line messages)"
  obtain pre post where "?t @ newline = pre @ message_line m @ newline @ post"
    using join_member [of "message_line m" "map message_line messages" newline] assms by auto
  then have split: "?t @ newline = (pre @ role_label (msg_role m) @ '':'') @ '' '' @ msg_content m @ newline @ post"
    by (simp add: message_line_def)
  have "message_line m' \<noteq> []" for m' by (simp add: message_line_def)
  with assms have "?t \<noteq> []" by (cases messages; cases "tl messages") auto
  then have "build_prompt_from_messages messages = ?t @ newline @ ''Assistant:''"
    by (simp add: build_prompt_from_messages_def Let_def)
  also have "\<dots> = (pre @ role_label (msg_role m) @ '':'') @ '' '' @ msg_content m @ newline @ (post @ ''Assistant:'')"
    using split by (metis append.assoc)
  finally show ?thesis by blast
qed

lemma prompt_ends_with_cue: "\<exists>pre. build_prompt_from_messages messages = pre @ ''Assistant:''"
  unfolding build_prompt_from_messages_def Let_def by blast

end
