(* ===== verification/Sse_Frames.thy ===== *)
theory Sse_Frames
  imports Js_Strings
begin

text \<open>
  Server-sent events, \<^verbatim>\<open>coordinator/src/sse_frames.ts\<close>. The three readers of the code base (the
  coordinator's \<open>readSseFrames\<close>, the client library and the dashboard) share one loop: append the
  decoded chunk to a buffer, split at blank lines, keep the last piece as the buffer, and handle
  the others in order. The loop is \<open>frame_loop\<close>, over a reader's own reaction to one frame; a
  reaction either goes on or leaves the loop with a result.

  A chunk is the text the streaming \<open>TextDecoder\<close> returns for it. A byte stream ends because the
  sender closed it (\<open>done\<close>) or because \<open>reader.read()\<close> rejects.

  The locale \<open>frame_reader\<close> is the contract of a reader that detects truncation; its lemma is that
  a text without a terminal frame is always reported as truncated, however it is cut.
\<close>

datatype source_end = Closed | Aborted

datatype ('s, 'r) step = Continue 's | Stop 'r

abbreviation blank_line :: string where
  "blank_line \<equiv> [CHR 0x0A, CHR 0x0A]"

fun run_frames :: "('s \<Rightarrow> string \<Rightarrow> ('s, 'r) step) \<Rightarrow> 's \<Rightarrow> string list \<Rightarrow> ('s, 'r) step" where
  "run_frames f s [] = Continue s"
| "run_frames f s (x # xs) = (case f s x of Continue s' \<Rightarrow> run_frames f s' xs | Stop r \<Rightarrow> Stop r)"

fun frame_loop ::
  "('s \<Rightarrow> string \<Rightarrow> ('s, 'r) step) \<Rightarrow> ('s \<Rightarrow> 'r) \<Rightarrow> 's \<Rightarrow> string \<Rightarrow> string list \<Rightarrow> 'r" where
  "frame_loop f finish s buffer [] = finish s"
| "frame_loop f finish s buffer (chunk # chunks) =
     (let frames = split blank_line (buffer @ chunk)
      in case run_frames f s (butlast frames) of
           Continue s' \<Rightarrow> frame_loop f finish s' (last frames) chunks
         | Stop r \<Rightarrow> r)"

subsection \<open>The reader of the coordinator\<close>

record sse_frame =
  frame_event :: "string option"
  frame_data :: string

datatype stream_end = Returned | ThrewTruncated | ThrewReadError

definition data_lines :: "string \<Rightarrow> string list" where
  "data_lines frame = map (drop 6) (filter (starts_with ''data: '') (split newline frame))"

definition event_name :: "string \<Rightarrow> string option" where
  "event_name frame = map_option (drop 7) (find (starts_with ''event: '') (split newline frame))"

definition parse_frame :: "string \<Rightarrow> sse_frame option" where
  "parse_frame frame =
     (if data_lines frame = [] then None
      else Some \<lparr>frame_event = event_name frame, frame_data = join newline (data_lines frame)\<rparr>)"

text \<open>The state of the generator: \<open>sawTerminalSignal\<close> and the frames yielded so far.\<close>

fun on_sse_frame ::
  "bool \<times> sse_frame list \<Rightarrow> string \<Rightarrow> (bool \<times> sse_frame list, sse_frame list \<times> stream_end) step" where
  "on_sse_frame (saw, out) frame =
     (case parse_frame frame of
        None \<Rightarrow> Continue (saw, out)
      | Some f \<Rightarrow>
          if frame_data f = ''[DONE]'' then Stop (out, Returned)
          else Continue (saw \<or> frame_event f = Some ''error'', out @ [f]))"

fun sse_finish :: "source_end \<Rightarrow> bool \<times> sse_frame list \<Rightarrow> sse_frame list \<times> stream_end" where
  "sse_finish Aborted (saw, out) = (out, ThrewReadError)"
| "sse_finish Closed (saw, out) = (out, if saw then Returned else ThrewTruncated)"

definition read_sse_frames :: "string list \<Rightarrow> source_end \<Rightarrow> sse_frame list \<times> stream_end" where
  "read_sse_frames chunks e = frame_loop on_sse_frame (sse_finish e) (False, []) [] chunks"

subsection \<open>Chunks do not matter\<close>

text \<open>The whole frames of a text, and the reaction to all of them in one go.\<close>

definition whole_frames :: "string \<Rightarrow> string list" where
  "whole_frames s = butlast (split blank_line s)"

definition react_all ::
  "('s \<Rightarrow> string \<Rightarrow> ('s, 'r) step) \<Rightarrow> ('s \<Rightarrow> 'r) \<Rightarrow> 's \<Rightarrow> string list \<Rightarrow> 'r" where
  "react_all f finish s frames = (case run_frames f s frames of Continue s' \<Rightarrow> finish s' | Stop r \<Rightarrow> r)"

lemma run_frames_append:
  "run_frames f s (xs @ ys) =
     (case run_frames f s xs of Continue s' \<Rightarrow> run_frames f s' ys | Stop r \<Rightarrow> Stop r)"
  by (induction xs arbitrary: s) (auto split: step.splits)

lemma whole_frames_append:
  "whole_frames (s @ t) = whole_frames s @ whole_frames (last (split blank_line s) @ t)"
  unfolding whole_frames_def using split_append [of blank_line s t] by (simp add: butlast_append)

lemma frame_loop_react:
  assumes "split blank_line buffer = [buffer]"
  shows "frame_loop f finish s buffer chunks = react_all f finish s (whole_frames (buffer @ concat chunks))"
  using assms
proof (induction chunks arbitrary: s buffer)
  case Nil
  then show ?case by (simp add: react_all_def whole_frames_def del: split.simps)
next
  case (Cons chunk chunks)
  let ?frames = "split blank_line (buffer @ chunk)"
  have split: "whole_frames (buffer @ concat (chunk # chunks)) =
      butlast ?frames @ whole_frames (last ?frames @ concat chunks)"
    using whole_frames_append [of "buffer @ chunk" "concat chunks"] by (simp add: whole_frames_def)
  have last: "split blank_line (last ?frames) = [last ?frames]" by (rule split_last)
  show ?case
  proof (cases "run_frames f s (butlast ?frames)")
    case (Continue s')
    have "frame_loop f finish s buffer (chunk # chunks) = frame_loop f finish s' (last ?frames) chunks"
      by (simp add: Let_def Continue del: split.simps)
    also have "\<dots> = react_all f finish s' (whole_frames (last ?frames @ concat chunks))"
      by (rule Cons.IH [OF last])
    finally show ?thesis unfolding split by (simp add: react_all_def run_frames_append Continue)
  next
    case (Stop r)
    then show ?thesis unfolding split
      by (simp add: react_all_def run_frames_append Let_def del: split.simps)
  qed
qed

lemma frame_loop_start:
  "frame_loop f finish s [] chunks = react_all f finish s (whole_frames (concat chunks))"
  using frame_loop_react [of "[]"] by simp

text \<open>
  C33: Cutting the stream into other chunks changes nothing. Whatever the packet boundaries, inside a
  line or between the two newlines of a blank line, \<open>readSseFrames\<close> yields the same frames and ends
  the same way as on the whole text in one chunk.
\<close>

theorem sse_chunking_irrelevant: "read_sse_frames chunks e = read_sse_frames [concat chunks] e"
  by (simp add: read_sse_frames_def frame_loop_start del: frame_loop.simps)

subsection \<open>Truncation\<close>

lemma run_frames_reason: "run_frames on_sse_frame s xs = Stop r \<Longrightarrow> snd r = Returned"
proof (induction xs arbitrary: s)
  case Nil
  then show ?case by simp
next
  case (Cons x xs)
  show ?case
  proof (cases "on_sse_frame s x")
    case (Continue s')
    with Cons show ?thesis by simp
  next
    case (Stop r')
    with Cons.prems show ?thesis by (cases s) (auto split: option.splits if_splits)
  qed
qed

locale frame_reader =
  fixes on_frame :: "'s \<Rightarrow> string \<Rightarrow> ('s, 'r) step"
    and finish :: "'s \<Rightarrow> 'r"
    and pending :: "'s \<Rightarrow> bool"
    and terminal :: "string \<Rightarrow> bool"
    and truncated :: "'r \<Rightarrow> bool"
  assumes goes_on: "\<lbrakk>pending s; \<not> terminal x\<rbrakk> \<Longrightarrow> \<exists>s'. on_frame s x = Continue s' \<and> pending s'"
    and settles: "terminal x \<or> \<not> pending s \<Longrightarrow>
      (case on_frame s x of Continue s' \<Rightarrow> \<not> pending s' | Stop r \<Rightarrow> \<not> truncated r)"
    and reports: "truncated (finish s) \<longleftrightarrow> pending s"
begin

lemma settled_reaction:
  "\<not> pending s \<Longrightarrow> \<not> truncated (react_all on_frame finish s xs)"
proof (induction xs arbitrary: s)
  case Nil
  then show ?case by (simp add: react_all_def reports)
next
  case (Cons x xs)
  with settles [of x s] show ?case
    by (cases "on_frame s x") (simp_all add: react_all_def)
qed

lemma reaction_truncated_iff:
  "pending s \<Longrightarrow> truncated (react_all on_frame finish s xs) \<longleftrightarrow> \<not> list_ex terminal xs"
proof (induction xs arbitrary: s)
  case Nil
  then show ?case by (simp add: react_all_def reports)
next
  case (Cons x xs)
  show ?case
  proof (cases "terminal x")
    case True
    with settles [of x s] settled_reaction [of _ xs] show ?thesis
      by (cases "on_frame s x") (auto simp: react_all_def)
  next
    case False
    from goes_on [OF Cons.prems False] obtain s' where "on_frame s x = Continue s'" "pending s'" by blast
    with Cons.IH [of s'] False show ?thesis by (simp add: react_all_def)
  qed
qed

lemma truncated_iff:
  "pending s \<Longrightarrow>
   truncated (frame_loop on_frame finish s [] chunks) \<longleftrightarrow> \<not> list_ex terminal (whole_frames (concat chunks))"
  by (simp add: frame_loop_start reaction_truncated_iff del: frame_loop.simps)

end

text \<open>A frame after which \<open>readSseFrames\<close> accepts the end of the stream.\<close>

definition terminal_frame :: "string \<Rightarrow> bool" where
  "terminal_frame x = (case parse_frame x of
     None \<Rightarrow> False
   | Some f \<Rightarrow> frame_data f = ''[DONE]'' \<or> frame_event f = Some ''error'')"

interpretation server_reader: frame_reader on_sse_frame "sse_finish Closed" "\<lambda>s. \<not> fst s" terminal_frame
  "\<lambda>r. snd r \<noteq> Returned"
proof unfold_locales
  fix s :: "bool \<times> sse_frame list" and x
  assume "\<not> fst s" "\<not> terminal_frame x"
  then show "\<exists>s'. on_sse_frame s x = Continue s' \<and> \<not> fst s'"
    by (cases s) (auto simp: terminal_frame_def split: option.splits)
next
  fix s :: "bool \<times> sse_frame list" and x
  assume "terminal_frame x \<or> \<not> \<not> fst s"
  then show "case on_sse_frame s x of Continue s' \<Rightarrow> \<not> \<not> fst s' | Stop r \<Rightarrow> \<not> snd r \<noteq> Returned"
    by (cases s) (auto simp: terminal_frame_def split: option.splits)
next
  fix s :: "bool \<times> sse_frame list"
  show "snd (sse_finish Closed s) \<noteq> Returned \<longleftrightarrow> \<not> fst s"
    by (cases s) simp
qed

lemma read_returns_iff:
  "snd (read_sse_frames chunks Closed) = Returned \<longleftrightarrow> list_ex terminal_frame (whole_frames (concat chunks))"
  using server_reader.truncated_iff [of "(False, [])" chunks] by (simp add: read_sse_frames_def)

text \<open>
  A truncated stream is never taken for a finished one. When the sender closes the connection,
  \<open>readSseFrames\<close> ends without an error exactly if a whole frame with the data \<open>[DONE]\<close> or of the
  event \<open>error\<close> has arrived, wherever the chunks were cut; otherwise it throws.
\<close>

lemma truncation_always_reported:
  "snd (read_sse_frames chunks Closed) =
     (if list_ex terminal_frame (whole_frames (concat chunks)) then Returned else ThrewTruncated)"
proof -
  have "snd (read_sse_frames chunks Closed) \<noteq> ThrewReadError"
    by (simp add: read_sse_frames_def frame_loop_start react_all_def run_frames_reason
        del: frame_loop.simps split: step.splits)
  then show ?thesis using read_returns_iff [of chunks] by (cases "snd (read_sse_frames chunks Closed)") auto
qed

subsection \<open>Round trip\<close>

text \<open>
  How a frame is written: its lines, one \<open>data\<close> line per line of the data, and a blank line. The
  terminal sentinel is the frame \<open>data: [DONE]\<close>.
\<close>

definition frame_lines :: "sse_frame \<Rightarrow> string list" where
  "frame_lines f =
     (case frame_event f of None \<Rightarrow> [] | Some e \<Rightarrow> [''event: '' @ e]) @
     map ((@) ''data: '') (split newline (frame_data f))"

definition frame_text :: "sse_frame \<Rightarrow> string" where
  "frame_text f = join newline (frame_lines f) @ blank_line"

definition done_text :: string where
  "done_text = ''data: [DONE]'' @ blank_line"

definition plain_frame :: "sse_frame \<Rightarrow> bool" where
  "plain_frame f \<longleftrightarrow> frame_data f \<noteq> ''[DONE]'' \<and>
     (case frame_event f of None \<Rightarrow> True | Some e \<Rightarrow> CHR 0x0A \<notin> set e)"

lemma split_blank_join:
  assumes "list_all (\<lambda>x. x \<noteq> [] \<and> CHR 0x0A \<notin> set x) xs"
  shows "split blank_line (join newline xs @ newline) = [join newline xs @ newline]"
  using assms
proof (induction xs rule: induct_list012)
  case 1
  then show ?case by (simp add: split_short del: split.simps)
next
  case (2 x)
  have "split blank_line newline = [newline]" by (simp add: split_short del: split.simps)
  with 2 show ?case by (simp add: split_single_free del: split.simps)
next
  case (3 x y ys)
  let ?r = "join newline (y # ys) @ newline"
  have "\<exists>c cs. ?r = c # cs \<and> c \<noteq> CHR 0x0A"
    using "3.prems" by (cases y; cases ys) auto
  then have "split blank_line (newline @ ?r) = [newline @ ?r]"
    using 3 by (auto simp: split_single_Cons simp del: split.simps)
  then have "split blank_line (x @ newline @ ?r) = [x @ newline @ ?r]"
    by (rule split_single_free [rotated]) (use "3.prems" in simp)
  then show ?case by (simp del: split.simps)
qed

lemma whole_frames_first:
  assumes "list_all (\<lambda>x. x \<noteq> [] \<and> CHR 0x0A \<notin> set x) xs"
  shows "whole_frames (join newline xs @ blank_line @ s) = join newline xs # whole_frames s"
  using split_first [of blank_line "join newline xs" s] split_blank_join [OF assms]
  by (simp add: whole_frames_def del: split.simps)

lemma frame_lines_ok:
  "plain_frame f \<Longrightarrow> list_all (\<lambda>x. x \<noteq> [] \<and> CHR 0x0A \<notin> set x) (frame_lines f)"
  by (auto simp: frame_lines_def plain_frame_def list_all_iff dest: split_free split: option.splits)

lemma filter_data_lines: "filter (starts_with ''data: '') (map ((@) ''data: '') xs) = map ((@) ''data: '') xs"
  by (induction xs) simp_all

lemma parse_frame_text:
  assumes "plain_frame f"
  shows "parse_frame (join newline (frame_lines f)) = Some f"
proof -
  have nonempty: "frame_lines f \<noteq> []" by (simp add: frame_lines_def)
  have lines: "split newline (join newline (frame_lines f)) = frame_lines f"
    using frame_lines_ok [OF assms] nonempty by (intro split_join) (auto simp: list_all_iff)
  have "filter (starts_with ''data: '') (frame_lines f) = map ((@) ''data: '') (split newline (frame_data f))"
    by (simp add: frame_lines_def filter_data_lines split: option.splits)
  then have data: "data_lines (join newline (frame_lines f)) = split newline (frame_data f)"
    by (simp add: data_lines_def lines comp_def del: split.simps)
  have "find (starts_with ''event: '') (map ((@) ''data: '') ls) = None" for ls
    by (induction ls) simp_all
  then have "event_name (join newline (frame_lines f)) = frame_event f"
    by (simp add: event_name_def lines) (simp add: frame_lines_def split: option.splits)
  with data show ?thesis by (simp add: parse_frame_def join_split)
qed

text \<open>What every reader sees of a frame of plain text.\<close>

lemma text_frame_read:
  assumes "plain_frame f" and "frame_event f = None"
  shows "\<not> starts_with ''event: error'' (join newline (frame_lines f))"
    and "data_lines (join newline (frame_lines f)) \<noteq> []"
    and "join newline (data_lines (join newline (frame_lines f))) = frame_data f"
proof -
  show "\<not> starts_with ''event: error'' (join newline (frame_lines f))"
    using assms(2) by (cases "split newline (frame_data f)"; cases "tl (split newline (frame_data f))")
      (simp_all add: frame_lines_def del: split.simps)
  from parse_frame_text [OF assms(1)] show "data_lines (join newline (frame_lines f)) \<noteq> []"
      "join newline (data_lines (join newline (frame_lines f))) = frame_data f"
    by (auto simp: parse_frame_def split: if_splits dest: arg_cong [where f = frame_data])
qed

lemma whole_frames_text:
  assumes "plain_frame f"
  shows "whole_frames (frame_text f @ s) = join newline (frame_lines f) # whole_frames s"
  using whole_frames_first [OF frame_lines_ok [OF assms]] by (simp add: frame_text_def)

lemma run_frames_texts:
  assumes "list_all plain_frame fs"
  shows "react_all on_sse_frame fin (saw, out) (whole_frames (concat (map frame_text fs) @ s)) =
    react_all on_sse_frame fin (saw \<or> list_ex (\<lambda>f. frame_event f = Some ''error'') fs, out @ fs) (whole_frames s)"
  using assms
proof (induction fs arbitrary: saw out)
  case Nil
  then show ?case by simp
next
  case (Cons f fs)
  then have "frame_data f \<noteq> ''[DONE]''" by (simp add: plain_frame_def)
  with Cons show ?case
    by (simp add: whole_frames_text parse_frame_text react_all_def disj_assoc)
qed

lemma whole_frames_done: "whole_frames (done_text @ s) = ''data: [DONE]'' # whole_frames s"
  using whole_frames_first [of "[''data: [DONE]'']" s] by (simp add: done_text_def)

lemma parse_done: "parse_frame ''data: [DONE]'' = Some \<lparr>frame_event = None, frame_data = ''[DONE]''\<rparr>"
  by code_simp

text \<open>What a reader makes of a text written frame by frame, with and without the sentinel.\<close>

lemma read_written_done:
  assumes "list_all plain_frame fs"
    and "concat chunks = concat (map frame_text fs) @ done_text @ rest"
  shows "read_sse_frames chunks e = (fs, Returned)"
proof -
  have "read_sse_frames chunks e =
      react_all on_sse_frame (sse_finish e) (False, []) (whole_frames (concat (map frame_text fs) @ done_text @ rest))"
    using assms(2) by (simp add: read_sse_frames_def frame_loop_start del: frame_loop.simps)
  then show ?thesis
    by (simp add: run_frames_texts [OF assms(1)] whole_frames_done) (simp add: react_all_def parse_done)
qed

lemma read_written_open:
  assumes "list_all plain_frame fs" and "concat chunks = concat (map frame_text fs)"
  shows "read_sse_frames chunks e = sse_finish e (list_ex (\<lambda>f. frame_event f = Some ''error'') fs, fs)"
proof -
  have "read_sse_frames chunks e =
      react_all on_sse_frame (sse_finish e) (False, []) (whole_frames (concat (map frame_text fs) @ []))"
    using assms(2) by (simp add: read_sse_frames_def frame_loop_start del: frame_loop.simps)
  then show ?thesis
    unfolding run_frames_texts [OF assms(1)] by (simp add: react_all_def whole_frames_def)
qed

lemma yielded_by_run:
  "(case run_frames on_sse_frame (saw, out) xs of Continue s \<Rightarrow> set (snd s) | Stop r \<Rightarrow> set (fst r))
     \<subseteq> set out \<union> {f. \<exists>x \<in> set xs. parse_frame x = Some f}"
proof (induction xs arbitrary: saw out)
  case Nil
  then show ?case by simp
next
  case (Cons x xs)
  show ?case
  proof (cases "parse_frame x")
    case None
    with Cons [of saw out] show ?thesis by (auto split: step.splits)
  next
    case (Some g)
    with Cons [of "saw \<or> frame_event g = Some ''error''" "out @ [g]"] show ?thesis
      by (auto split: step.splits)
  qed
qed

lemma yielded_frames:
  assumes "f \<in> set (fst (read_sse_frames chunks e))"
  shows "\<exists>x \<in> set (whole_frames (concat chunks)). parse_frame x = Some f"
proof -
  have "fst (sse_finish e s) = snd s" for s by (cases e; cases s) simp_all
  then show ?thesis
    using assms yielded_by_run [of False "[]" "whole_frames (concat chunks)"]
    by (auto simp: read_sse_frames_def frame_loop_start react_all_def simp del: frame_loop.simps split: step.splits)
qed

end
