(* ===== verification/Chat_Route.thy ===== *)
theory Chat_Route
  imports Generate_Route Chat_Prompt Sse_Frames
begin

text \<open>
  The OpenAI-compatible route \<open>POST /v1/chat/completions\<close> of \<^verbatim>\<open>coordinator/src/server.ts\<close>: its own
  validation and error envelope, the prompt made of the messages, the same gate, and the reply in
  one piece or as a stream in which every frame of the node is decoded and written again as an
  OpenAI chunk.
\<close>

subsection \<open>The request\<close>

text \<open>A reply with the OpenAI error envelope, or an exception that reaches the server's outermost \<open>catch\<close>.\<close>

datatype chat_error = ChatBad string "string option" | ChatThrows

definition chat_error_json :: "string \<Rightarrow> string option \<Rightarrow> json" where
  "chat_error_json msg code =
     JObj [(''error'', JObj [(''message'', JStr msg), (''type'', JStr ''invalid_request_error''),
        (''code'', case code of None \<Rightarrow> JNull | Some c \<Rightarrow> JStr c)])]"

definition chat_reply :: "int \<Rightarrow> string \<Rightarrow> response" where
  "chat_reply status msg = send_json status (chat_error_json msg None)"

fun role_of :: "json option \<Rightarrow> chat_role option" where
  "role_of (Some (JStr s)) =
     (if s = ''system'' then Some RoleSystem else if s = ''user'' then Some RoleUser
      else if s = ''assistant'' then Some RoleAssistant else None)"
| "role_of _ = None"

fun checked_messages :: "json list \<Rightarrow> chat_error + chat_message list" where
  "checked_messages [] = Inr []"
| "checked_messages (m # ms) =
     (if \<not> is_object m then Inl (ChatBad ''each message must be an object'' None)
      else case role_of (field ''role'' m) of
        None \<Rightarrow> Inl (ChatBad ''each message's role must be one of: system, user, assistant'' None)
      | Some r \<Rightarrow>
          (case field ''content'' m of
             Some (JStr c) \<Rightarrow>
               bind_checked (checked_messages ms) (\<lambda>rest. Inr (\<lparr>msg_role = r, msg_content = c\<rparr> # rest))
           | _ \<Rightarrow> Inl (ChatBad ''each message's content must be a string'' None)))"

record chat_request =
  chat_model :: string
  chat_messages :: "chat_message list"
  chat_maxTokens :: int
  chat_stream :: bool
  chat_includeUsage :: bool

definition checked_chat_model :: "http_world \<Rightarrow> json \<Rightarrow> chat_error + string" where
  "checked_chat_model w c =
     (let unknown = (case js_string_of (hw_show w) (field ''model'' c) of
                       None \<Rightarrow> Inl ChatThrows
                     | Some t \<Rightarrow> Inl (ChatBad (''The model '' @ [CHR 0x27] @ t @ [CHR 0x27] @ '' does not exist.'')
                                       (Some ''model_not_found'')))
      in case field ''model'' c of
           Some (JStr m) \<Rightarrow> if \<not> has_model (cfg_catalog (hw_config w)) m then unknown else Inr m
         | _ \<Rightarrow> unknown)"

definition checked_message_list :: "json \<Rightarrow> chat_error + chat_message list" where
  "checked_message_list c =
     (case field ''messages'' c of
        Some (JArr ms) \<Rightarrow>
          if ms = [] then Inl (ChatBad ''messages must be a non-empty array'' None) else checked_messages ms
      | _ \<Rightarrow> Inl (ChatBad ''messages must be a non-empty array'' None))"

definition checked_max_tokens :: "json \<Rightarrow> chat_error + int" where
  "checked_max_tokens c =
     (case field ''max_tokens'' c of
        None \<Rightarrow> Inr DEFAULT_N_PREDICT
      | Some JNull \<Rightarrow> Inr DEFAULT_N_PREDICT
      | Some v \<Rightarrow>
          (case token_count v of
             None \<Rightarrow> Inl (ChatBad ''max_tokens must be an integer between 1 and 512'' None)
           | Some n \<Rightarrow> Inr n))"

definition checked_chat :: "http_world \<Rightarrow> json \<Rightarrow> chat_error + chat_request" where
  "checked_chat w body =
     (if \<not> is_object body then Inl (ChatBad ''request body must be a JSON object'' None)
      else bind_checked (checked_chat_model w body) (\<lambda>model.
           bind_checked (checked_message_list body) (\<lambda>messages.
           bind_checked (checked_max_tokens body) (\<lambda>maxTokens.
             let stream = (field ''stream'' body = Some (JBool True))
             in Inr \<lparr>chat_model = model, chat_messages = messages, chat_maxTokens = maxTokens, chat_stream = stream,
                     chat_includeUsage =
                       (stream \<and> (case field ''stream_options'' body of
                                    Some v \<Rightarrow> is_object v \<and> field ''include_usage'' v = Some (JBool True)
                                  | None \<Rightarrow> False))\<rparr>))))"

text \<open>The gate: the message of the reply for a prompt that may not pass.\<close>

definition chat_blocked :: "http_world \<Rightarrow> string \<Rightarrow> string option" where
  "chat_blocked w prompt =
     (let failed = Some ''Prompt blocked: the safety classifier failed or timed out.''
      in case verdict w prompt of
           None \<Rightarrow> failed
         | Some (True, cats) \<Rightarrow> None
         | Some (False, cats) \<Rightarrow>
             (case unique_categories (hw_show w) cats of
                None \<Rightarrow> failed
              | Some us \<Rightarrow> Some (''Prompt blocked by safety filter (categories: '' @
                                 (if us \<noteq> [] then join '', '' us else ''unspecified'') @ '').'')))"

subsection \<open>The reply in one piece\<close>

fun num_add :: "number \<Rightarrow> number \<Rightarrow> number" where
  "num_add (Fin a) (Fin b) = Fin (a + b)"
| "num_add NaN _ = NaN"
| "num_add _ NaN = NaN"
| "num_add PosInf NegInf = NaN"
| "num_add NegInf PosInf = NaN"
| "num_add PosInf _ = PosInf"
| "num_add _ PosInf = PosInf"
| "num_add NegInf _ = NegInf"
| "num_add _ NegInf = NegInf"

record usage =
  us_finishReason :: string
  us_promptTokens :: number
  us_completionTokens :: number

definition token_field :: "string \<Rightarrow> json \<Rightarrow> number" where
  "token_field k v = (case field k v of Some (JNum n) \<Rightarrow> n | _ \<Rightarrow> Fin 0)"

definition usage_of :: "json \<Rightarrow> usage" where
  "usage_of v =
     \<lparr>us_finishReason = (if field ''finish_reason'' v = Some (JStr ''length'') then ''length'' else ''stop''),
      us_promptTokens = token_field ''prompt_tokens'' v,
      us_completionTokens = token_field ''completion_tokens'' v\<rparr>"

definition usage_json :: "usage \<Rightarrow> json" where
  "usage_json u = JObj [(''prompt_tokens'', JNum (us_promptTokens u)), (''completion_tokens'', JNum (us_completionTokens u)),
     (''total_tokens'', JNum (num_add (us_promptTokens u) (us_completionTokens u)))]"

text \<open>What identifies one completion: \<open>chatCompletionId\<close>, \<open>createdAt\<close> and the model.\<close>

record chat_id =
  cid_id :: string
  cid_created :: int
  cid_model :: string

definition chat_id_fields :: "string \<Rightarrow> chat_id \<Rightarrow> (string \<times> json) list" where
  "chat_id_fields obj c = [(''id'', JStr (cid_id c)), (''object'', JStr obj),
     (''created'', JNum (Fin (of_int (cid_created c)))), (''model'', JStr (cid_model c))]"

definition chat_completion :: "chat_id \<Rightarrow> string \<Rightarrow> usage \<Rightarrow> json" where
  "chat_completion c text u = JObj (chat_id_fields ''chat.completion'' c @
     [(''choices'', JArr [JObj [(''index'', JNum (Fin 0)),
          (''message'', JObj [(''role'', JStr ''assistant''), (''content'', JStr text)]),
          (''finish_reason'', JStr (us_finishReason u))]]),
      (''usage'', usage_json u)])"

definition chat_whole :: "chat_id \<Rightarrow> node_answer \<Rightarrow> response" where
  "chat_whole c answer =
     (case answer of
        NodeThrew \<Rightarrow> chat_reply 502 ''failed to reach the selected node''
      | NodeReplied r \<Rightarrow>
          if \<not> status_ok (nr_status r) then chat_reply 502 (''node returned status '' @ string_of_int (nr_status r))
          else (case nr_json r of
                  None \<Rightarrow> chat_reply 502 ''failed to reach the selected node''
                | Some body \<Rightarrow>
                    (case read_field ''text'' body of
                       None \<Rightarrow> chat_reply 502 ''failed to reach the selected node''
                     | Some (Some (JStr text)) \<Rightarrow> send_json 200 (chat_completion c text (usage_of body))
                     | Some _ \<Rightarrow> chat_reply 502 ''node returned a malformed response'')))"

subsection \<open>The reply as a stream\<close>

definition data_chunk :: "(number \<Rightarrow> string) \<Rightarrow> json \<Rightarrow> string" where
  "data_chunk show v = ''data: '' @ json_text show v @ blank_line"

definition error_chunk :: "(number \<Rightarrow> string) \<Rightarrow> json \<Rightarrow> string" where
  "error_chunk show v = ''event: error'' @ newline @ ''data: '' @ json_text show v @ blank_line"

text \<open>A chunk with one choice: its delta and its finish reason.\<close>

definition chat_chunk :: "chat_id \<Rightarrow> (string \<times> json) list \<Rightarrow> json \<Rightarrow> json" where
  "chat_chunk c delta finish = JObj (chat_id_fields ''chat.completion.chunk'' c @
     [(''choices'', JArr [JObj [(''index'', JNum (Fin 0)), (''delta'', JObj delta), (''finish_reason'', finish)]])])"

definition usage_chunk :: "chat_id \<Rightarrow> usage \<Rightarrow> json" where
  "usage_chunk c u = JObj (chat_id_fields ''chat.completion.chunk'' c @ [(''choices'', JArr []), (''usage'', usage_json u)])"

text \<open>The message of a node's error frame; the inner \<open>catch\<close> also covers a payload of \<open>null\<close>.\<close>

definition relay_error_message :: "http_world \<Rightarrow> string \<Rightarrow> json" where
  "relay_error_message w payload =
     (let default = JStr ''generation failed mid-stream''
      in case hw_json_parse w payload of
           None \<Rightarrow> default
         | Some v \<Rightarrow>
             (case read_field ''error'' v of
                None \<Rightarrow> default
              | Some None \<Rightarrow> default
              | Some (Some e) \<Rightarrow> if e = JNull then default else e))"

definition relay_error_json :: "json \<Rightarrow> json" where
  "relay_error_json message =
     JObj [(''error'', JObj [(''message'', message), (''type'', JStr ''invalid_request_error''), (''code'', JNull)])]"

text \<open>How the loop over the node's frames ends: after the last one, at an error frame, or by an exception.\<close>

datatype relay_end = RanOut | AtErrorFrame | Crashed

fun relay_loop ::
  "http_world \<Rightarrow> chat_id \<Rightarrow> usage \<Rightarrow> sse_frame list \<Rightarrow> string list \<times> usage \<times> relay_end" where
  "relay_loop w c u [] = ([], u, RanOut)"
| "relay_loop w c u (f # fs) =
     (case frame_event f of
        None \<Rightarrow>
          (let (out, u', e) = relay_loop w c u fs
           in (data_chunk (hw_show w) (chat_chunk c [(''content'', JStr (frame_data f))] JNull) # out, u', e))
      | Some ev \<Rightarrow>
          if ev = ''error''
          then ([error_chunk (hw_show w) (relay_error_json (relay_error_message w (frame_data f)))], u, AtErrorFrame)
          else if ev = ''usage''
          then (case (case hw_json_parse w (frame_data f) of None \<Rightarrow> JObj [] | Some v \<Rightarrow> v) of
                  JNull \<Rightarrow> ([], u, Crashed)
                | v \<Rightarrow> relay_loop w c (usage_of v) fs)
          else relay_loop w c u fs)"

definition relay_tail :: "http_world \<Rightarrow> chat_id \<Rightarrow> bool \<Rightarrow> usage \<Rightarrow> string list" where
  "relay_tail w c includeUsage u =
     [data_chunk (hw_show w) (chat_chunk c [] (JStr (us_finishReason u)))] @
     (if includeUsage then [data_chunk (hw_show w) (usage_chunk c u)] else []) @
     [done_text]"

definition relay_stream :: "http_world \<Rightarrow> chat_id \<Rightarrow> bool \<Rightarrow> string list \<Rightarrow> source_end \<Rightarrow> string list" where
  "relay_stream w c includeUsage chunks e =
     (let (frames, reader_end) = read_sse_frames chunks e;
          (out, u, loop_end) = relay_loop w c \<lparr>us_finishReason = ''stop'', us_promptTokens = Fin 0, us_completionTokens = Fin 0\<rparr> frames
      in [data_chunk (hw_show w) (chat_chunk c [(''role'', JStr ''assistant'')] JNull)] @ out @
         (if loop_end = RanOut \<and> reader_end = Returned then relay_tail w c includeUsage u else []))"

definition chat_streamed :: "http_world \<Rightarrow> chat_id \<Rightarrow> bool \<Rightarrow> node_answer \<Rightarrow> response" where
  "chat_streamed w c includeUsage answer =
     (case answer of
        NodeThrew \<Rightarrow> chat_reply 502 ''failed to reach the selected node''
      | NodeReplied r \<Rightarrow>
          (case nr_stream r of
             Some (chunks, completed) \<Rightarrow>
               if \<not> status_ok (nr_status r) \<or>
                  \<not> starts_with ''text/event-stream'' (to_lower (case nr_contentType r of None \<Rightarrow> [] | Some t \<Rightarrow> t))
               then chat_reply 502 (''node returned status '' @ string_of_int (nr_status r))
               else event_stream (relay_stream w c includeUsage chunks (if completed then Closed else Aborted))
           | None \<Rightarrow> chat_reply 502 (''node returned status '' @ string_of_int (nr_status r))))"

subsection \<open>The route\<close>

definition chat_forward :: "http_world \<Rightarrow> chat_request \<Rightarrow> string \<Rightarrow> node_info \<Rightarrow> server_state \<Rightarrow> result" where
  "chat_forward w q prompt n st =
     (let c = \<lparr>cid_id = ''chatcmpl-'' @ hw_uuid w 0, cid_created = hw_clock w 1 div 1000, cid_model = chat_model q\<rparr>;
          url = node_endpoint n @ ''/complete'';
          body = \<lparr>cp_prompt = prompt, cp_nPredict = chat_maxTokens q, cp_stream = chat_stream q,
                  cp_includeUsage = chat_stream q\<rparr>;
          answer = hw_node w url body
      in (if chat_stream q then chat_streamed w c (chat_includeUsage q) answer else chat_whole c answer,
          [PostComplete url (bearer (hw_token w)) body], hw_others w 3 st))"

definition chat_admitted :: "http_world \<Rightarrow> chat_request \<Rightarrow> string \<Rightarrow> server_state \<Rightarrow> result" where
  "chat_admitted w q prompt st =
     (let st = on_co (co_demand_update (record_request (chat_model q) (hw_clock w 1))) st;
          (selected, co, k) = route_from_registry (chat_model q) (hw_clock w 1) (hw_random w) (sv_draws st) (sv_co st);
          st = st\<lparr>sv_co := co, sv_draws := k\<rparr>
      in case selected of
           None \<Rightarrow> (chat_reply 503 (''No active node currently serves model '' @ [CHR 0x27] @ chat_model q @ [CHR 0x27] @ ''.''),
                    [], st)
         | Some n \<Rightarrow> chat_forward w q prompt n st)"

definition chat_checked :: "http_world \<Rightarrow> json \<Rightarrow> server_state \<Rightarrow> result" where
  "chat_checked w body st =
     (case checked_chat w body of
        Inl ChatThrows \<Rightarrow> (internal_error, [], st)
      | Inl (ChatBad msg code) \<Rightarrow> (send_json 400 (chat_error_json msg code), [], st)
      | Inr q \<Rightarrow>
          (let prompt = build_prompt_from_messages (chat_messages q);
               st = hw_others w 1 st
           in case chat_blocked w prompt of
                Some msg \<Rightarrow> (chat_reply 400 msg, [], st)
              | None \<Rightarrow> chat_admitted w q prompt st))"

definition post_chat_completions :: "http_world \<Rightarrow> request \<Rightarrow> server_state \<Rightarrow> result" where
  "post_chat_completions w rq st =
     (let st = hw_others w 0 st
      in case read_json_body (rq_body rq) of
           Inl JsonParseError \<Rightarrow> (chat_reply 400 ''request body is not valid JSON'', [], st)
         | Inl BodyStreamError \<Rightarrow> (internal_error, [], st)
         | Inr body \<Rightarrow> chat_checked w body st)"

end
