(* ===== verification/Example_Http.thy ===== *)
theory Example_Http
  imports Http_Messages Example_Swarm
begin

text \<open>
  A concrete world for the witnesses of the HTTP theories: the example swarm with the token
  \<open>secret\<close>, a classifier that flags the prompt \<open>bad\<close>, and nodes that answer every completion.
\<close>

definition example_reply :: node_reply where
  "example_reply =
     \<lparr>nr_status = 200, nr_contentType = Some ''Text/Event-Stream; charset=utf-8'',
      nr_json = Some (JObj [(''text'', JStr ''hi'')]),
      nr_stream = Some ([''data: hi'' @ [CHR 0x0A, CHR 0x0A], ''data: [DONE]'' @ [CHR 0x0A, CHR 0x0A]], True)\<rparr>"

definition example_http :: http_world where
  "example_http =
     \<lparr>hw_config = example_config, hw_token = ''secret'', hw_clock = (\<lambda>_. 10), hw_others = (\<lambda>_ st. st),
      hw_uuid = (\<lambda>i. if i = 0 then ''u0'' else ''u1''), hw_random = (\<lambda>_. 0),
      hw_classify = (\<lambda>p. Resolves 5 (Some (JObj [(''safe'', JBool (p \<noteq> ''bad'')), (''categories'', JArr [])]))),
      hw_node = (\<lambda>_ _. NodeReplied example_reply), hw_peer = (\<lambda>_. PeerThrew), hw_launcher = (\<lambda>_. FetchOk),
      hw_joined_ok = True, hw_file = (\<lambda>_. None), hw_document = JObj [],
      hw_json_parse = (\<lambda>s. if s = ''null'' then Some JNull else None), hw_show = (\<lambda>_. ''0'')\<rparr>"

definition example_server :: server_state where
  "example_server = \<lparr>sv_co = example_swarm, sv_inFlight = [], sv_draws = 0\<rparr>"

definition example_request :: "string \<Rightarrow> string \<Rightarrow> (string \<times> json) list \<Rightarrow> request" where
  "example_request m path body =
     \<lparr>rq_method = Some m, rq_pathname = Some path, rq_authorization = Some ''Bearer secret'',
      rq_body = JsonBody (JObj body)\<rparr>"

abbreviation example_generate :: "string \<Rightarrow> request" where
  "example_generate prompt \<equiv>
     example_request ''POST'' ''/generate'' [(''prompt'', JStr prompt), (''modelId'', JStr ''m1'')]"

end
