(* ===== verification/Server.thy ===== *)
theory Server
  imports Registry_Routes Chat_Route Example_Http
begin

text \<open>
  The request listener of \<open>createServer\<close>, \<^verbatim>\<open>coordinator/src/server.ts\<close>: parsing of the path, the
  four public routes, the bearer token in front of everything else, and the routes in the code's
  order. The properties are about all requests: nothing happens without the token, nothing
  reaches a node that the classifier has not passed, and a request the gate turns away leaves no
  trace.
\<close>

definition is_public_route :: "string \<Rightarrow> string list \<Rightarrow> bool" where
  "is_public_route m parts \<longleftrightarrow>
     m = ''GET'' \<and> parts = [] \<or>
     m = ''GET'' \<and> length parts = 1 \<and> (parts ! 0 = ''app.js'' \<or> parts ! 0 = ''style.css'' \<or> parts ! 0 = ''openapi.json'')"

definition dispatch_static :: "http_world \<Rightarrow> string \<Rightarrow> string list \<Rightarrow> server_state \<Rightarrow> result" where
  "dispatch_static w m parts st =
     (if m = ''GET'' \<and> parts = [] then (serve_static_file w ''index.html'' ''text/html; charset=utf-8'', [], st)
      else if m = ''GET'' \<and> parts = [''app.js''] then (serve_static_file w ''app.js'' ''application/javascript; charset=utf-8'', [], st)
      else if m = ''GET'' \<and> parts = [''style.css''] then (serve_static_file w ''style.css'' ''text/css; charset=utf-8'', [], st)
      else if m = ''GET'' \<and> parts = [''openapi.json''] then (send_json 200 (hw_document w), [], st)
      else (send_status 404, [], st))"

text \<open>The routes that name no identifier in their path.\<close>

definition dispatch_fixed :: "http_world \<Rightarrow> request \<Rightarrow> string \<Rightarrow> string list \<Rightarrow> server_state \<Rightarrow> result option" where
  "dispatch_fixed w rq m parts st =
     (if m = ''POST'' \<and> parts = [''nodes'', ''register''] then Some (post_nodes_register w rq st)
      else if m = ''GET'' \<and> parts = [''nodes''] then Some (get_nodes w st)
      else if m = ''GET'' \<and> parts = [''nodes'', ''locality''] then Some (get_nodes_locality w st)
      else if m = ''GET'' \<and> parts = [''capacity''] then Some (get_capacity w st)
      else if m = ''POST'' \<and> parts = [''peers'', ''register''] then Some (post_peers_register w rq st)
      else if m = ''POST'' \<and> parts = [''launchers'', ''register''] then Some (post_launchers_register w rq st)
      else if m = ''GET'' \<and> parts = [''peers''] then Some (get_peers w st)
      else if m = ''GET'' \<and> parts = [''catalog''] then Some (get_catalog w st)
      else if m = ''POST'' \<and> parts = [''classify''] then Some (post_classify w rq st)
      else if m = ''POST'' \<and> parts = [''generate''] then Some (post_generate w rq st)
      else if m = ''GET'' \<and> parts = [''v1'', ''models''] then Some (get_models w st)
      else if m = ''POST'' \<and> parts = [''v1'', ''chat'', ''completions''] then Some (post_chat_completions w rq st)
      else None)"

text \<open>The routes with an identifier as their second part. No path is both of one and of the other kind.\<close>

definition dispatch_ident :: "http_world \<Rightarrow> string \<Rightarrow> string list \<Rightarrow> server_state \<Rightarrow> result option" where
  "dispatch_ident w m parts st =
     (case parts of
        [a, i, b] \<Rightarrow>
          if m = ''POST'' \<and> a = ''nodes'' \<and> b = ''heartbeat'' then Some (post_node_heartbeat w i st)
          else if m = ''GET'' \<and> a = ''nodes'' \<and> b = ''reputation'' then Some (get_reputation w i st)
          else if m = ''POST'' \<and> a = ''launchers'' \<and> b = ''heartbeat'' then Some (post_launcher_heartbeat w i st)
          else if m = ''POST'' \<and> a = ''peers'' \<and> b = ''heartbeat'' then Some (post_peer_heartbeat w i st)
          else None
      | [a, i, b, c] \<Rightarrow>
          if m = ''POST'' \<and> a = ''nodes'' \<and> b = ''reputation'' \<and> (c = ''agree'' \<or> c = ''disagree'')
          then Some (post_reputation w i c st) else None
      | [a, i] \<Rightarrow> if m = ''DELETE'' \<and> a = ''peers'' then Some (delete_peer w i st) else None
      | _ \<Rightarrow> None)"

definition dispatch :: "http_world \<Rightarrow> request \<Rightarrow> string \<Rightarrow> string list \<Rightarrow> server_state \<Rightarrow> result" where
  "dispatch w rq m parts st =
     (case dispatch_fixed w rq m parts st of
        Some r \<Rightarrow> r
      | None \<Rightarrow> (case dispatch_ident w m parts st of Some r \<Rightarrow> r | None \<Rightarrow> dispatch_static w m parts st))"

definition handle :: "http_world \<Rightarrow> request \<Rightarrow> server_state \<Rightarrow> result" where
  "handle w rq st =
     (let m = (case rq_method rq of None \<Rightarrow> ''GET'' | Some m \<Rightarrow> m)
      in case rq_pathname rq of
           None \<Rightarrow> (internal_error, [], st)
         | Some pathname \<Rightarrow>
             (let parts = path_parts pathname
              in if \<not> is_public_route m parts \<and> \<not> is_authorized (rq_authorization rq) (hw_token w)
                 then (send_unauthorized, [], st)
                 else dispatch w rq m parts st))"

subsection \<open>Nothing happens without the token\<close>

lemma public_route_dispatch:
  assumes "is_public_route m parts"
  shows "dispatch w rq m parts st = dispatch_static w m parts st"
proof -
  from assms consider "m = ''GET''" "parts = []" | p where "m = ''GET''" "parts = [p]"
    "p = ''app.js'' \<or> p = ''style.css'' \<or> p = ''openapi.json''"
    by (cases parts) (auto simp: is_public_route_def)
  then show ?thesis
    by cases (auto simp: dispatch_def dispatch_fixed_def dispatch_ident_def)
qed

text \<open>
  C4: Without the token a request has no effect. A request that does not carry exactly the header
  \<open>Bearer <token>\<close> changes no state and causes no outgoing call; it gets the 401 reply that names
  the scheme, unless it asks for the dashboard's files or the API document, or its URL does not parse.
\<close>

theorem no_effect_without_token:
  assumes "rq_authorization rq \<noteq> Some (bearer (hw_token w))"
  shows "snd (handle w rq st) = ([], st) \<and>
    (fst (handle w rq st) = send_unauthorized \<or> rq_pathname rq = None \<or>
     (\<exists>path. rq_pathname rq = Some path \<and>
        path_parts path \<in> {[], [''app.js''], [''style.css''], [''openapi.json'']}))"
proof (cases "rq_pathname rq")
  case None
  then show ?thesis by (simp add: handle_def Let_def)
next
  case (Some path)
  let ?m = "case rq_method rq of None \<Rightarrow> ''GET'' | Some m \<Rightarrow> m"
  have unauthorized: "\<not> is_authorized (rq_authorization rq) (hw_token w)"
    using assms by (simp add: is_authorized_iff)
  show ?thesis
  proof (cases "is_public_route ?m (path_parts path)")
    case True
    then have "path_parts path \<in> {[], [''app.js''], [''style.css''], [''openapi.json'']}"
      by (cases "path_parts path") (auto simp: is_public_route_def)
    moreover have "handle w rq st = dispatch_static w ?m (path_parts path) st"
      using public_route_dispatch [OF True] True by (simp add: handle_def Some Let_def)
    moreover have "snd (dispatch_static w ?m (path_parts path) st) = ([], st)"
      by (simp add: dispatch_static_def)
    ultimately show ?thesis using Some by simp
  next
    case False
    then show ?thesis using unauthorized by (simp add: handle_def Some Let_def)
  qed
qed

theorem no_effect_without_token_witness:
  "snd (handle example_http (example_generate ''hi''\<lparr>rq_authorization := Some ''bearer secret''\<rparr>) example_server) =
     ([], example_server)"
proof -
  have "rq_authorization (example_generate ''hi''\<lparr>rq_authorization := Some ''bearer secret''\<rparr>) \<noteq>
      Some (bearer (hw_token example_http))"
    by code_simp
  from no_effect_without_token [OF this] show ?thesis by blast
qed

subsection \<open>The gate\<close>

lemma token_count_bounds: "token_count v = Some n \<Longrightarrow> 1 \<le> n \<and> n \<le> 512"
proof -
  assume count: "token_count v = Some n"
  then obtain r where "v = JNum (Fin r)" "of_int \<lfloor>r\<rfloor> = r" "1 \<le> r" "r \<le> 512" "n = \<lfloor>r\<rfloor>"
    by (cases v rule: token_count.cases; cases "case v of JNum x \<Rightarrow> x")
      (auto simp: MAX_N_PREDICT_def split: if_splits)
  then show ?thesis by (simp add: le_floor_iff floor_le_iff)
qed

declare token_count.simps [simp del]

lemma checked_n_predict_bounds: "checked_n_predict body = Inr n \<Longrightarrow> 1 \<le> n \<and> n \<le> 512"
  by (auto simp: checked_n_predict_def DEFAULT_N_PREDICT_def split: option.splits dest: token_count_bounds)

lemma checked_generation_bounds:
  "checked_generation cfg body = Inr g \<Longrightarrow> 1 \<le> gen_nPredict g \<and> gen_nPredict g \<le> 512"
  by (auto simp: checked_generation_def checked_iff dest: checked_n_predict_bounds)

lemma checked_max_tokens_bounds: "checked_max_tokens body = Inr n \<Longrightarrow> 1 \<le> n \<and> n \<le> 512"
  by (auto simp: checked_max_tokens_def DEFAULT_N_PREDICT_def split: option.splits json_value.splits
      dest: token_count_bounds)

lemma checked_chat_bounds:
  "checked_chat w body = Inr q \<Longrightarrow> 1 \<le> chat_maxTokens q \<and> chat_maxTokens q \<le> 512"
  by (auto simp: checked_chat_def checked_iff Let_def split: if_splits dest: checked_max_tokens_bounds)

text \<open>A call to a node that the gate stands behind.\<close>

definition vouched :: "http_world \<Rightarrow> outgoing \<Rightarrow> bool" where
  "vouched w call \<longleftrightarrow>
     (case call of
        PostComplete url auth c \<Rightarrow>
          (\<exists>cats. verdict w (cp_prompt c) = Some (True, cats)) \<and> 1 \<le> cp_nPredict c \<and> cp_nPredict c \<le> 512 \<and>
          auth = bearer (hw_token w)
      | _ \<Rightarrow> True)"

lemma blocked_categories_None: "blocked_categories w p = None \<Longrightarrow> \<exists>cats. verdict w p = Some (True, cats)"
  by (auto simp: blocked_categories_def split: option.splits bool.splits)

lemma chat_blocked_None: "chat_blocked w p = None \<Longrightarrow> \<exists>cats. verdict w p = Some (True, cats)"
  by (auto simp: chat_blocked_def Let_def split: option.splits bool.splits)

lemma forward_calls: "fst (snd (forward w g n calls st)) = calls @
    [PostComplete (node_endpoint n @ ''/complete'') (bearer (hw_token w))
      \<lparr>cp_prompt = gen_prompt g, cp_nPredict = gen_nPredict g, cp_stream = gen_stream g, cp_includeUsage = False\<rparr>]"
  by (simp add: forward_def Let_def split: prod.split)

lemma ensure_calls: "call \<in> set (fst (snd (ensure_pipeline_ready w m st))) \<Longrightarrow> \<exists>c. call = ToLauncher c"
  by (auto simp: ensure_pipeline_ready_def Let_def split: if_splits prod.splits)

lemma generate_cold_calls:
  assumes "call \<in> set (fst (snd (generate_cold w g st)))"
  shows "(\<exists>c. call = ToLauncher c) \<or> (\<exists>n st. call \<in> set (fst (snd (forward w g n [] st))))"
proof -
  obtain ok calls st' where e: "ensure_pipeline_ready w (gen_model g) st = (ok, calls, st')"
    by (cases "ensure_pipeline_ready w (gen_model g) st") auto
  have launcher: "call \<in> set calls \<Longrightarrow> \<exists>c. call = ToLauncher c"
    using ensure_calls [of call w "gen_model g" st] e by auto
  obtain n co k where r: "route_from_registry (gen_model g) (hw_clock w 4) (hw_random w) (sv_draws st') (sv_co st') = (n, co, k)"
    by (rule prod_cases3)
  show ?thesis
  proof (cases "ok \<and> n \<noteq> None")
    case True
    then obtain d where "n = Some d" by blast
    with True assms e r have "call \<in> set (fst (snd (forward w g d calls (st'\<lparr>sv_co := co, sv_draws := k\<rparr>))))"
      by (simp add: generate_cold_def Let_def)
    with launcher show ?thesis by (auto simp: forward_calls)
  next
    case False
    with assms e r have "call \<in> set calls"
      by (cases ok; cases n) (auto simp: generate_cold_def Let_def)
    with launcher show ?thesis by blast
  qed
qed

lemma post_generate_calls:
  assumes "call \<in> set (fst (snd (post_generate w rq st)))"
  shows "(\<exists>c. call = ToLauncher c) \<or>
    (\<exists>body g n. checked_generation (hw_config w) body = Inr g \<and> blocked_categories w (gen_prompt g) = None \<and>
       call \<in> set (fst (snd (forward w g n [] st))))"
proof -
  from assms obtain body g where g: "checked_generation (hw_config w) body = Inr g"
      "blocked_categories w (gen_prompt g) = None"
      and call: "call \<in> set (fst (snd (generate_admitted w g (hw_others w 1 (hw_others w 0 st)))))"
    by (auto simp: post_generate_def with_body_def checked_reply_def
        split: sum.splits body_error.splits option.splits)
  obtain n co where r: "route_from_pool (gen_model g) (hw_clock w 1) (sv_co (hw_others w 1 (hw_others w 0 st))) = (n, co)"
    by (rule prod.exhaust)
  show ?thesis
  proof (cases n)
    case None
    with call r have "call \<in> set (fst (snd (generate_cold w g ((hw_others w 1 (hw_others w 0 st))\<lparr>sv_co := co\<rparr>))))"
      by (simp add: generate_admitted_def)
    with generate_cold_calls [OF this] g show ?thesis by (auto simp: forward_calls)
  next
    case (Some d)
    with call r have "call \<in> set (fst (snd (forward w g d [] st)))"
      by (simp add: generate_admitted_def forward_calls)
    with g show ?thesis by blast
  qed
qed

lemma post_generate_vouched: "call \<in> set (fst (snd (post_generate w rq st))) \<Longrightarrow> vouched w call"
  using post_generate_calls [of call w rq st] checked_generation_bounds blocked_categories_None
  by (fastforce simp: vouched_def forward_calls)

lemma post_chat_calls:
  assumes "call \<in> set (fst (snd (post_chat_completions w rq st)))"
  shows "\<exists>body q n st'. checked_chat w body = Inr q \<and>
    chat_blocked w (build_prompt_from_messages (chat_messages q)) = None \<and>
    call \<in> set (fst (snd (chat_forward w q (build_prompt_from_messages (chat_messages q)) n st')))"
proof -
  obtain body where "call \<in> set (fst (snd (chat_checked w body (hw_others w 0 st))))"
    using assms by (auto simp: post_chat_completions_def Let_def split: sum.splits body_error.splits)
  then obtain q where q: "checked_chat w body = Inr q" "chat_blocked w (build_prompt_from_messages (chat_messages q)) = None"
      and "call \<in> set (fst (snd (chat_admitted w q (build_prompt_from_messages (chat_messages q))
             (hw_others w 1 (hw_others w 0 st)))))"
    by (auto simp: chat_checked_def Let_def split: sum.splits chat_error.splits option.splits)
  then show ?thesis by (fastforce simp: chat_admitted_def Let_def split: prod.splits option.splits)
qed

lemma post_chat_vouched: "call \<in> set (fst (snd (post_chat_completions w rq st))) \<Longrightarrow> vouched w call"
  using post_chat_calls [of call w rq st] checked_chat_bounds chat_blocked_None
  by (fastforce simp: vouched_def chat_forward_def Let_def)

lemma get_catalog_vouched: "call \<in> set (fst (snd (get_catalog w st))) \<Longrightarrow> vouched w call"
  by (auto simp: get_catalog_def federated_active_node_count_def vouched_def Let_def split: prod.splits)

named_theorems silent \<open>handlers that make no outgoing call\<close>

lemma with_body_silent:
  "(\<And>v st. fst (snd (k v st)) = []) \<Longrightarrow> fst (snd (with_body w rq st k)) = []"
  by (auto simp: with_body_def split: sum.split body_error.split)

lemma checked_reply_silent:
  "(\<And>v. fst (snd (k v)) = []) \<Longrightarrow> fst (snd (checked_reply c st k)) = []"
  by (auto simp: checked_reply_def split: sum.split)

lemma silent_routes [silent]:
  "fst (snd (post_nodes_register w rq st)) = []" "fst (snd (post_peers_register w rq st)) = []"
  "fst (snd (post_launchers_register w rq st)) = []" "fst (snd (post_classify w rq st)) = []"
  by (auto simp: post_nodes_register_def post_peers_register_def post_launchers_register_def post_classify_def Let_def
      intro!: with_body_silent checked_reply_silent split: prod.splits)

lemma silent_listings [silent]:
  "fst (snd (get_nodes w st)) = []" "fst (snd (get_nodes_locality w st)) = []" "fst (snd (get_capacity w st)) = []"
  "fst (snd (get_peers w st)) = []" "fst (snd (get_models w st)) = []"
  by (simp_all add: get_nodes_def get_nodes_locality_def get_capacity_def get_peers_def get_models_def split: prod.splits)

lemma silent_idents [silent]:
  "dispatch_ident w m parts st = Some r \<Longrightarrow> fst (snd r) = []"
  by (auto simp: dispatch_ident_def post_node_heartbeat_def get_reputation_def post_launcher_heartbeat_def
      post_peer_heartbeat_def post_reputation_def delete_peer_def Let_def split: list.splits if_splits prod.splits)

lemma silent_static [silent]: "fst (snd (dispatch_static w m parts st)) = []"
  by (simp add: dispatch_static_def)

lemma dispatch_fixed_vouched:
  assumes "dispatch_fixed w rq m parts st = Some r" and "call \<in> set (fst (snd r))"
  shows "vouched w call"
  using assms unfolding dispatch_fixed_def
  by (auto simp: silent post_generate_vouched post_chat_vouched get_catalog_vouched split: if_splits)

text \<open>
  C3: Nothing reaches a node unless the classifier has passed it. Whatever the request and whatever
  else runs meanwhile, every completion the server asks of a node carries a prompt that the
  classifier has judged safe, in time and in the right form, a token count between 1 and 512, and
  the server's own credentials.
\<close>

theorem only_vetted_prompts_forwarded:
  assumes "call \<in> set (fst (snd (handle w rq st)))"
  shows "case call of
      PostComplete url auth c \<Rightarrow>
        (\<exists>cats. verdict w (cp_prompt c) = Some (True, cats)) \<and> cp_nPredict c \<in> {1..512} \<and> auth = bearer (hw_token w)
    | _ \<Rightarrow> True"
proof -
  let ?m = "case rq_method rq of None \<Rightarrow> ''GET'' | Some m \<Rightarrow> m"
  from assms obtain parts where "call \<in> set (fst (snd (dispatch w rq ?m parts st)))"
    by (auto simp: handle_def Let_def split: option.splits if_splits)
  then consider r where "dispatch_fixed w rq ?m parts st = Some r" "call \<in> set (fst (snd r))"
    | r where "dispatch_ident w ?m parts st = Some r" "call \<in> set (fst (snd r))"
    | "call \<in> set (fst (snd (dispatch_static w ?m parts st)))"
    by (cases "dispatch_fixed w rq ?m parts st"; cases "dispatch_ident w ?m parts st") (auto simp: dispatch_def)
  then have "vouched w call"
    by cases (simp_all add: dispatch_fixed_vouched silent silent_idents)
  then show ?thesis by (simp add: vouched_def split: outgoing.splits)
qed

theorem only_vetted_prompts_forwarded_witness: "\<exists>cats. verdict example_http ''hi'' = Some (True, cats)"
proof -
  have "PostComplete ''http://h1:7000/complete'' (bearer ''secret'')
      \<lparr>cp_prompt = ''hi'', cp_nPredict = 64, cp_stream = False, cp_includeUsage = False\<rparr>
      \<in> set (fst (snd (handle example_http (example_generate ''hi'') example_server)))"
    by code_simp
  from only_vetted_prompts_forwarded [OF this] show ?thesis by simp
qed

subsection \<open>A rejected request has no effect\<close>

text \<open>A result that, where its status is 400, shows that the handler did nothing.\<close>

definition harmless_400 :: "http_world \<Rightarrow> server_state \<Rightarrow> result \<Rightarrow> bool" where
  "harmless_400 w st r \<longleftrightarrow>
     rs_status (fst r) = 400 \<longrightarrow>
     fst (snd r) = [] \<and> snd (snd r) \<in> {hw_others w 0 st, hw_others w 1 (hw_others w 0 st)}"

named_theorems harmless \<open>routes that have no effect when they answer 400\<close>

lemma status_simps [simp]:
  "rs_status (send_json s v) = s" "rs_status (send_status s) = s" "rs_status (event_stream cs) = 200"
  "rs_status send_unauthorized = 401" "rs_status bad_json = 400" "rs_status internal_error = 500"
  "rs_status (chat_reply s msg) = s" "rs_status (found_reply b) = (if b then 204 else 404)"
  by (simp_all add: send_json_def send_status_def event_stream_def send_unauthorized_def bad_json_def
      internal_error_def chat_reply_def found_reply_def)

lemma forward_whole_status: "rs_status (fst (forward_whole g n a st)) \<in> {200, 502}"
  by (simp add: forward_whole_def forward_failed_def split: node_answer.split option.split json_value.split)

lemma forward_stream_status: "rs_status (fst (forward_stream g n a st)) \<in> {200, 502}"
  by (simp add: forward_stream_def forward_failed_def split: node_answer.split option.split prod.split)

lemma forward_status: "rs_status (fst (forward w g n calls st)) \<in> {200, 502}"
  using forward_whole_status forward_stream_status
  by (simp add: forward_def Let_def case_prod_beta)

lemma generate_cold_status: "rs_status (fst (generate_cold w g st)) \<in> {200, 500, 502, 503}"
proof -
  have "rs_status (fst (forward w g n calls st')) \<in> {200, 500, 502, 503}" for n calls st'
    using forward_status [of w g n calls st'] by blast
  then show ?thesis
    by (simp add: generate_cold_def Let_def split: prod.split bool.split option.split)
qed

lemma generate_admitted_status: "rs_status (fst (generate_admitted w g st)) \<in> {200, 500, 502, 503}"
proof -
  have "rs_status (fst (forward w g n calls st')) \<in> {200, 500, 502, 503}" for n calls st'
    using forward_status [of w g n calls st'] by blast
  with generate_cold_status show ?thesis
    by (simp add: generate_admitted_def split: prod.split option.split)
qed

lemma with_body_harmless:
  assumes "\<And>v. harmless_400 w st (k v (hw_others w 0 st))"
  shows "harmless_400 w st (with_body w rq st k)"
  using assms by (auto simp: with_body_def harmless_400_def split: sum.split body_error.split)

lemma checked_reply_harmless:
  assumes "st' = hw_others w 0 st" and "\<And>v. c = Inr v \<Longrightarrow> harmless_400 w st (k v)"
  shows "harmless_400 w st (checked_reply c st' k)"
  using assms by (auto simp: checked_reply_def harmless_400_def split: sum.split)

lemma harmless_status: "rs_status (fst r) \<noteq> 400 \<Longrightarrow> harmless_400 w st r"
  by (simp add: harmless_400_def)

lemma harmless_registrations [harmless]:
  "harmless_400 w st (post_nodes_register w rq st)" "harmless_400 w st (post_peers_register w rq st)"
  "harmless_400 w st (post_launchers_register w rq st)" "harmless_400 w st (post_classify w rq st)"
  unfolding post_nodes_register_def post_peers_register_def post_launchers_register_def post_classify_def
  by (rule with_body_harmless, rule checked_reply_harmless, rule refl, rule harmless_status,
      simp add: Let_def split: prod.split option.split)+

lemma harmless_generate [harmless]: "harmless_400 w st (post_generate w rq st)"
proof -
  have "harmless_400 w st (generate_admitted w g st')" for g st'
    using generate_admitted_status [of w g st'] by (intro harmless_status) auto
  then show ?thesis unfolding post_generate_def
    by (intro with_body_harmless checked_reply_harmless) (auto simp: harmless_400_def split: option.split)
qed

lemma chat_forward_status: "rs_status (fst (chat_forward w q p n st)) \<in> {200, 502}"
  by (simp add: chat_forward_def Let_def chat_streamed_def chat_whole_def
      split: node_answer.split option.split json_value.split prod.split)

lemma chat_admitted_status: "rs_status (fst (chat_admitted w q p st)) \<in> {200, 502, 503}"
proof -
  have "rs_status (fst (chat_forward w q p n st')) \<in> {200, 502, 503}" for n st'
    using chat_forward_status [of w q p n st'] by blast
  then show ?thesis by (simp add: chat_admitted_def Let_def split: prod.split option.split)
qed

lemma harmless_chat [harmless]: "harmless_400 w st (post_chat_completions w rq st)"
proof -
  have admitted: "harmless_400 w st (chat_admitted w q p st')" for q p st'
    using chat_admitted_status [of w q p st'] by (intro harmless_status) auto
  have "harmless_400 w st (chat_checked w body (hw_others w 0 st))" for body
    using admitted
    by (auto simp: chat_checked_def Let_def harmless_400_def split: sum.split chat_error.split option.split)
  then show ?thesis
    by (auto simp: post_chat_completions_def Let_def harmless_400_def split: sum.split body_error.split)
qed

lemma harmless_listings [harmless]:
  "harmless_400 w st (get_nodes w st)" "harmless_400 w st (get_nodes_locality w st)" "harmless_400 w st (get_capacity w st)"
  "harmless_400 w st (get_peers w st)" "harmless_400 w st (get_models w st)" "harmless_400 w st (get_catalog w st)"
  by (rule harmless_status, simp add: get_nodes_def get_nodes_locality_def get_capacity_def get_peers_def
      get_models_def get_catalog_def split: prod.split)+

lemma ident_status: "dispatch_ident w m parts st = Some r \<Longrightarrow> rs_status (fst r) \<in> {200, 204, 404}"
  by (auto simp: dispatch_ident_def post_node_heartbeat_def get_reputation_def post_launcher_heartbeat_def
      post_peer_heartbeat_def post_reputation_def delete_peer_def Let_def split: list.splits if_splits prod.splits)

lemma static_status: "rs_status (fst (dispatch_static w m parts st)) \<in> {200, 404}"
  by (simp add: dispatch_static_def serve_static_file_def split: option.split)

lemma fixed_harmless: "dispatch_fixed w rq m parts st = Some r \<Longrightarrow> harmless_400 w st r"
  unfolding dispatch_fixed_def by (auto simp: harmless split: if_splits)

text \<open>
  C12: A rejected request has no effect. Whenever the reply is 400, for a body that is no JSON, a
  field that fails its check, or a prompt that the classifier flags, fails on or does not judge in
  time, the handler has changed nothing, demand included, and has called nobody: the state is what
  the other handlers have made of it meanwhile.
\<close>

theorem rejected_request_no_effect:
  assumes "rs_status (fst (handle w rq st)) = 400"
  shows "fst (snd (handle w rq st)) = [] \<and>
    snd (snd (handle w rq st)) \<in> {hw_others w 0 st, hw_others w 1 (hw_others w 0 st)}"
proof -
  let ?m = "case rq_method rq of None \<Rightarrow> ''GET'' | Some m \<Rightarrow> m"
  have "harmless_400 w st (dispatch w rq ?m parts st)" for parts
  proof (cases "dispatch_fixed w rq ?m parts st")
    case None
    have "rs_status (fst (dispatch w rq ?m parts st)) \<noteq> 400"
      using ident_status [of w ?m parts st] static_status [of w ?m parts st] None
      by (cases "dispatch_ident w ?m parts st") (auto simp: dispatch_def)
    then show ?thesis by (rule harmless_status)
  qed (simp add: dispatch_def fixed_harmless)
  then have "harmless_400 w st (handle w rq st)"
    by (auto simp: handle_def Let_def intro: harmless_status split: option.split)
  with assms show ?thesis by (simp add: harmless_400_def)
qed

theorem rejected_request_no_effect_witness:
  "snd (snd (handle example_http (example_generate ''bad'') example_server)) = example_server"
proof -
  have "rs_status (fst (handle example_http (example_generate ''bad'') example_server)) = 400" by code_simp
  from rejected_request_no_effect [OF this] show ?thesis by (simp add: example_http_def)
qed

end
