(* ===== verification/Server_Types.thy ===== *)
theory Server_Types
  imports Server
begin

text \<open>
  The types of what the server stores. TypeScript's types are erased, and the server's inputs are
  untyped JSON; \<open>swarm_typed\<close> says what the stored data must look like for the rest of the code to
  be right about it, and the theorem is that no request, however malformed, can break it.
\<close>

text \<open>A node advertises a model of the catalog or none, a named locality or none, and no negative memory.\<close>

definition node_typed :: "config \<Rightarrow> 'a node_info_scheme \<Rightarrow> bool" where
  "node_typed cfg n \<longleftrightarrow>
     (case servesModel n of None \<Rightarrow> True | Some m \<Rightarrow> has_model (cfg_catalog cfg) m) \<and>
     localityGroup n \<noteq> Some [] \<and>
     (case availableMemoryMb n of None \<Rightarrow> True | Some r \<Rightarrow> 0 \<le> r)"

definition nodes_typed :: "config \<Rightarrow> node_registry \<Rightarrow> bool" where
  "nodes_typed cfg r \<longleftrightarrow> nodes_wf (cfg_sha256 cfg) r \<and> (\<forall>(k, n) \<in> set (nodes r). node_typed cfg n)"

definition launchers_typed :: "launcher_registry \<Rightarrow> bool" where
  "launchers_typed r \<longleftrightarrow> (\<forall>(k, l) \<in> set (launchers r). 1 \<le> agentPort l)"

definition swarm_typed :: "config \<Rightarrow> coordinator \<Rightarrow> bool" where
  "swarm_typed cfg co \<longleftrightarrow> nodes_typed cfg (co_nodes co) \<and> launchers_typed (co_launchers co)"

named_theorems typed_intros \<open>operations that keep the types\<close>

subsection \<open>The registries\<close>

lemma nodes_typed_list [typed_intros]: "nodes_typed cfg r \<Longrightarrow> nodes_typed cfg (snd (list_active rep now r))"
  by (auto simp: nodes_typed_def nodes_wf_list_active) (auto simp: list_active_eq)

lemma nodes_typed_group [typed_intros]:
  "nodes_typed cfg r \<Longrightarrow> nodes_typed cfg (snd (group_by_locality rep now r))"
  using nodes_typed_list [of cfg r rep now] by (simp add: group_by_locality_def case_prod_beta)

lemma nodes_typed_heartbeat [typed_intros]:
  assumes "nodes_typed cfg r"
  shows "nodes_typed cfg (snd (node_heartbeat nid now r))"
proof -
  have "\<forall>(k, n) \<in> set (nodes (snd (node_heartbeat nid now r))). node_typed cfg n"
  proof (cases "map_get (nodes r) nid")
    case None
    with assms show ?thesis by (simp add: node_heartbeat_def nodes_typed_def)
  next
    case (Some n)
    then have "node_typed cfg n" using assms by (auto simp: nodes_typed_def dest: map_get_mem)
    then have "node_typed cfg (n\<lparr>node_lastSeen := now\<rparr>)" by (simp add: node_typed_def)
    then show ?thesis using assms Some set_map_set_subset [of nid "n\<lparr>node_lastSeen := now\<rparr>" "nodes r"]
      by (auto simp: node_heartbeat_def nodes_typed_def set_map_delete)
  qed
  with assms show ?thesis by (simp add: nodes_typed_def nodes_wf_heartbeat)
qed

lemma nodes_typed_register:
  assumes "nodes_typed cfg r"
    and "case model of None \<Rightarrow> True | Some m \<Rightarrow> has_model (cfg_catalog cfg) m" and "loc \<noteq> Some []"
    and "case mem of None \<Rightarrow> True | Some x \<Rightarrow> 0 \<le> x"
  shows "nodes_typed cfg (snd (register_node (cfg_sha256 cfg) e tier loc model mem now r))"
proof -
  let ?n = "\<lparr>nodeId = stable_node_id (cfg_sha256 cfg) e, node_endpoint = e, deviceTier = tier, localityGroup = loc,
      servesModel = model, availableMemoryMb = mem, node_lastSeen = now\<rparr>"
  have "node_typed cfg ?n" using assms by (simp add: node_typed_def)
  then have "\<forall>(k, n) \<in> set (nodes (snd (register_node (cfg_sha256 cfg) e tier loc model mem now r))). node_typed cfg n"
    using assms(1) set_map_set_subset [of "nodeId ?n" ?n "nodes r"]
    by (auto simp: register_node_def Let_def nodes_typed_def)
  moreover have "nodes_wf (cfg_sha256 cfg) (snd (register_node (cfg_sha256 cfg) e tier loc model mem now r))"
    using assms(1) nodes_wf_register by (simp add: nodes_typed_def)
  ultimately show ?thesis by (simp add: nodes_typed_def)
qed

lemma launchers_typed_list [typed_intros]: "launchers_typed r \<Longrightarrow> launchers_typed (snd (list_launchers now r))"
  by (auto simp: launchers_typed_def list_launchers_eq)

lemma launchers_typed_model [typed_intros]: "launchers_typed r \<Longrightarrow> launchers_typed (snd (list_for_model m now r))"
  using launchers_typed_list [of r now] by (simp add: list_for_model_def case_prod_beta)

lemma launchers_typed_heartbeat [typed_intros]:
  assumes "launchers_typed r"
  shows "launchers_typed (snd (launcher_heartbeat lid now r))"
proof (cases "map_get (launchers r) lid")
  case None
  with assms show ?thesis by (simp add: launcher_heartbeat_def)
next
  case (Some l)
  then have "1 \<le> agentPort l" using assms by (auto simp: launchers_typed_def dest: map_get_mem)
  then show ?thesis using assms Some set_map_set_subset [of lid "l\<lparr>launcher_lastSeen := now\<rparr>" "launchers r"]
    by (auto simp: launcher_heartbeat_def launchers_typed_def set_map_delete)
qed

lemma register_launcher_loop_typed:
  assumes "\<forall>(k, l) \<in> set m. 1 \<le> agentPort l" and "1 \<le> port"
  shows "\<forall>(k, l) \<in> set (snd (register_launcher_loop tmo now e models port m)). 1 \<le> agentPort l"
  using assms by (induction m) (auto split: if_splits prod.splits)

lemma launchers_typed_register:
  assumes "launchers_typed r" and "1 \<le> port"
  shows "launchers_typed (snd (register_launcher e models port uuid now r))"
proof -
  obtain found kept where loop: "register_launcher_loop (launcher_timeoutMs r) now e models port (launchers r) = (found, kept)"
    by (rule prod.exhaust)
  have kept: "\<forall>(k, l) \<in> set kept. 1 \<le> agentPort l"
    using register_launcher_loop_typed [of "launchers r" port] assms loop by (metis launchers_typed_def snd_conv)
  show ?thesis
  proof (cases found)
    case None
    let ?l = "\<lparr>launcherId = uuid, launcher_endpoint = e, servesModels = models, agentPort = port, launcher_lastSeen = now\<rparr>"
    have "set (map_set uuid ?l kept) \<subseteq> insert (uuid, ?l) (set kept)" by (rule set_map_set_subset)
    with kept assms(2) loop None show ?thesis
      by (auto simp: register_launcher_def launchers_typed_def)
  qed (use kept loop in \<open>simp add: register_launcher_def launchers_typed_def\<close>)
qed

subsection \<open>Assembly and routing\<close>

lemma typed_cold_begin:
  assumes "swarm_typed cfg st" and "cold_begin cfg m now u rnd k st = (r, st', k')"
  shows "swarm_typed cfg st'"
proof -
  have nodes: "nodes_typed cfg (co_nodes st)" and ls: "launchers_typed (co_launchers st)"
    using assms(1) by (simp_all add: swarm_typed_def)
  have "nodes_typed cfg (co_nodes st')"
    using assms(2) nodes by (auto simp: cold_begin_def Let_def case_prod_beta intro!: typed_intros
      split: option.splits if_splits list.splits)
  moreover have "launchers_typed (co_launchers st')"
    using assms(2) ls by (auto simp: cold_begin_def Let_def case_prod_beta intro!: typed_intros
      split: option.splits if_splits list.splits)
  ultimately show ?thesis by (simp add: swarm_typed_def)
qed

lemma swarm_typed_cong:
  "co_nodes st' = co_nodes st \<Longrightarrow> co_launchers st' = co_launchers st \<Longrightarrow> swarm_typed cfg st' = swarm_typed cfg st"
  by (simp add: swarm_typed_def)

lemma typed_cold_failed [typed_intros]: "swarm_typed cfg st \<Longrightarrow> swarm_typed cfg (cold_failed a st)"
  by (simp add: swarm_typed_def cold_failed_def Let_def)

lemma typed_cold_commit [typed_intros]: "swarm_typed cfg st \<Longrightarrow> swarm_typed cfg (cold_commit a nid u now st)"
  by (simp add: swarm_typed_def cold_commit_def Let_def)

lemma typed_stop [typed_intros]:
  "swarm_typed cfg st \<Longrightarrow> swarm_typed cfg (snd (stop_launcher_pipeline lid fb now st))"
  using launchers_typed_list [of "co_launchers st" now]
  by (auto simp: swarm_typed_def stop_launcher_pipeline_def Let_def case_prod_beta split: option.split)

lemma typed_cold_stop [typed_intros]: "swarm_typed cfg st \<Longrightarrow> swarm_typed cfg (snd (cold_stop a now st))"
  using typed_stop by (auto simp: cold_stop_def split: option.split)

lemma typed_cold_register:
  assumes "swarm_typed cfg st" and "has_model (cfg_catalog cfg) (asm_model a)"
  shows "swarm_typed cfg (snd (cold_register cfg a now st))"
  using assms nodes_typed_register [of cfg "co_nodes st" "Some (asm_model a)" None None]
  by (auto simp: swarm_typed_def cold_register_def register_driver_def Let_def case_prod_beta split: option.split)

lemma typed_assemble:
  assumes "swarm_typed cfg st" and "has_model (cfg_catalog cfg) m"
  shows "swarm_typed cfg (fst (snd (snd (assemble_pipeline cfg reply m now now' now'' u u' rnd k st))))"
proof -
  obtain r st1 k1 where b: "cold_begin cfg m now u rnd k st = (r, st1, k1)" by (metis prod_cases3)
  have st1: "swarm_typed cfg st1" by (rule typed_cold_begin [OF assms(1) b])
  show ?thesis
  proof (cases r)
    case (Reserved a)
    have "asm_model a = m" using cold_begin_Reserved(1) b Reserved by blast
    then have reg: "swarm_typed cfg (snd (cold_register cfg a now' st1))"
      using typed_cold_register [OF st1, of a now'] assms(2) by simp
    obtain x st2 where x: "cold_register cfg a now' st1 = (x, st2)" by (rule prod.exhaust)
    with reg have st2: "swarm_typed cfg st2" by simp
    with typed_cold_stop have "swarm_typed cfg (snd (cold_stop a now' st2))" by blast
    with b Reserved x st1 st2 show ?thesis
      by (auto simp: assemble_pipeline_def Let_def case_prod_beta intro: typed_intros
          split: fetch_outcome.split option.split)
  qed (use b st1 in \<open>simp_all add: assemble_pipeline_def\<close>)
qed

lemma typed_route_pool [typed_intros]:
  "swarm_typed cfg st \<Longrightarrow> swarm_typed cfg (snd (route_from_pool m now st))"
  using nodes_typed_list [of cfg "co_nodes st" "Some (co_reputation st)" now] nodes_typed_heartbeat
  by (auto simp: swarm_typed_def route_from_pool_def Let_def case_prod_beta split: list.split)

lemma typed_route_registry [typed_intros]:
  "swarm_typed cfg st \<Longrightarrow> swarm_typed cfg (fst (snd (route_from_registry m now rnd k st)))"
  using nodes_typed_list [of cfg "co_nodes st" "Some (co_reputation st)" now]
  by (simp add: swarm_typed_def route_from_registry_def Let_def case_prod_beta)

lemma typed_mark [typed_intros]: "swarm_typed cfg st \<Longrightarrow> swarm_typed cfg (mark_driver_failed m nid st)"
  by (simp add: swarm_typed_def mark_driver_failed_def)

subsection \<open>The handlers\<close>

text \<open>A result leaves a typed swarm. The others keep the types of what they are given.\<close>

abbreviation server_typed :: "http_world \<Rightarrow> server_state \<Rightarrow> bool" where
  "server_typed w st \<equiv> swarm_typed (hw_config w) (sv_co st)"

definition others_typed :: "http_world \<Rightarrow> bool" where
  "others_typed w \<longleftrightarrow> (\<forall>i st. server_typed w st \<longrightarrow> server_typed w (hw_others w i st))"

lemma others_typedD [typed_intros]: "others_typed w \<Longrightarrow> server_typed w st \<Longrightarrow> server_typed w (hw_others w i st)"
  by (simp add: others_typed_def)

lemma with_body_typed:
  assumes "others_typed w" and "server_typed w st"
    and "\<And>v st. server_typed w st \<Longrightarrow> server_typed w (snd (snd (k v st)))"
  shows "server_typed w (snd (snd (with_body w rq st k)))"
  using assms others_typedD by (auto simp: with_body_def split: sum.split body_error.split)

lemma checked_reply_typed:
  assumes "server_typed w st" and "\<And>v. c = Inr v \<Longrightarrow> server_typed w (snd (snd (k v)))"
  shows "server_typed w (snd (snd (checked_reply c st k)))"
  using assms by (auto simp: checked_reply_def split: sum.split)

lemma checked_node_fields:
  assumes "checked_node cfg body = Inr r"
  shows "case nreg_model r of None \<Rightarrow> True | Some m \<Rightarrow> has_model (cfg_catalog cfg) m"
    and "nreg_locality r \<noteq> Some []" and "case nreg_memory r of None \<Rightarrow> True | Some x \<Rightarrow> 0 \<le> x"
proof -
  have num: "\<not> num_lt n 0 \<Longrightarrow> 0 \<le> num_value n" for n by (cases n) simp_all
  from assms obtain c where "checked_locality c = Inr (nreg_locality r)" "checked_model cfg c = Inr (nreg_model r)"
      "checked_memory c = Inr (nreg_memory r)"
    by (auto simp: checked_node_def checked_iff)
  then show "case nreg_model r of None \<Rightarrow> True | Some m \<Rightarrow> has_model (cfg_catalog cfg) m"
    and "nreg_locality r \<noteq> Some []" and "case nreg_memory r of None \<Rightarrow> True | Some x \<Rightarrow> 0 \<le> x"
    by (auto simp: checked_locality_def checked_model_def checked_memory_def num
        split: option.splits json_value.splits if_splits)
qed

lemma checked_port_positive: "checked_port c = Inr p \<Longrightarrow> 1 \<le> p"
proof -
  assume "checked_port c = Inr p"
  then obtain n where "is_integer n" "\<not> num_lt n 1" "p = \<lfloor>num_value n\<rfloor>"
    by (auto simp: checked_port_def split: option.splits json_value.splits if_splits)
  then show ?thesis by (cases n) (auto simp: le_floor_iff)
qed

lemma checked_launcher_port: "checked_launcher cfg body = Inr (e, ms, p) \<Longrightarrow> 1 \<le> p"
  by (auto simp: checked_launcher_def checked_iff dest: checked_port_positive)

lemma swarm_typed_updates [simp]:
  "swarm_typed cfg (co_nodes_update f co) \<longleftrightarrow> nodes_typed cfg (f (co_nodes co)) \<and> launchers_typed (co_launchers co)"
  "swarm_typed cfg (co_launchers_update g co) \<longleftrightarrow> nodes_typed cfg (co_nodes co) \<and> launchers_typed (g (co_launchers co))"
  "swarm_typed cfg (co_peers_update h co) \<longleftrightarrow> swarm_typed cfg co"
  "swarm_typed cfg (co_reputation_update i co) \<longleftrightarrow> swarm_typed cfg co"
  "swarm_typed cfg (co_demand_update j co) \<longleftrightarrow> swarm_typed cfg co"
  by (simp_all add: swarm_typed_def)

lemma swarm_typedD:
  "swarm_typed cfg co \<Longrightarrow> nodes_typed cfg (co_nodes co)" "swarm_typed cfg co \<Longrightarrow> launchers_typed (co_launchers co)"
  by (simp_all add: swarm_typed_def)

named_theorems typed_routes \<open>routes that keep the types\<close>

lemma typed_trusted_nodes: "server_typed w st \<Longrightarrow> server_typed w (snd (trusted_nodes w i st))"
  by (simp add: trusted_nodes_def case_prod_beta nodes_typed_list swarm_typedD)

lemma typed_node_exists: "server_typed w st \<Longrightarrow> server_typed w (snd (node_exists w nid st))"
  by (simp add: node_exists_def case_prod_beta nodes_typed_list swarm_typedD)

lemma typed_list_peers_now: "server_typed w st \<Longrightarrow> server_typed w (snd (list_peers_now w st))"
  by (simp add: list_peers_now_def case_prod_beta)

lemma typed_registrations [typed_routes]:
  assumes "others_typed w" and "server_typed w st"
  shows "server_typed w (snd (snd (post_nodes_register w rq st)))"
    and "server_typed w (snd (snd (post_peers_register w rq st)))"
    and "server_typed w (snd (snd (post_launchers_register w rq st)))"
    and "server_typed w (snd (snd (post_classify w rq st)))"
  unfolding post_nodes_register_def post_peers_register_def post_launchers_register_def post_classify_def
  by (auto intro!: with_body_typed [OF assms] checked_reply_typed others_typedD [OF assms(1)]
      nodes_typed_register launchers_typed_register
      simp: Let_def case_prod_beta checked_node_fields swarm_typedD dest: checked_launcher_port)

lemma typed_listings [typed_routes]:
  assumes "others_typed w" and "server_typed w st"
  shows "server_typed w (snd (snd (get_nodes w st)))" and "server_typed w (snd (snd (get_nodes_locality w st)))"
    and "server_typed w (snd (snd (get_capacity w st)))" and "server_typed w (snd (snd (get_peers w st)))"
    and "server_typed w (snd (snd (get_models w st)))" and "server_typed w (snd (snd (get_catalog w st)))"
  using assms typed_trusted_nodes [OF assms(2), of 0] typed_list_peers_now [OF assms(2)]
    others_typedD [OF assms(1) typed_list_peers_now [OF typed_trusted_nodes [OF assms(2), of 0]], of 1]
  by (simp_all add: get_nodes_def get_nodes_locality_def get_capacity_def get_peers_def get_models_def get_catalog_def
      federated_active_node_count_def case_prod_beta Let_def nodes_typed_group swarm_typedD)

lemma typed_idents [typed_routes]:
  assumes "server_typed w st" and "dispatch_ident w m parts st = Some r"
  shows "server_typed w (snd (snd r))"
  using assms typed_node_exists [OF assms(1)]
  by (auto simp: dispatch_ident_def post_node_heartbeat_def get_reputation_def post_launcher_heartbeat_def
      post_peer_heartbeat_def post_reputation_def delete_peer_def Let_def case_prod_beta
      nodes_typed_heartbeat launchers_typed_heartbeat swarm_typedD split: list.splits if_splits)

lemma typed_forward [typed_routes]:
  assumes "others_typed w" and "server_typed w st"
  shows "server_typed w (snd (snd (forward w g n calls st)))"
proof -
  have st: "server_typed w (hw_others w 3 st)" by (rule others_typedD [OF assms])
  then have failed: "server_typed w (snd (forward_failed g n msg (hw_others w 3 st)))" for msg
    by (simp add: forward_failed_def typed_mark)
  have "server_typed w (snd (forward_whole g n a (hw_others w 3 st)))" for a
    using st failed by (simp add: forward_whole_def split: node_answer.split option.split json_value.split)
  moreover have "server_typed w (snd (forward_stream g n a (hw_others w 3 st)))" for a
    using st failed by (simp add: forward_stream_def typed_mark split: node_answer.split option.split prod.split)
  ultimately show ?thesis by (simp add: forward_def Let_def case_prod_beta)
qed

lemma typed_ensure:
  assumes "others_typed w" and "server_typed w st" and "has_model (cfg_catalog (hw_config w)) m"
  shows "server_typed w (snd (snd (ensure_pipeline_ready w m st)))"
proof (cases "m \<in> set (sv_inFlight st)")
  case True
  with others_typedD [OF assms(1,2)] show ?thesis by (simp add: ensure_pipeline_ready_def)
next
  case False
  obtain ok calls co k where a: "assemble_pipeline (hw_config w) (hw_launcher w) m (hw_clock w 1) (hw_clock w 2)
      (hw_clock w 3) (hw_uuid w 0) (hw_uuid w 1) (hw_random w) (sv_draws st) (sv_co st) = (ok, calls, co, k)"
    by (rule prod_cases4)
  with typed_assemble [OF assms(2,3)] have "swarm_typed (hw_config w) co" by (metis fst_conv snd_conv)
  then have "server_typed w (hw_others w 2 (st\<lparr>sv_co := co, sv_draws := k, sv_inFlight := m # sv_inFlight st\<rparr>))"
    by (intro others_typedD [OF assms(1)]) simp
  with a False show ?thesis by (simp add: ensure_pipeline_ready_def Let_def)
qed

lemma typed_generate_cold:
  assumes "others_typed w" and "server_typed w st" and "has_model (cfg_catalog (hw_config w)) (gen_model g)"
  shows "server_typed w (snd (snd (generate_cold w g st)))"
proof -
  obtain ok calls st2 where e: "ensure_pipeline_ready w (gen_model g) st = (ok, calls, st2)" by (rule prod_cases3)
  with typed_ensure [OF assms] have st2: "server_typed w st2" by simp
  obtain n co k where r: "route_from_registry (gen_model g) (hw_clock w 4) (hw_random w) (sv_draws st2) (sv_co st2) = (n, co, k)"
    by (rule prod_cases3)
  have "swarm_typed (hw_config w) (fst (snd (n, co, k)))" unfolding r [symmetric] by (rule typed_route_registry [OF st2])
  then have co: "swarm_typed (hw_config w) co" by simp
  then have "server_typed w (st2\<lparr>sv_co := co, sv_draws := k\<rparr>)" by simp
  note fwd = typed_forward [OF assms(1) this]
  consider "\<not> ok" | "ok" "n = None" | d where "ok" "n = Some d" by blast
  then show ?thesis
  proof cases
    case 1
    then show ?thesis using e st2 by (simp add: generate_cold_def)
  next
    case 2
    then show ?thesis using e r co by (simp add: generate_cold_def Let_def)
  next
    case (3 d)
    then have "generate_cold w g st = forward w g d calls (st2\<lparr>sv_co := co, sv_draws := k\<rparr>)"
      using e r by (simp add: generate_cold_def Let_def)
    then show ?thesis using fwd by simp
  qed
qed

lemma typed_generate_admitted:
  assumes "others_typed w" and "server_typed w st" and "has_model (cfg_catalog (hw_config w)) (gen_model g)"
  shows "server_typed w (snd (snd (generate_admitted w g st)))"
proof -
  obtain n co where r: "route_from_pool (gen_model g) (hw_clock w 1) (sv_co st) = (n, co)" by (rule prod.exhaust)
  have "swarm_typed (hw_config w) (snd (n, co))" unfolding r [symmetric] by (rule typed_route_pool [OF assms(2)])
  then have st2: "server_typed w (st\<lparr>sv_co := co\<rparr>)" by simp
  show ?thesis
  proof (cases n)
    case None
    with r have "generate_admitted w g st = generate_cold w g (st\<lparr>sv_co := co\<rparr>)" by (simp add: generate_admitted_def)
    with typed_generate_cold [OF assms(1) st2 assms(3)] show ?thesis by simp
  next
    case (Some d)
    with r have "generate_admitted w g st = forward w g d [] (st\<lparr>sv_co := co\<rparr>)" by (simp add: generate_admitted_def)
    with typed_forward [OF assms(1) st2] show ?thesis by simp
  qed
qed

lemma checked_generation_model:
  "checked_generation cfg body = Inr g \<Longrightarrow> has_model (cfg_catalog cfg) (gen_model g)"
proof -
  assume "checked_generation cfg body = Inr g"
  then obtain c where "checked_model_id cfg c = Inr (gen_model g)"
    by (auto simp: checked_generation_def checked_iff)
  then show ?thesis by (auto simp: checked_model_id_def split: option.splits json_value.splits if_splits)
qed

lemma typed_generate [typed_routes]:
  assumes "others_typed w" and "server_typed w st"
  shows "server_typed w (snd (snd (post_generate w rq st)))"
  unfolding post_generate_def
proof (intro with_body_typed [OF assms] checked_reply_typed)
  fix body st' g
  assume st': "server_typed w st'" and g: "checked_generation (hw_config w) body = Inr g"
  from others_typedD [OF assms(1) st', of 1] have st2: "server_typed w (hw_others w 1 st')" .
  from typed_generate_admitted [OF assms(1) this checked_generation_model [OF g]] st2
  show "server_typed w (snd (snd (case blocked_categories w (gen_prompt g) of
       None \<Rightarrow> generate_admitted w g (hw_others w 1 st')
     | Some cats \<Rightarrow> (send_json 400 (verdict_json False cats), [], hw_others w 1 st'))))"
    by (simp split: option.split)
qed

lemma typed_chat [typed_routes]:
  assumes "others_typed w" and "server_typed w st"
  shows "server_typed w (snd (snd (post_chat_completions w rq st)))"
proof -
  have admitted: "server_typed w (snd (snd (chat_admitted w q p st')))" if "server_typed w st'" for q p st'
  proof -
    let ?st = "on_co (co_demand_update (record_request (chat_model q) (hw_clock w 1))) st'"
    obtain n co k where r: "route_from_registry (chat_model q) (hw_clock w 1) (hw_random w) (sv_draws ?st) (sv_co ?st) = (n, co, k)"
      by (rule prod_cases3)
    have "server_typed w ?st" using that by simp
    then have "swarm_typed (hw_config w) (fst (snd (n, co, k)))" unfolding r [symmetric] by (rule typed_route_registry)
    then have co: "swarm_typed (hw_config w) co" by simp
    then have "server_typed w (hw_others w 3 (?st\<lparr>sv_co := co, sv_draws := k\<rparr>))"
      by (intro others_typedD [OF assms(1)]) simp
    with r co show ?thesis by (cases n) (simp_all add: chat_admitted_def chat_forward_def Let_def)
  qed
  have st0: "server_typed w (hw_others w 0 st)" by (rule others_typedD [OF assms])
  have st1: "server_typed w (hw_others w 1 (hw_others w 0 st))" by (rule others_typedD [OF assms(1) st0])
  have "server_typed w (snd (snd (chat_checked w body (hw_others w 0 st))))" for body
    using st0 st1 admitted [OF st1] by (simp add: chat_checked_def Let_def split: sum.split chat_error.split option.split)
  with st0 show ?thesis by (simp add: post_chat_completions_def Let_def split: sum.split body_error.split)
qed

lemma typed_static: "snd (snd (dispatch_static w m parts st)) = st"
  by (simp add: dispatch_static_def)

lemma typed_fixed:
  assumes "others_typed w" and "server_typed w st" and "dispatch_fixed w rq m parts st = Some r"
  shows "server_typed w (snd (snd r))"
  using assms(3) typed_routes(1-10) [OF assms(1,2)] typed_generate [OF assms(1,2)] typed_chat [OF assms(1,2)]
  unfolding dispatch_fixed_def by (auto split: if_splits)

text \<open>
  C13: No request can corrupt the stored types. Whatever is sent, with whatever JSON in its body, if
  the stored data is well-typed and the other handlers keep it so, it is well-typed afterwards:
  every node is filed under its own identity, serves a model of the catalog or none, has a
  non-empty locality or none and no negative memory, and every launcher has a positive port.
\<close>

theorem requests_preserve_types:
  assumes "others_typed w" and "swarm_typed (hw_config w) (sv_co st)"
  shows "swarm_typed (hw_config w) (sv_co (snd (snd (handle w rq st))))"
proof -
  let ?m = "case rq_method rq of None \<Rightarrow> ''GET'' | Some m \<Rightarrow> m"
  have "server_typed w (snd (snd (dispatch w rq ?m parts st)))" for parts
    using typed_fixed [OF assms] typed_idents [OF assms(2)] assms(2)
    by (simp add: dispatch_def typed_static split: option.split)
  with assms(2) show ?thesis by (simp add: handle_def Let_def split: option.split)
qed

theorem requests_preserve_types_witness:
  "swarm_typed example_config (sv_co (snd (snd (handle example_http (example_generate ''hi'') example_server))))"
proof -
  have others: "others_typed example_http" by (simp add: others_typed_def example_http_def)
  have "swarm_typed (hw_config example_http) (sv_co example_server)" by code_simp
  from requests_preserve_types [OF others this] show ?thesis by (simp add: example_http_def)
qed

end
