(* ===== verification/Chat_Relay.thy ===== *)
theory Chat_Relay
  imports Chat_Route Example_Http
begin

text \<open>
  What a client reads from the stream of \<open>POST /v1/chat/completions\<close> (\<^verbatim>\<open>coordinator/src/server.ts\<close>),
  composed with the reader of \<^verbatim>\<open>sse_frames.ts\<close> on both hops: the relay writes whole frames only
  (\<open>relay_writes_frames\<close>), because JSON texts hold no newline. The decimal form of numbers is a
  parameter, of which only that is assumed.
\<close>

definition number_texts_ok :: "(number \<Rightarrow> string) \<Rightarrow> bool" where
  "number_texts_ok show \<longleftrightarrow> (\<forall>n. CHR 0x0A \<notin> set (show n))"

abbreviation data_frame :: "(number \<Rightarrow> string) \<Rightarrow> json \<Rightarrow> sse_frame" where
  "data_frame show v \<equiv> \<lparr>frame_event = None, frame_data = json_text show v\<rparr>"

abbreviation error_frame :: "(number \<Rightarrow> string) \<Rightarrow> json \<Rightarrow> sse_frame" where
  "error_frame show v \<equiv> \<lparr>frame_event = Some ''error'', frame_data = json_text show v\<rparr>"

lemma text_of_data_frame: "number_texts_ok show \<Longrightarrow> frame_text (data_frame show v) = data_chunk show v"
  using json_text_no_newline [of "show" v]
  by (simp add: number_texts_ok_def frame_text_def frame_lines_def data_chunk_def split_one del: split.simps)

lemma text_of_error_frame: "number_texts_ok show \<Longrightarrow> frame_text (error_frame show v) = error_chunk show v"
  using json_text_no_newline [of "show" v]
  by (simp add: number_texts_ok_def frame_text_def frame_lines_def error_chunk_def split_one del: split.simps)

lemma object_text_not_done: "json_text show (JObj kvs) \<noteq> ''[DONE]''"
  by simp

lemma chat_chunk_plain: "plain_frame (data_frame show (chat_chunk c delta finish))"
  by (simp add: plain_frame_def chat_chunk_def)

lemma usage_chunk_plain: "plain_frame (data_frame show (usage_chunk c u))"
  by (simp add: plain_frame_def usage_chunk_def)

lemma relay_error_plain: "plain_frame (error_frame show (relay_error_json m))"
  by (simp add: plain_frame_def relay_error_json_def)

lemmas relay_plain = chat_chunk_plain usage_chunk_plain relay_error_plain

text \<open>The chunk that carries a piece of the node's text.\<close>

abbreviation content_chunk :: "chat_id \<Rightarrow> sse_frame \<Rightarrow> json" where
  "content_chunk c f \<equiv> chat_chunk c [(''content'', JStr (frame_data f))] JNull"

lemma relay_writes_frames:
  assumes "number_texts_ok (hw_show w)"
  shows "\<exists>gs. fst (relay_loop w c u fs) = map frame_text gs \<and> list_all plain_frame gs \<and>
    (list_ex (\<lambda>g. frame_event g = Some ''error'') gs \<longleftrightarrow> snd (snd (relay_loop w c u fs)) = AtErrorFrame)"
proof (induction fs arbitrary: u)
  case Nil
  then show ?case by simp
next
  case (Cons f fs)
  show ?case
  proof (cases "frame_event f")
    case None
    obtain out u' e where r: "relay_loop w c u fs = (out, u', e)" by (rule prod_cases3)
    with Cons [of u] obtain gs where gs: "out = map frame_text gs" "list_all plain_frame gs"
        "list_ex (\<lambda>g. frame_event g = Some ''error'') gs \<longleftrightarrow> e = AtErrorFrame" by auto
    show ?thesis
      using gs r None relay_plain(1)
      by (intro exI [of _ "data_frame (hw_show w) (content_chunk c f) # gs"])
        (simp add: text_of_data_frame [OF assms])
  next
    case (Some ev)
    consider "ev = ''error''" | "ev \<noteq> ''error''" "ev = ''usage''" | "ev \<noteq> ''error''" "ev \<noteq> ''usage''" by blast
    then show ?thesis
    proof cases
      case 1
      then show ?thesis using Some relay_plain(3)
        by (intro exI [of _ "[error_frame (hw_show w) (relay_error_json (relay_error_message w (frame_data f)))]"])
          (simp add: text_of_error_frame [OF assms])
    next
      case 2
      then show ?thesis using Some Cons
        by (cases "case hw_json_parse w (frame_data f) of None \<Rightarrow> JObj [] | Some v \<Rightarrow> v")
          (auto intro: exI [of _ "[]"])
    next
      case 3
      then show ?thesis using Some Cons by simp
    qed
  qed
qed

lemma relay_error_source:
  "snd (snd (relay_loop w c u fs)) = AtErrorFrame \<Longrightarrow> list_ex (\<lambda>f. frame_event f = Some ''error'') fs"
  by (induction w c u fs rule: relay_loop.induct)
    (auto split: option.splits if_splits json_value.splits prod.splits)

text \<open>The frames of a node's stream that do not stop the relay.\<close>

definition relayable :: "http_world \<Rightarrow> sse_frame \<Rightarrow> bool" where
  "relayable w f \<longleftrightarrow> frame_event f \<noteq> Some ''error'' \<and>
     (frame_event f = Some ''usage'' \<longrightarrow> hw_json_parse w (frame_data f) \<noteq> Some JNull)"

lemma relay_loop_relayable:
  assumes "list_all (relayable w) fs"
  shows "\<exists>u'. relay_loop w c u fs =
    (map (\<lambda>f. data_chunk (hw_show w) (content_chunk c f)) (filter (\<lambda>f. frame_event f = None) fs), u', RanOut)"
  using assms
proof (induction fs arbitrary: u)
  case Nil
  then show ?case by simp
next
  case (Cons f fs)
  then have rest: "\<exists>u'. relay_loop w c v fs =
    (map (\<lambda>f. data_chunk (hw_show w) (content_chunk c f)) (filter (\<lambda>f. frame_event f = None) fs), u', RanOut)" for v
    by simp
  show ?case
  proof (cases "frame_event f")
    case None
    then show ?thesis using rest [of u] by auto
  next
    case (Some ev)
    with Cons.prems have "ev \<noteq> ''error''" by (auto simp: relayable_def)
    show ?thesis
    proof (cases "ev = ''usage''")
      case True
      let ?v = "case hw_json_parse w (frame_data f) of None \<Rightarrow> JObj [] | Some v \<Rightarrow> v"
      from True Some Cons.prems have "?v \<noteq> JNull" by (auto simp: relayable_def split: option.splits)
      then have "relay_loop w c u (f # fs) = relay_loop w c (usage_of ?v) fs"
        using Some True \<open>ev \<noteq> ''error''\<close> by (cases ?v) simp_all
      with rest [of "usage_of ?v"] Some show ?thesis by simp
    next
      case False
      with Some \<open>ev \<noteq> ''error''\<close> rest [of u] show ?thesis by simp
    qed
  qed
qed

subsection \<open>What the client reads\<close>

abbreviation role_chunk :: "chat_id \<Rightarrow> json" where
  "role_chunk c \<equiv> chat_chunk c [(''role'', JStr ''assistant'')] JNull"

text \<open>The chunks of a finished reply with these pieces of text.\<close>

definition reply_chunks :: "chat_id \<Rightarrow> sse_frame list \<Rightarrow> bool \<Rightarrow> usage \<Rightarrow> json list" where
  "reply_chunks c pieces includeUsage u =
     [role_chunk c] @ map (content_chunk c) pieces @ [chat_chunk c [] (JStr (us_finishReason u))] @
     (if includeUsage then [usage_chunk c u] else [])"

lemma reply_chunks_plain:
  "list_all plain_frame (map (data_frame show) (reply_chunks c pieces i u))"
  by (auto simp: reply_chunks_def list_all_iff relay_plain)

lemma relay_done:
  assumes "relay_loop w c \<lparr>us_finishReason = ''stop'', us_promptTokens = Fin 0, us_completionTokens = Fin 0\<rparr> fs =
      (map (\<lambda>f. data_chunk (hw_show w) (content_chunk c f)) pieces, u, RanOut)"
    and "read_sse_frames chunks e = (fs, Returned)"
  shows "concat (relay_stream w c i chunks e) =
    concat (map (data_chunk (hw_show w)) (reply_chunks c pieces i u)) @ done_text"
  using assms by (simp add: relay_stream_def relay_tail_def reply_chunks_def comp_def)

text \<open>
  C6: The relay delivers the reply. If the node streams text frames, usage and other events, and
  closes them with \<open>[DONE]\<close>, a client that reads the relay's stream, in whatever chunks either
  stream arrives, gets the role, then every piece of text in order and nothing else, whatever
  newlines or sentinels the text itself contains, then the finish reason, the usage if it asked
  for it, and a proper end.
\<close>

theorem chat_stream_delivers:
  assumes show_ok: "number_texts_ok (hw_show w)" and plain: "list_all plain_frame fs" and ok: "list_all (relayable w) fs"
    and sent: "concat chunks = concat (map frame_text fs) @ done_text @ rest"
    and relayed: "concat chunks' = concat (relay_stream w c i chunks e)"
  shows "\<exists>u. read_sse_frames chunks' e' =
    (map (data_frame (hw_show w)) (reply_chunks c (filter (\<lambda>f. frame_event f = None) fs) i u), Returned)"
proof -
  have read: "read_sse_frames chunks e = (fs, Returned)" by (rule read_written_done [OF plain sent])
  from relay_loop_relayable [OF ok] obtain u where
    "relay_loop w c \<lparr>us_finishReason = ''stop'', us_promptTokens = Fin 0, us_completionTokens = Fin 0\<rparr> fs =
      (map (\<lambda>f. data_chunk (hw_show w) (content_chunk c f)) (filter (\<lambda>f. frame_event f = None) fs), u, RanOut)"
    by blast
  from relay_done [OF this read, of i]
  have "concat chunks' = concat (map frame_text
      (map (data_frame (hw_show w)) (reply_chunks c (filter (\<lambda>f. frame_event f = None) fs) i u))) @ done_text @ []"
    using relayed by (simp add: text_of_data_frame [OF show_ok] comp_def)
  from read_written_done [OF reply_chunks_plain this] show ?thesis by blast
qed

definition example_chat_id :: chat_id where
  "example_chat_id = \<lparr>cid_id = ''chatcmpl-u0'', cid_created = 0, cid_model = ''m1''\<rparr>"

theorem chat_stream_delivers_witness:
  "\<exists>u. read_sse_frames (relay_stream example_http example_chat_id True
         [''data: a'' @ blank_line @ ''event: usage'' @ newline, ''data: {}'' @ blank_line @ ''data: [DONE]'' @ blank_line] Closed) Closed =
     (map (data_frame (hw_show example_http))
        (reply_chunks example_chat_id [\<lparr>frame_event = None, frame_data = ''a''\<rparr>] True u), Returned)"
proof -
  let ?fs = "[\<lparr>frame_event = None, frame_data = ''a''\<rparr>, \<lparr>frame_event = Some ''usage'', frame_data = ''{}''\<rparr>]"
  let ?chunks = "[''data: a'' @ blank_line @ ''event: usage'' @ newline, ''data: {}'' @ blank_line @ ''data: [DONE]'' @ blank_line]"
  have show_ok: "number_texts_ok (hw_show example_http)" by (simp add: number_texts_ok_def example_http_def)
  have plain: "list_all plain_frame ?fs" and ok: "list_all (relayable example_http) ?fs" by code_simp+
  have sent: "concat ?chunks = concat (map frame_text ?fs) @ done_text @ []" by code_simp
  from chat_stream_delivers [OF show_ok plain ok sent refl, of example_chat_id True Closed Closed] show ?thesis by simp
qed

lemma reader_end_terminal:
  assumes "snd (read_sse_frames chunks e) = Returned"
  shows "list_ex terminal_frame (whole_frames (concat chunks))"
proof (cases e)
  case Closed
  with assms read_returns_iff show ?thesis by simp
next
  case Aborted
  have "snd (sse_finish Aborted s) = ThrewReadError" for s by (cases s) simp
  with assms Aborted have "snd (read_sse_frames chunks Closed) = Returned"
    by (auto simp: read_sse_frames_def frame_loop_start react_all_def simp del: frame_loop.simps split: step.splits)
  with read_returns_iff show ?thesis by simp
qed

text \<open>
  C7: The relay never hides a truncation. A client reads a proper end from the relay's stream only if
  the node's own stream contained its terminal frame, \<open>[DONE]\<close> or an error: a node that died
  mid-generation, a connection lost on either hop, and a frame the relay stumbles over all reach
  the client as a truncated stream.
\<close>

theorem chat_truncation_never_hidden:
  assumes show_ok: "number_texts_ok (hw_show w)"
    and relayed: "concat chunks' = concat (relay_stream w c i chunks e)"
    and proper: "snd (read_sse_frames chunks' e') = Returned"
  shows "list_ex terminal_frame (whole_frames (concat chunks))"
proof (rule ccontr)
  assume none: "\<not> list_ex terminal_frame (whole_frames (concat chunks))"
  obtain fs re where fs: "read_sse_frames chunks e = (fs, re)" by (rule prod.exhaust)
  let ?u0 = "\<lparr>us_finishReason = ''stop'', us_promptTokens = Fin 0, us_completionTokens = Fin 0\<rparr>"
  obtain out u le where loop: "relay_loop w c ?u0 fs = (out, u, le)" by (rule prod_cases3)
  have "re \<noteq> Returned" using reader_end_terminal [of chunks e] none fs by auto
  then have stream: "relay_stream w c i chunks e = data_chunk (hw_show w) (role_chunk c) # out"
    using fs loop by (simp add: relay_stream_def)
  have "\<not> list_ex (\<lambda>f. frame_event f = Some ''error'') fs"
  proof
    assume "list_ex (\<lambda>f. frame_event f = Some ''error'') fs"
    then obtain f where f: "f \<in> set fs" "frame_event f = Some ''error''" by (auto simp: list_ex_iff)
    with yielded_frames [of f chunks e] fs obtain x where "x \<in> set (whole_frames (concat chunks))" "parse_frame x = Some f"
      by auto
    with f none show False by (auto simp: list_ex_iff terminal_frame_def)
  qed
  then have "le \<noteq> AtErrorFrame" using relay_error_source [of w c ?u0 fs] loop by auto
  with relay_writes_frames [OF show_ok, of c ?u0 fs] loop obtain gs where gs: "out = map frame_text gs"
      "list_all plain_frame gs" "\<not> list_ex (\<lambda>g. frame_event g = Some ''error'') gs" by auto
  let ?gs = "data_frame (hw_show w) (role_chunk c) # gs"
  have "concat chunks' = concat (map frame_text ?gs)"
    using relayed stream gs(1) by (simp add: text_of_data_frame [OF show_ok])
  moreover have "list_all plain_frame ?gs" using gs(2) relay_plain(1) by simp
  ultimately have "read_sse_frames chunks' e' = sse_finish e' (list_ex (\<lambda>f. frame_event f = Some ''error'') ?gs, ?gs)"
    by (intro read_written_open)
  with proper gs(3) show False by (cases e') simp_all
qed

theorem chat_truncation_never_hidden_witness:
  "list_ex terminal_frame (whole_frames (''data: a'' @ blank_line @ ''event: error'' @ newline @ ''data: x'' @ blank_line))"
proof -
  let ?chunks = "[''data: a'' @ blank_line @ ''event: error'' @ newline @ ''data: x'' @ blank_line]"
  have show_ok: "number_texts_ok (hw_show example_http)" by (simp add: number_texts_ok_def example_http_def)
  have "snd (read_sse_frames (relay_stream example_http example_chat_id True ?chunks Closed) Closed) = Returned" by code_simp
  from chat_truncation_never_hidden [OF show_ok refl this] show ?thesis by simp
qed

lemma relay_crashes:
  assumes "hw_json_parse w payload = Some JNull" and "list_all (\<lambda>f. frame_event f = None) fs"
  shows "\<exists>out. relay_loop w c u (fs @ \<lparr>frame_event = Some ''usage'', frame_data = payload\<rparr> # rest) = (out, u, Crashed)"
  using assms by (induction fs) auto

text \<open>
  C37: A usage frame whose payload is the JSON text \<open>null\<close> ends the client's stream. The code means a
  malformed usage frame to be harmless, but reads a property of the parsed \<open>null\<close> outside the inner
  \<open>try\<close>; the exception leaves the loop, and a reply that the node has finished properly reaches the
  client as a truncated one.
\<close>

theorem usage_null_cuts_the_reply:
  assumes show_ok: "number_texts_ok (hw_show w)" and null: "hw_json_parse w ''null'' = Some JNull"
    and pieces: "list_all (\<lambda>f. frame_event f = None) fs" and plain: "list_all plain_frame fs"
    and sent: "concat chunks =
      concat (map frame_text (fs @ [\<lparr>frame_event = Some ''usage'', frame_data = ''null''\<rparr>])) @ done_text"
  shows "snd (read_sse_frames chunks Closed) = Returned \<and>
    snd (read_sse_frames (relay_stream w c i chunks Closed) Closed) = ThrewTruncated"
proof -
  let ?fs = "fs @ [\<lparr>frame_event = Some ''usage'', frame_data = ''null''\<rparr>]"
  let ?u0 = "\<lparr>us_finishReason = ''stop'', us_promptTokens = Fin 0, us_completionTokens = Fin 0\<rparr>"
  have "list_all plain_frame ?fs" using plain by (simp add: plain_frame_def)
  then have read: "read_sse_frames chunks Closed = (?fs, Returned)"
    using read_written_done [of ?fs chunks "[]"] sent by simp
  from relay_crashes [OF null pieces, of c ?u0 "[]"] obtain out where loop: "relay_loop w c ?u0 ?fs = (out, ?u0, Crashed)"
    by auto
  with relay_writes_frames [OF show_ok, of c ?u0 ?fs] obtain gs where gs: "out = map frame_text gs"
      "list_all plain_frame gs" "\<not> list_ex (\<lambda>g. frame_event g = Some ''error'') gs" by auto
  let ?gs = "data_frame (hw_show w) (role_chunk c) # gs"
  have "concat (relay_stream w c i chunks Closed) = concat (map frame_text ?gs)"
    using read loop gs(1) by (simp add: relay_stream_def text_of_data_frame [OF show_ok])
  moreover have "list_all plain_frame ?gs" using gs(2) relay_plain(1) by simp
  ultimately have "read_sse_frames (relay_stream w c i chunks Closed) Closed =
      sse_finish Closed (list_ex (\<lambda>f. frame_event f = Some ''error'') ?gs, ?gs)"
    by (intro read_written_open)
  with read gs(3) show ?thesis by simp
qed

theorem usage_null_cuts_the_reply_witness:
  "snd (read_sse_frames (relay_stream example_http example_chat_id True
      [''data: a'' @ blank_line @ ''event: usage'' @ newline @ ''data: null'' @ blank_line @ ''data: [DONE]'' @ blank_line] Closed) Closed)
     = ThrewTruncated"
proof -
  let ?chunks = "[''data: a'' @ blank_line @ ''event: usage'' @ newline @ ''data: null'' @ blank_line @ ''data: [DONE]'' @ blank_line]"
  let ?fs = "[\<lparr>frame_event = None, frame_data = ''a''\<rparr>]"
  have show_ok: "number_texts_ok (hw_show example_http)" by (simp add: number_texts_ok_def example_http_def)
  have null: "hw_json_parse example_http ''null'' = Some JNull" by (simp add: example_http_def)
  have pieces: "list_all (\<lambda>f. frame_event f = None) ?fs" and plain: "list_all plain_frame ?fs" by code_simp+
  have sent: "concat ?chunks =
      concat (map frame_text (?fs @ [\<lparr>frame_event = Some ''usage'', frame_data = ''null''\<rparr>])) @ done_text" by code_simp
  from usage_null_cuts_the_reply [OF show_ok null pieces plain sent] show ?thesis by blast
qed

end
