(* ===== verification/Registration_Visibility.thy ===== *)
theory Registration_Visibility
  imports Server
begin

text \<open>
  Two requests in a row: what \<open>POST /nodes/register\<close> accepts, \<open>GET /nodes\<close> shows. The lemma
  \<open>handle_authorized\<close> takes a request with the token to its route.
\<close>

lemma handle_authorized:
  assumes "rq_method rq = Some m" and "rq_pathname rq = Some path"
    and "rq_authorization rq = Some (bearer (hw_token w))"
  shows "handle w rq st = dispatch w rq m (path_parts path) st"
  using assms by (simp add: handle_def is_authorized_iff)

lemma handle_register:
  assumes "rq_method rq = Some ''POST''" and "rq_pathname rq = Some path" and "path_parts path = [''nodes'', ''register'']"
    and "rq_authorization rq = Some (bearer (hw_token w))"
  shows "handle w rq st = post_nodes_register w rq st"
  using handle_authorized [OF assms(1,2,4)] assms(3) by (simp add: dispatch_def dispatch_fixed_def)

lemma handle_get_nodes:
  assumes "rq_method rq = Some ''GET''" and "rq_pathname rq = Some path" and "path_parts path = [''nodes'']"
    and "rq_authorization rq = Some (bearer (hw_token w))"
  shows "handle w rq st = get_nodes w st"
  using handle_authorized [OF assms(1,2,4)] assms(3) by (simp add: dispatch_def dispatch_fixed_def)

text \<open>The node a registration describes.\<close>

definition registered_node :: "config \<Rightarrow> node_registration \<Rightarrow> node_info" where
  "registered_node cfg r =
     \<lparr>nodeId = stable_node_id (cfg_sha256 cfg) (nreg_endpoint r), node_endpoint = nreg_endpoint r, deviceTier = nreg_tier r,
      localityGroup = nreg_locality r, servesModel = nreg_model r, availableMemoryMb = nreg_memory r\<rparr>"

lemma register_lists:
  assumes "now \<le> now'" and "now' - now \<le> node_timeoutMs nr" and "trusted_by rep (stable_node_id sha e)"
  shows "\<lparr>nodeId = stable_node_id sha e, node_endpoint = e, deviceTier = t, localityGroup = l, servesModel = m, availableMemoryMb = a\<rparr>
    \<in> set (fst (list_active rep now' (snd (register_node sha e t l m a now nr))))"
proof -
  let ?n = "\<lparr>nodeId = stable_node_id sha e, node_endpoint = e, deviceTier = t, localityGroup = l, servesModel = m,
    availableMemoryMb = a, node_lastSeen = now\<rparr>"
  let ?r = "snd (register_node sha e t l m a now nr)"
  have "map_get (nodes ?r) (stable_node_id sha e) = Some ?n"
    by (simp add: register_node_def Let_def js_map_simps)
  then have "(stable_node_id sha e, ?n) \<in> set (nodes ?r)" by (rule map_get_mem)
  moreover have "node_live ?r now' ?n" using assms by (simp add: node_live_def register_node_def Let_def)
  ultimately have "node_info.truncate ?n \<in> set (fst (list_active rep now' ?r))"
    using assms(3) unfolding list_active_eq by force
  then show ?thesis by (simp add: node_info.defs)
qed

text \<open>
  C32: What registers is listed. If a registration is answered 200, its body was valid, the reply
  carries the identity of the normalised endpoint, and a listing within the timeout shows exactly
  the registered data under that identity, as long as the node is trusted.
\<close>

theorem registered_node_listed:
  assumes post: "rq_method rq = Some ''POST''" "rq_pathname rq = Some path" "path_parts path = [''nodes'', ''register'']"
      "rq_authorization rq = Some (bearer (hw_token w))"
    and accepted: "rs_status (fst (handle w rq st)) = 200"
    and get: "rq_method rq' = Some ''GET''" "rq_pathname rq' = Some path'" "path_parts path' = [''nodes'']"
      "rq_authorization rq' = Some (bearer (hw_token w'))"
    and time: "hw_clock w 0 \<le> hw_clock w' 0"
      "hw_clock w' 0 - hw_clock w 0 \<le> node_timeoutMs (co_nodes (sv_co (hw_others w 0 st)))"
  shows "\<exists>body r ns. read_json_body (rq_body rq) = Inr body \<and> checked_node (hw_config w) body = Inr r \<and>
    fst (handle w rq st) = send_json 200 (JObj [(''nodeId'', JStr (nodeId (registered_node (hw_config w) r)))]) \<and>
    fst (handle w' rq' (snd (snd (handle w rq st)))) = send_json 200 (JArr ns) \<and>
    (is_trusted (co_reputation (sv_co (hw_others w 0 st))) (nodeId (registered_node (hw_config w) r)) \<longrightarrow>
       node_json (registered_node (hw_config w) r) \<in> set ns)"
proof -
  let ?st = "hw_others w 0 st"
  have h: "handle w rq st = post_nodes_register w rq st" by (rule handle_register [OF post])
  with accepted obtain body where body: "read_json_body (rq_body rq) = Inr body"
    by (auto simp: post_nodes_register_def with_body_def split: sum.splits body_error.splits)
  with h accepted obtain r where r: "checked_node (hw_config w) body = Inr r"
    by (auto simp: post_nodes_register_def with_body_def checked_reply_def split: sum.splits)
  let ?n = "registered_node (hw_config w) r"
  let ?nr = "snd (register_node (cfg_sha256 (hw_config w)) (nreg_endpoint r) (nreg_tier r) (nreg_locality r) (nreg_model r)
      (nreg_memory r) (hw_clock w 0) (co_nodes (sv_co ?st)))"
  have replied: "handle w rq st = (send_json 200 (JObj [(''nodeId'', JStr (nodeId ?n))]), [], on_co (co_nodes_update (\<lambda>_. ?nr)) ?st)"
    using h body r
    by (simp add: post_nodes_register_def with_body_def checked_reply_def registered_node_def register_node_def Let_def)
  let ?ns = "fst (list_active (Some (co_reputation (sv_co ?st))) (hw_clock w' 0) ?nr)"
  have listing: "fst (handle w' rq' (snd (snd (handle w rq st)))) = send_json 200 (JArr (map node_json ?ns))"
    unfolding handle_get_nodes [OF get] using replied by (simp add: get_nodes_def trusted_nodes_def case_prod_beta)
  have "is_trusted (co_reputation (sv_co ?st)) (nodeId ?n) \<Longrightarrow> ?n \<in> set ?ns"
    using register_lists [OF time] by (simp add: registered_node_def trusted_by_def)
  then have "is_trusted (co_reputation (sv_co ?st)) (nodeId ?n) \<longrightarrow> node_json ?n \<in> set (map node_json ?ns)" by auto
  with body r replied listing show ?thesis by auto
qed

theorem registered_node_listed_witness:
  "\<exists>ns. fst (handle example_http (example_request ''GET'' ''/nodes'' [])
       (snd (snd (handle example_http (example_request ''POST'' ''/nodes/register/''
          [(''endpoint'', JStr ''http://c/''), (''deviceTier'', JStr ''ios'')]) example_server)))) = send_json 200 (JArr ns)"
proof -
  let ?rq = "example_request ''POST'' ''/nodes/register/'' [(''endpoint'', JStr ''http://c/''), (''deviceTier'', JStr ''ios'')]"
  let ?rq' = "example_request ''GET'' ''/nodes'' []"
  have post: "rq_method ?rq = Some ''POST''" "rq_pathname ?rq = Some ''/nodes/register/''"
      "path_parts ''/nodes/register/'' = [''nodes'', ''register'']" "rq_authorization ?rq = Some (bearer (hw_token example_http))"
    by code_simp+
  have accepted: "rs_status (fst (handle example_http ?rq example_server)) = 200" by code_simp
  have get: "rq_method ?rq' = Some ''GET''" "rq_pathname ?rq' = Some ''/nodes''" "path_parts ''/nodes'' = [''nodes'']"
      "rq_authorization ?rq' = Some (bearer (hw_token example_http))"
    by code_simp+
  have time: "hw_clock example_http 0 \<le> hw_clock example_http 0"
      "hw_clock example_http 0 - hw_clock example_http 0 \<le> node_timeoutMs (co_nodes (sv_co (hw_others example_http 0 example_server)))"
    by code_simp+
  from registered_node_listed [OF post accepted get time] show ?thesis by blast
qed

end
