(* ===== verification/Safety_Rules.thy ===== *)
theory Safety_Rules
  imports Json "HOL-Library.Word"
begin

text \<open>
  The rule file of the safety gate, \<^verbatim>\<open>coordinator/src/safety_rules_loader.ts\<close>. Text is a list of
  UTF-16 code units here, as in JavaScript, because the loader treats the right single quotation
  mark (U+2019) and the apostrophe alike.

  A \<open>term\<close> rule becomes the source text of a regular expression by escaping, widening and wrapping
  (\<open>term_source\<close>); a \<open>pattern\<close> rule is such a source text already. The compiler and matcher of
  regular expressions belong to the language and are a record \<open>engine\<close>; what a term's source uses
  of the language of patterns (escapes, word boundaries, a character class, a run of white space)
  is modelled by the parser \<open>parse_pattern\<close> and the matcher \<open>pattern_test\<close>, and \<open>conforming\<close> says that
  an engine agrees with them there. The ignore-case flag compares characters through the
  engine's \<open>Canonicalize\<close>, the argument \<open>canon\<close>.
\<close>

type_synonym utf16 = "16 word"
type_synonym ustring = "utf16 list"

abbreviation APOSTROPHE :: utf16 where "APOSTROPHE \<equiv> 0x27"
abbreviation RIGHT_QUOTE :: utf16 where "RIGHT_QUOTE \<equiv> 0x2019"
abbreviation SPACE :: utf16 where "SPACE \<equiv> 0x20"
abbreviation BACKSLASH :: utf16 where "BACKSLASH \<equiv> 0x5C"
abbreviation OPEN_CLASS :: utf16 where "OPEN_CLASS \<equiv> 0x5B"
abbreviation CLOSE_CLASS :: utf16 where "CLOSE_CLASS \<equiv> 0x5D"

text \<open>The code units of an ASCII or Latin-1 string.\<close>

definition units :: "string \<Rightarrow> ustring" where
  "units s = map (\<lambda>c. of_nat (of_char c)) s"

subsection \<open>From a term to the source of a pattern\<close>

text \<open>The class of the regular expression in \<open>escapeRegExp\<close>: \<^verbatim>\<open>. * + ? ^ $ { } ( ) | [ ] \\<close>.\<close>

definition META :: "utf16 list" where
  "META = [0x2E, 0x2A, 0x2B, 0x3F, 0x5E, 0x24, 0x7B, 0x7D, 0x28, 0x29, 0x7C, 0x5B, 0x5D, 0x5C]"

definition is_meta :: "utf16 \<Rightarrow> bool" where
  "is_meta c \<longleftrightarrow> c \<in> set META"

definition escape_reg_exp :: "ustring \<Rightarrow> ustring" where
  "escape_reg_exp s = concat (map (\<lambda>c. if is_meta c then [BACKSLASH, c] else [c]) s)"

definition is_quote :: "utf16 \<Rightarrow> bool" where
  "is_quote c \<longleftrightarrow> c = APOSTROPHE \<or> c = RIGHT_QUOTE"

definition widen_apostrophes :: "ustring \<Rightarrow> ustring" where
  "widen_apostrophes s =
     concat (map (\<lambda>c. if is_quote c then [OPEN_CLASS, APOSTROPHE, RIGHT_QUOTE, CLOSE_CLASS] else [c]) s)"

text \<open>\<open>escaped.replace(/ +/g, "\\s+")\<close>: each longest run of spaces, from the left.\<close>

fun widen_whitespace :: "ustring \<Rightarrow> ustring" where
  "widen_whitespace [] = []"
| "widen_whitespace (c # s) =
     (if c = SPACE
      then (if s \<noteq> [] \<and> hd s = SPACE then widen_whitespace s
            else [BACKSLASH, 0x73, 0x2B] @ widen_whitespace s)
      else c # widen_whitespace s)"

definition term_source :: "ustring \<Rightarrow> ustring" where
  "term_source term =
     [BACKSLASH, 0x62] @ widen_whitespace (widen_apostrophes (escape_reg_exp term)) @ [BACKSLASH, 0x62]"

subsection \<open>The patterns a term's source uses\<close>

datatype atom = Lit utf16 | OneOf "utf16 list" | Boundary | Spaces

fun class_body :: "ustring \<Rightarrow> (utf16 list \<times> ustring) option" where
  "class_body [] = None"
| "class_body (c # s) =
     (if c = CLOSE_CLASS then Some ([], s)
      else if is_meta c \<or> c = 0x2D then None
      else map_option (\<lambda>(cs, r). (c # cs, r)) (class_body s))"

lemma class_body_length: "class_body s = Some (cs, r) \<Longrightarrow> length r < length s"
proof (induction s arbitrary: cs r)
  case Nil
  then show ?case by simp
next
  case (Cons c s)
  then show ?case by (auto split: if_splits dest: less_SucI)
qed

function parse_pattern :: "ustring \<Rightarrow> atom list option" where
  "parse_pattern [] = Some []"
| "parse_pattern (c # s) =
     (if c = BACKSLASH
      then (case s of
              [] \<Rightarrow> None
            | d # s' \<Rightarrow>
                if is_meta d then map_option ((#) (Lit d)) (parse_pattern s')
                else if d = 0x62 then map_option ((#) Boundary) (parse_pattern s')
                else if d = 0x73 \<and> s' \<noteq> [] \<and> hd s' = 0x2B
                then map_option ((#) Spaces) (parse_pattern (tl s'))
                else None)
      else if c = OPEN_CLASS
      then (case class_body s of
              None \<Rightarrow> None
            | Some (cs, s') \<Rightarrow> map_option ((#) (OneOf cs)) (parse_pattern s'))
      else if is_meta c then None
      else map_option ((#) (Lit c)) (parse_pattern s))"
  by pat_completeness auto
termination
  by (relation "measure length") (auto dest: class_body_length)

text \<open>\<open>\w\<close> and \<open>\s\<close> of the language's standard.\<close>

definition is_word :: "utf16 \<Rightarrow> bool" where
  "is_word c \<longleftrightarrow> 0x30 \<le> c \<and> c \<le> 0x39 \<or> 0x41 \<le> c \<and> c \<le> 0x5A \<or> 0x61 \<le> c \<and> c \<le> 0x7A \<or> c = 0x5F"

definition is_space :: "utf16 \<Rightarrow> bool" where
  "is_space c \<longleftrightarrow> 0x09 \<le> c \<and> c \<le> 0x0D \<or> c = 0x20 \<or> c = 0xA0 \<or> c = 0x1680 \<or> 0x2000 \<le> c \<and> c \<le> 0x200A \<or>
     c = 0x2028 \<or> c = 0x2029 \<or> c = 0x202F \<or> c = 0x205F \<or> c = 0x3000 \<or> c = 0xFEFF"

text \<open>A word boundary between the character before a position, if any, and the text after it.\<close>

definition at_boundary :: "utf16 option \<Rightarrow> ustring \<Rightarrow> bool" where
  "at_boundary prev s \<longleftrightarrow>
     (case prev of None \<Rightarrow> False | Some c \<Rightarrow> is_word c) \<noteq> (case s of [] \<Rightarrow> False | c # _ \<Rightarrow> is_word c)"

fun match_at :: "(utf16 \<Rightarrow> utf16) \<Rightarrow> atom list \<Rightarrow> utf16 option \<Rightarrow> ustring \<Rightarrow> bool" where
  "match_at canon [] prev s = True"
| "match_at canon (Boundary # p) prev s = (at_boundary prev s \<and> match_at canon p prev s)"
| "match_at canon (_ # p) prev [] = False"
| "match_at canon (Lit c # p) prev (x # s) = (canon x = canon c \<and> match_at canon p (Some x) s)"
| "match_at canon (OneOf cs # p) prev (x # s) =
     (list_ex (\<lambda>c. canon x = canon c) cs \<and> match_at canon p (Some x) s)"
| "match_at canon (Spaces # p) prev (x # s) =
     (is_space x \<and> (match_at canon (Spaces # p) (Some x) s \<or> match_at canon p (Some x) s))"

fun search_from :: "(utf16 \<Rightarrow> utf16) \<Rightarrow> atom list \<Rightarrow> utf16 option \<Rightarrow> ustring \<Rightarrow> bool" where
  "search_from canon p prev [] = match_at canon p prev []"
| "search_from canon p prev (x # s) = (match_at canon p prev (x # s) \<or> search_from canon p (Some x) s)"

definition pattern_test :: "(utf16 \<Rightarrow> utf16) \<Rightarrow> atom list \<Rightarrow> ustring \<Rightarrow> bool" where
  "pattern_test canon p s = search_from canon p None s"

subsection \<open>The source of a term compiles to what the term says\<close>

text \<open>The pattern a term stands for.\<close>

fun term_atoms :: "ustring \<Rightarrow> atom list" where
  "term_atoms [] = []"
| "term_atoms (c # s) =
     (if c = SPACE then (if s \<noteq> [] \<and> hd s = SPACE then term_atoms s else Spaces # term_atoms s)
      else (if is_quote c then OneOf [APOSTROPHE, RIGHT_QUOTE] else Lit c) # term_atoms s)"

definition widened :: "ustring \<Rightarrow> ustring" where
  "widened s = widen_whitespace (widen_apostrophes (escape_reg_exp s))"

named_theorems unit_simps \<open>facts on particular code units\<close>

lemma quote_units [unit_simps]:
  "\<not> is_meta APOSTROPHE" "\<not> is_meta RIGHT_QUOTE" "\<not> is_meta SPACE" "is_meta BACKSLASH" "is_meta OPEN_CLASS"
  "is_meta CLOSE_CLASS" "\<not> is_quote BACKSLASH" "\<not> is_quote SPACE" "is_quote APOSTROPHE" "is_quote RIGHT_QUOTE"
  by (simp_all add: is_meta_def META_def is_quote_def)

lemma quote_not_meta [unit_simps]: "is_quote c \<Longrightarrow> \<not> is_meta c"
  by (auto simp: is_quote_def unit_simps)

lemma meta_not_space [unit_simps]: "is_meta c \<Longrightarrow> c \<noteq> SPACE"
  using quote_units(3) by blast

lemma widened_Nil [simp]: "widened [] = []"
  by (simp add: widened_def escape_reg_exp_def widen_apostrophes_def)

lemma widen_inner:
  "widen_apostrophes (escape_reg_exp (c # s)) =
     (if is_quote c then [OPEN_CLASS, APOSTROPHE, RIGHT_QUOTE, CLOSE_CLASS]
      else if is_meta c then [BACKSLASH, c] else [c]) @ widen_apostrophes (escape_reg_exp s)"
  by (auto simp: escape_reg_exp_def widen_apostrophes_def unit_simps)

lemma widen_inner_head:
  "(widen_apostrophes (escape_reg_exp s) \<noteq> [] \<and> hd (widen_apostrophes (escape_reg_exp s)) = SPACE) \<longleftrightarrow>
   (s \<noteq> [] \<and> hd s = SPACE)"
  by (cases s) (auto simp: widen_inner unit_simps, simp add: escape_reg_exp_def widen_apostrophes_def)

lemma widened_Cons:
  "widened (c # s) =
     (if c = SPACE then (if s \<noteq> [] \<and> hd s = SPACE then widened s else [BACKSLASH, 0x73, 0x2B] @ widened s)
      else if is_quote c then [OPEN_CLASS, APOSTROPHE, RIGHT_QUOTE, CLOSE_CLASS] @ widened s
      else if is_meta c then [BACKSLASH, c] @ widened s
      else c # widened s)"
  using widen_inner_head [of s] by (auto simp: widened_def widen_inner unit_simps)

lemma parse_widened: "parse_pattern (widened s @ r) = map_option ((@) (term_atoms s)) (parse_pattern r)"
proof (induction s)
  case Nil
  then show ?case by (cases "parse_pattern r") simp_all
next
  case (Cons c s)
  have small: "\<not> is_meta (0x73 :: utf16)" by (simp add: is_meta_def META_def)
  show ?case
  proof (cases "c = SPACE")
    case True
    then show ?thesis using Cons small by (cases "parse_pattern r") (auto simp: widened_Cons)
  next
    case False
    consider "is_quote c" | "is_meta c" "\<not> is_quote c" | "\<not> is_quote c" "\<not> is_meta c" by blast
    then show ?thesis
    proof cases
      case 1
      then show ?thesis using Cons False
        by (cases "parse_pattern r") (auto simp: widened_Cons unit_simps is_quote_def)
    next
      case 2
      then show ?thesis using Cons False by (cases "parse_pattern r") (auto simp: widened_Cons)
    next
      case 3
      then have "c \<noteq> BACKSLASH" "c \<noteq> OPEN_CLASS" using quote_units(4,5) by auto
      then show ?thesis using Cons False 3 by (cases "parse_pattern r") (auto simp: widened_Cons)
    qed
  qed
qed

lemma parse_term_source: "parse_pattern (term_source t) = Some (Boundary # term_atoms t @ [Boundary])"
proof -
  have meta: "\<not> is_meta (0x62 :: utf16)" by (simp add: is_meta_def META_def)
  then have "parse_pattern [BACKSLASH, 0x62] = Some [Boundary]" by simp
  with meta show ?thesis by (simp add: term_source_def widened_def [symmetric] parse_widened)
qed

subsection \<open>What a term matches\<close>

text \<open>
  \<open>spelled canon term body\<close>: the text \<open>body\<close> spells the term. A run of spaces in the term stands
  for any non-empty run of white space, a quotation mark for either of the two, and any other
  character for itself up to the letter case.
\<close>

inductive spelled :: "(utf16 \<Rightarrow> utf16) \<Rightarrow> ustring \<Rightarrow> ustring \<Rightarrow> bool" for canon where
  spelled_Nil: "spelled canon [] []"
| spelled_run: "\<lbrakk>s \<noteq> []; hd s = SPACE; spelled canon s b\<rbrakk> \<Longrightarrow> spelled canon (SPACE # s) b"
| spelled_spaces: "\<lbrakk>\<not> (s \<noteq> [] \<and> hd s = SPACE); ws \<noteq> []; list_all is_space ws; spelled canon s b\<rbrakk> \<Longrightarrow>
    spelled canon (SPACE # s) (ws @ b)"
| spelled_quote: "\<lbrakk>is_quote c; canon x = canon APOSTROPHE \<or> canon x = canon RIGHT_QUOTE; spelled canon s b\<rbrakk> \<Longrightarrow>
    spelled canon (c # s) (x # b)"
| spelled_char: "\<lbrakk>c \<noteq> SPACE; \<not> is_quote c; canon x = canon c; spelled canon s b\<rbrakk> \<Longrightarrow> spelled canon (c # s) (x # b)"

inductive_cases spelled_NilE: "spelled canon [] b"
inductive_cases spelled_ConsE: "spelled canon (c # s) b"

text \<open>The last character before a position that \<open>b\<close> leads up to.\<close>

definition last_of :: "utf16 option \<Rightarrow> ustring \<Rightarrow> utf16 option" where
  "last_of prev b = (if b = [] then prev else Some (last b))"

lemma last_of_simps [simp]:
  "last_of prev [] = prev" "last_of prev (x # b) = last_of (Some x) b"
  "last_of prev (a @ b) = last_of (last_of prev a) b"
  by (simp_all add: last_of_def)

lemma match_spaces:
  "match_at canon (Spaces # p) prev s \<longleftrightarrow>
   (\<exists>ws r. s = ws @ r \<and> ws \<noteq> [] \<and> list_all is_space ws \<and> match_at canon p (last_of prev ws) r)"
proof (induction s arbitrary: prev)
  case Nil
  then show ?case by simp
next
  case (Cons x s)
  show ?case (is "?m \<longleftrightarrow> ?e")
  proof
    assume ?m
    then have x: "is_space x" and "match_at canon (Spaces # p) (Some x) s \<or> match_at canon p (Some x) s"
      by simp_all
    then obtain ws r where "s = ws @ r" "list_all is_space ws" "match_at canon p (last_of (Some x) ws) r"
      using Cons.IH [of "Some x"] by (metis append_Nil last_of_simps(1) list.pred_inject(1))
    with x show ?e by (intro exI [of _ "x # ws"] exI [of _ r]) simp
  next
    assume ?e
    then obtain ws r where ws: "x # s = ws @ r" "ws \<noteq> []" "list_all is_space ws"
        "match_at canon p (last_of prev ws) r" by blast
    then obtain us where us: "ws = x # us" "s = us @ r" by (cases ws) auto
    with ws have "us \<noteq> [] \<Longrightarrow> match_at canon (Spaces # p) (Some x) s"
      using Cons.IH [of "Some x"] by auto
    with us ws show ?m by (cases "us = []") simp_all
  qed
qed

lemma match_term_sound:
  "match_at canon (term_atoms t @ p) prev s \<Longrightarrow>
   \<exists>b r. s = b @ r \<and> spelled canon t b \<and> match_at canon p (last_of prev b) r"
proof (induction t arbitrary: prev s)
  case Nil
  then show ?case by (intro exI [of _ "[]"] exI [of _ s]) (simp add: spelled_Nil)
next
  case (Cons c t)
  consider "c = SPACE" "t \<noteq> []" "hd t = SPACE" | "c = SPACE" "\<not> (t \<noteq> [] \<and> hd t = SPACE)" | "c \<noteq> SPACE" by blast
  then show ?case
  proof cases
    case 1
    with Cons.prems have "match_at canon (term_atoms t @ p) prev s" by simp
    from Cons.IH [OF this] 1 show ?thesis using spelled_run by blast
  next
    case 2
    with Cons.prems obtain ws r where ws: "s = ws @ r" "ws \<noteq> []" "list_all is_space ws"
        and "match_at canon (term_atoms t @ p) (last_of prev ws) r"
      using match_spaces [of canon "term_atoms t @ p" prev s] by auto
    from Cons.IH [OF this(4)] obtain b r' where "r = b @ r'" "spelled canon t b"
        "match_at canon p (last_of (last_of prev ws) b) r'" by blast
    with ws 2 show ?thesis by (intro exI [of _ "ws @ b"] exI [of _ r']) (simp add: spelled_spaces)
  next
    case 3
    with Cons.prems obtain x s' where s: "s = x # s'" by (cases s) (auto split: if_splits)
    with 3 Cons.prems have "match_at canon (term_atoms t @ p) (Some x) s'" by (auto split: if_splits)
    from Cons.IH [OF this] obtain b r where b: "s' = b @ r" "spelled canon t b"
        "match_at canon p (last_of (Some x) b) r" by blast
    have "spelled canon (c # t) (x # b)"
      using 3 s Cons.prems b(2) by (cases "is_quote c") (auto intro: spelled_quote spelled_char)
    with s b show ?thesis by (intro exI [of _ "x # b"] exI [of _ r]) simp
  qed
qed

lemma match_term_complete:
  "spelled canon t b \<Longrightarrow> match_at canon p (last_of prev b) r \<Longrightarrow> match_at canon (term_atoms t @ p) prev (b @ r)"
proof (induction t b arbitrary: prev rule: spelled.induct)
  case (spelled_spaces s ws b)
  then have "match_at canon (Spaces # term_atoms s @ p) prev ((ws @ b) @ r)"
    unfolding match_spaces by (intro exI [of _ ws] exI [of _ "b @ r"]) simp
  with spelled_spaces(1) show ?case by auto
qed (auto simp: unit_simps is_quote_def)

lemma search_iff:
  "search_from canon p prev s \<longleftrightarrow> (\<exists>pre post. s = pre @ post \<and> match_at canon p (last_of prev pre) post)"
proof (induction s arbitrary: prev)
  case Nil
  then show ?case by simp
next
  case (Cons x s)
  show ?case (is "?l \<longleftrightarrow> ?r")
  proof
    assume ?l
    then consider "match_at canon p prev (x # s)"
      | pre post where "s = pre @ post" "match_at canon p (last_of (Some x) pre) post"
      using Cons by auto
    then show ?r
    proof cases
      case 1
      then show ?thesis by (intro exI [of _ "[]"] exI [of _ "x # s"]) simp
    next
      case 2
      then show ?thesis by (intro exI [of _ "x # pre"] exI [of _ post]) simp
    qed
  next
    assume ?r
    then obtain pre post where "x # s = pre @ post" "match_at canon p (last_of prev pre) post" by blast
    then show ?l using Cons [of "Some x"] by (cases pre) auto
  qed
qed

text \<open>The term stands in the text as a phrase of its own.\<close>

definition phrase_occurs :: "(utf16 \<Rightarrow> utf16) \<Rightarrow> ustring \<Rightarrow> ustring \<Rightarrow> bool" where
  "phrase_occurs canon t s \<longleftrightarrow>
     (\<exists>pre b post. s = pre @ b @ post \<and> spelled canon t b \<and>
        at_boundary (last_of None pre) (b @ post) \<and> at_boundary (last_of None (pre @ b)) post)"

lemma pattern_test_term:
  "pattern_test canon (Boundary # term_atoms t @ [Boundary]) s \<longleftrightarrow> phrase_occurs canon t s"
proof
  assume "pattern_test canon (Boundary # term_atoms t @ [Boundary]) s"
  then obtain pre post where s: "s = pre @ post" "at_boundary (last_of None pre) post"
      and m: "match_at canon (term_atoms t @ [Boundary]) (last_of None pre) post"
    by (auto simp: pattern_test_def search_iff)
  from match_term_sound [OF m] obtain b r where "post = b @ r" "spelled canon t b"
      "match_at canon [Boundary] (last_of (last_of None pre) b) r" by blast
  with s show "phrase_occurs canon t s"
    unfolding phrase_occurs_def by (intro exI [of _ pre] exI [of _ b] exI [of _ r]) simp
next
  assume "phrase_occurs canon t s"
  then obtain pre b post where s: "s = pre @ b @ post" "spelled canon t b"
      "at_boundary (last_of None pre) (b @ post)" "at_boundary (last_of None (pre @ b)) post"
    by (auto simp: phrase_occurs_def)
  then have "match_at canon (term_atoms t @ [Boundary]) (last_of None pre) (b @ post)"
    by (intro match_term_complete) simp_all
  with s show "pattern_test canon (Boundary # term_atoms t @ [Boundary]) s"
    unfolding pattern_test_def search_iff by (intro exI [of _ pre] exI [of _ "b @ post"]) simp
qed

end
