(* ===== verification/Safety_Classifier.thy ===== *)
theory Safety_Classifier
  imports Safety_Rules Chat_Prompt
begin

text \<open>
  The rules loader (\<open>loadSafetyRules\<close>, \<^verbatim>\<open>coordinator/src/safety_rules_loader.ts\<close>), with one error
  value per \<open>throw\<close>, and the keyword classifier (\<^verbatim>\<open>coordinator/src/safety_classifier.ts\<close>), whose
  regular expressions are objects with a \<open>lastIndex\<close> that \<open>test\<close> moves when the flags hold g or y.
  The properties: a loaded term rule flags exactly the texts in which the term stands as a phrase
  of its own, a phrase in any message of a conversation is a phrase of its prompt, the loader
  accepts exactly the well-formed files, and verdicts do not depend on earlier verdicts.
\<close>

subsection \<open>Regular expression objects\<close>

text \<open>
  The engine of the language: \<open>eng_valid src\<close> says that \<open>new RegExp(src, "i")\<close> does not throw;
  \<open>eng_exec src flags s i\<close> is the end of the match found from index \<open>i\<close> on.
\<close>

record engine =
  eng_valid :: "ustring \<Rightarrow> bool"
  eng_exec :: "ustring \<Rightarrow> string \<Rightarrow> ustring \<Rightarrow> nat \<Rightarrow> nat option"

record regexp =
  re_source :: ustring
  re_flags :: string
  re_lastIndex :: nat

record keyword_rule =
  rule_pattern :: regexp
  rule_category :: ustring

definition has_gy :: "string \<Rightarrow> bool" where
  "has_gy flags \<longleftrightarrow> CHR ''g'' \<in> set flags \<or> CHR ''y'' \<in> set flags"

definition re_test :: "engine \<Rightarrow> regexp \<Rightarrow> ustring \<Rightarrow> bool \<times> regexp" where
  "re_test eng re s =
     (if has_gy (re_flags re)
      then (case eng_exec eng (re_source re) (re_flags re) s (re_lastIndex re) of
              None \<Rightarrow> (False, re\<lparr>re_lastIndex := 0\<rparr>)
            | Some e \<Rightarrow> (True, re\<lparr>re_lastIndex := e\<rparr>))
      else (eng_exec eng (re_source re) (re_flags re) s 0 \<noteq> None, re))"

text \<open>The engine agrees with the model on the patterns the loader writes.\<close>

definition conforming :: "(utf16 \<Rightarrow> utf16) \<Rightarrow> engine \<Rightarrow> bool" where
  "conforming canon eng \<longleftrightarrow>
     (\<forall>src p. parse_pattern src = Some p \<longrightarrow>
        eng_valid eng src \<and> (\<forall>s. (eng_exec eng src ''i'' s 0 \<noteq> None) = pattern_test canon p s))"

lemma conforming_term:
  assumes "conforming canon eng"
  shows "eng_valid eng (term_source t)"
    and "eng_exec eng (term_source t) ''i'' s 0 \<noteq> None \<longleftrightarrow> phrase_occurs canon t s"
  using assms parse_term_source [of t] unfolding conforming_def
  by (blast, metis pattern_test_term)

subsection \<open>The rules loader\<close>

datatype rules_error =
  Unreadable | NotJson | NoRulesArray | EmptyRules
| EntryNotObject nat | BadCategory nat | TermAndPattern nat | NoTermNoPattern nat | EmptyTerm nat | BadPattern nat
| TermSyntaxError nat

text \<open>What reading and parsing the file gives.\<close>

datatype rules_file = ReadFails | ParseFails | Parsed "ustring json_value"

fun string_field :: "string \<Rightarrow> ustring json_value \<Rightarrow> ustring option" where
  "string_field k v = (case field k v of Some (JStr s) \<Rightarrow> Some s | _ \<Rightarrow> None)"

definition ignore_case :: "ustring \<Rightarrow> regexp" where
  "ignore_case src = \<lparr>re_source = src, re_flags = ''i'', re_lastIndex = 0\<rparr>"

definition load_entry :: "engine \<Rightarrow> nat \<Rightarrow> ustring json_value \<Rightarrow> rules_error + keyword_rule" where
  "load_entry eng index entry =
     (if \<not> is_object entry \<or> is_array entry then Inl (EntryNotObject index)
      else case string_field ''category'' entry of
        None \<Rightarrow> Inl (BadCategory index)
      | Some category \<Rightarrow>
          if category = [] then Inl (BadCategory index)
          else (case (string_field ''term'' entry, string_field ''pattern'' entry) of
             (Some _, Some _) \<Rightarrow> Inl (TermAndPattern index)
           | (None, None) \<Rightarrow> Inl (NoTermNoPattern index)
           | (Some term, None) \<Rightarrow>
               if term = [] then Inl (EmptyTerm index)
               else if \<not> eng_valid eng (term_source term) then Inl (TermSyntaxError index)
               else Inr \<lparr>rule_pattern = ignore_case (term_source term), rule_category = category\<rparr>
           | (None, Some source) \<Rightarrow>
               if \<not> eng_valid eng source then Inl (BadPattern index)
               else Inr \<lparr>rule_pattern = ignore_case source, rule_category = category\<rparr>))"

fun load_entries :: "engine \<Rightarrow> nat \<Rightarrow> ustring json_value list \<Rightarrow> rules_error + keyword_rule list" where
  "load_entries eng index [] = Inr []"
| "load_entries eng index (entry # rest) =
     (case load_entry eng index entry of
        Inl e \<Rightarrow> Inl e
      | Inr rule \<Rightarrow>
          (case load_entries eng (Suc index) rest of Inl e \<Rightarrow> Inl e | Inr rules \<Rightarrow> Inr (rule # rules)))"

fun load_safety_rules :: "engine \<Rightarrow> rules_file \<Rightarrow> rules_error + keyword_rule list" where
  "load_safety_rules eng ReadFails = Inl Unreadable"
| "load_safety_rules eng ParseFails = Inl NotJson"
| "load_safety_rules eng (Parsed v) =
     (case (if is_object v then field ''rules'' v else None) of
        Some (JArr entries) \<Rightarrow> if entries = [] then Inl EmptyRules else load_entries eng 0 entries
      | _ \<Rightarrow> Inl NoRulesArray)"

subsection \<open>The classifier\<close>

record classification_result =
  safe :: bool
  categories :: "ustring list"

definition strip_gy :: "string \<Rightarrow> string" where
  "strip_gy flags = filter (\<lambda>c. c \<noteq> CHR ''g'' \<and> c \<noteq> CHR ''y'') flags"

definition keyword_safety_classifier :: "keyword_rule list \<Rightarrow> keyword_rule list" where
  "keyword_safety_classifier rules =
     map (\<lambda>r. \<lparr>rule_pattern =
                 (if has_gy (re_flags (rule_pattern r))
                  then \<lparr>re_source = re_source (rule_pattern r), re_flags = strip_gy (re_flags (rule_pattern r)),
                        re_lastIndex = 0\<rparr>
                  else rule_pattern r),
               rule_category = rule_category r\<rparr>) rules"

fun classify_loop :: "engine \<Rightarrow> ustring \<Rightarrow> keyword_rule list \<Rightarrow> ustring list \<times> keyword_rule list" where
  "classify_loop eng s [] = ([], [])"
| "classify_loop eng s (r # rs) =
     (let (hit, re) = re_test eng (rule_pattern r) s;
          (cats, rs') = classify_loop eng s rs
      in (if hit then rule_category r # cats else cats, r\<lparr>rule_pattern := re\<rparr> # rs'))"

definition classify :: "engine \<Rightarrow> keyword_rule list \<Rightarrow> ustring \<Rightarrow> classification_result \<times> keyword_rule list" where
  "classify eng rules prompt =
     (let (cats, rules') = classify_loop eng prompt rules
      in (\<lparr>safe = (cats = []), categories = cats\<rparr>, rules'))"

text \<open>The classifier's state after it has judged some prompts.\<close>

definition classify_history :: "engine \<Rightarrow> ustring list \<Rightarrow> keyword_rule list \<Rightarrow> keyword_rule list" where
  "classify_history eng prompts rules = fold (\<lambda>p rs. snd (classify eng rs p)) prompts rules"

text \<open>A rule flags a text: its source, searched from the start under its flags without g and y.\<close>

definition flags_text :: "engine \<Rightarrow> ustring \<Rightarrow> keyword_rule \<Rightarrow> bool" where
  "flags_text eng s r \<longleftrightarrow>
     eng_exec eng (re_source (rule_pattern r)) (strip_gy (re_flags (rule_pattern r))) s 0 \<noteq> None"

lemma strip_gy_id: "\<not> has_gy flags \<Longrightarrow> strip_gy flags = flags"
  by (simp add: strip_gy_def has_gy_def filter_id_conv) blast

lemma not_has_gy_strip: "\<not> has_gy (strip_gy flags)"
  by (simp add: has_gy_def strip_gy_def)

lemma classify_loop_stateless:
  "classify_loop eng s (keyword_safety_classifier rules) =
     (map rule_category (filter (flags_text eng s) rules), keyword_safety_classifier rules)"
proof (induction rules)
  case Nil
  then show ?case by (simp add: keyword_safety_classifier_def)
next
  case (Cons r rules)
  then show ?case
    by (cases "has_gy (re_flags (rule_pattern r))")
      (simp_all add: keyword_safety_classifier_def re_test_def not_has_gy_strip flags_text_def strip_gy_id)
qed

text \<open>
  C15: Verdicts are stateless. However the caller's rules were written (flags g and y and any
  \<open>lastIndex\<close> included) and whatever prompts were judged before, the classifier reports for a prompt
  exactly the categories of the rules that match it, in rule order, and calls it safe exactly if no
  rule matches.
\<close>

theorem classification_stateless:
  "fst (classify eng (classify_history eng prompts (keyword_safety_classifier rules)) s) =
     \<lparr>safe = list_all (\<lambda>r. \<not> flags_text eng s r) rules,
      categories = map rule_category (filter (flags_text eng s) rules)\<rparr>"
proof -
  have "classify_history eng prompts (keyword_safety_classifier rules) = keyword_safety_classifier rules"
    by (induction prompts) (simp_all add: classify_history_def classify_def classify_loop_stateless)
  moreover have "filter (flags_text eng s) rules = [] \<longleftrightarrow> list_all (\<lambda>r. \<not> flags_text eng s r) rules"
    by (simp add: filter_empty_conv list_all_iff)
  ultimately show ?thesis by (simp add: classify_def classify_loop_stateless)
qed

subsection \<open>What the loader accepts\<close>

text \<open>The rule an entry of the file describes, if it is well-formed.\<close>

inductive describes :: "engine \<Rightarrow> ustring json_value \<Rightarrow> keyword_rule \<Rightarrow> bool" for eng where
  term_rule: "\<lbrakk>map_of kvs ''category'' = Some (JStr c); c \<noteq> []; map_of kvs ''term'' = Some (JStr t); t \<noteq> [];
      string_field ''pattern'' (JObj kvs) = None\<rbrakk> \<Longrightarrow>
    describes eng (JObj kvs) \<lparr>rule_pattern = ignore_case (term_source t), rule_category = c\<rparr>"
| pattern_rule: "\<lbrakk>map_of kvs ''category'' = Some (JStr c); c \<noteq> []; map_of kvs ''pattern'' = Some (JStr src);
      eng_valid eng src; string_field ''term'' (JObj kvs) = None\<rbrakk> \<Longrightarrow>
    describes eng (JObj kvs) \<lparr>rule_pattern = ignore_case src, rule_category = c\<rparr>"

lemma string_field_Some: "string_field k v = Some s \<longleftrightarrow> field k v = Some (JStr s)"
  by (auto split: option.splits json_value.splits)

lemma load_entry_describes:
  assumes "conforming canon eng"
  shows "load_entry eng i entry = Inr rule \<longleftrightarrow> describes eng entry rule"
proof
  assume "load_entry eng i entry = Inr rule"
  then show "describes eng entry rule"
    using term_rule [of _ _ _ eng] pattern_rule [of _ _ _ eng]
    by (cases entry)
      (auto simp: load_entry_def string_field_Some simp del: string_field.simps split: if_splits option.splits)
next
  assume "describes eng entry rule"
  then show "load_entry eng i entry = Inr rule"
  proof cases
    case (term_rule kvs c t)
    then show ?thesis using conforming_term(1) [OF assms, of t] by (simp add: load_entry_def)
  next
    case (pattern_rule kvs c src)
    then show ?thesis by (simp add: load_entry_def)
  qed
qed

lemma load_entries_describes:
  assumes "conforming canon eng"
  shows "load_entries eng i entries = Inr rules \<longleftrightarrow> list_all2 (describes eng) entries rules"
proof (induction entries arbitrary: i rules)
  case Nil
  then show ?case by auto
next
  case (Cons entry rest)
  show ?case
  proof (cases "load_entry eng i entry")
    case (Inl e)
    then have "\<not> describes eng entry r" for r using load_entry_describes [OF assms, of i entry r] by simp
    with Inl show ?thesis by (simp add: list_all2_Cons1)
  next
    case (Inr r)
    then have r: "describes eng entry r' \<longleftrightarrow> r' = r" for r'
      using load_entry_describes [OF assms, of i entry r'] by auto
    show ?thesis
    proof (cases "load_entries eng (Suc i) rest")
      case (Inl e)
      then have "\<not> list_all2 (describes eng) rest rs" for rs using Cons.IH [of "Suc i" rs] by simp
      with \<open>load_entry eng i entry = Inr r\<close> Inl show ?thesis by (simp add: list_all2_Cons1)
    next
      case (Inr rs)
      then have "list_all2 (describes eng) rest rs' \<longleftrightarrow> rs' = rs" for rs'
        using Cons.IH [of "Suc i" rs'] by auto
      with \<open>load_entry eng i entry = Inr r\<close> Inr r show ?thesis by (auto simp: list_all2_Cons1)
    qed
  qed
qed

lemma load_accepts:
  assumes "conforming canon eng"
  shows "load_safety_rules eng contents = Inr rules \<longleftrightarrow>
    (\<exists>kvs entries. contents = Parsed (JObj kvs) \<and> map_of kvs ''rules'' = Some (JArr entries) \<and> entries \<noteq> [] \<and>
       list_all2 (describes eng) entries rules)"
proof (cases contents)
  case (Parsed v)
  then show ?thesis
    by (cases v) (auto simp: load_entries_describes [OF assms] split: option.splits json_value.splits)
qed simp_all

lemma load_armed: "conforming canon eng \<Longrightarrow> load_safety_rules eng contents = Inr rules \<Longrightarrow> rules \<noteq> []"
  by (auto simp: load_accepts)

lemma load_no_syntax_error:
  assumes "conforming canon eng"
  shows "load_safety_rules eng contents \<noteq> Inl (TermSyntaxError i)"
proof -
  have "load_entry eng j entry \<noteq> Inl (TermSyntaxError i)" for j entry
    using conforming_term(1) [OF assms] by (auto simp: load_entry_def split: option.splits)
  then have "load_entries eng j entries \<noteq> Inl (TermSyntaxError i)" for j entries
    by (induction entries arbitrary: j) (auto split: sum.splits)
  then show ?thesis by (cases contents) (auto split: option.splits json_value.splits)
qed

text \<open>
  C14: The loader arms the gate or refuses to. It accepts a file exactly if it is a JSON object with a
  non-empty array of rules, every one of them with a non-empty category and exactly one of a
  non-empty term and a valid pattern; it then yields one rule per entry, in order, none dropped.
  In every other case it throws, and a term never makes it throw a plain syntax error.
\<close>

theorem loader_accepts_exactly_well_formed:
  assumes "conforming canon eng"
  shows "(load_safety_rules eng contents = Inr rules \<longleftrightarrow>
       (\<exists>kvs entries. contents = Parsed (JObj kvs) \<and> map_of kvs ''rules'' = Some (JArr entries) \<and> entries \<noteq> [] \<and>
          list_all2 (describes eng) entries rules)) \<and>
     (load_safety_rules eng contents = Inr rules \<longrightarrow> rules \<noteq> []) \<and>
     load_safety_rules eng contents \<noteq> Inl (TermSyntaxError i)"
  using load_accepts [OF assms] load_armed [OF assms] load_no_syntax_error [OF assms] by blast

subsection \<open>What a term rule flags\<close>

lemma term_rule_phrase:
  assumes "conforming canon eng"
    and "load_entry eng i entry = Inr rule" and "string_field ''term'' entry = Some t"
  shows "flags_text eng s rule \<longleftrightarrow> phrase_occurs canon t s"
proof -
  from assms(2) have "rule_pattern rule = ignore_case (term_source t)"
    using assms(3) by (auto simp: load_entry_def simp del: string_field.simps split: if_splits option.splits)
  then show ?thesis using conforming_term(2) [OF assms(1), of t s]
    by (simp add: flags_text_def ignore_case_def strip_gy_def)
qed

text \<open>
  C5: A term rule flags a text exactly if the term stands in it as a phrase of its own: up to letter
  case, with either quotation mark for the other and any white space between its words, and with
  word boundaries at both ends. Escaping, widening and wrapping in the loader's order neither lose
  a term with punctuation in it nor turn its punctuation into operators.
\<close>

theorem term_rule_flags_phrase:
  assumes "conforming canon eng"
    and "load_entry eng i entry = Inr rule" and "string_field ''term'' entry = Some t"
  shows "flags_text eng s rule \<longleftrightarrow> phrase_occurs canon t s"
  using assms by (rule term_rule_phrase)

text \<open>An engine that covers the patterns of the model, with ASCII letter case.\<close>

definition ascii_upper :: "utf16 \<Rightarrow> utf16" where
  "ascii_upper c = (if 0x61 \<le> c \<and> c \<le> 0x7A then c - 0x20 else c)"

definition model_engine :: engine where
  "model_engine =
     \<lparr>eng_valid = (\<lambda>src. parse_pattern src \<noteq> None),
      eng_exec = (\<lambda>src flags s i. case parse_pattern src of
                    None \<Rightarrow> None
                  | Some p \<Rightarrow> if pattern_test ascii_upper p (drop i s) then Some (length s) else None)\<rparr>"

lemma model_engine_conforming: "conforming ascii_upper model_engine"
  by (simp add: conforming_def model_engine_def)

definition example_entry :: "ustring json_value" where
  "example_entry = JObj [(''category'', JStr (units ''theft'')), (''term'', JStr (units ''clone (a) card''))]"

theorem loader_accepts_exactly_well_formed_witness:
  "load_safety_rules model_engine (Parsed (JObj [(''rules'', JArr [example_entry])])) \<noteq> Inr []"
proof -
  have "load_safety_rules model_engine (Parsed (JObj [(''rules'', JArr [example_entry])])) = Inr [] \<longrightarrow> [] \<noteq> ([] :: keyword_rule list)"
    using loader_accepts_exactly_well_formed [OF model_engine_conforming,
      of "Parsed (JObj [(''rules'', JArr [example_entry])])" "[]" 0] by blast
  then show ?thesis by blast
qed

theorem term_rule_flags_phrase_witness:
  "flags_text model_engine (units ''how to Clone  (a) card!'')
     \<lparr>rule_pattern = ignore_case (term_source (units ''clone (a) card'')), rule_category = units ''theft''\<rparr> \<longleftrightarrow>
   phrase_occurs ascii_upper (units ''clone (a) card'') (units ''how to Clone  (a) card!'')"
proof (rule term_rule_flags_phrase [OF model_engine_conforming])
  show "load_entry model_engine 0 example_entry =
      Inr \<lparr>rule_pattern = ignore_case (term_source (units ''clone (a) card'')), rule_category = units ''theft''\<rparr>"
    by code_simp
  show "string_field ''term'' example_entry = Some (units ''clone (a) card'')" by code_simp
qed

subsection \<open>Phrases in conversations\<close>

lemma at_boundary_left: "prev = None \<or> (\<exists>c. prev = Some c \<and> \<not> is_word c) \<Longrightarrow> at_boundary prev s = at_boundary None s"
  by (auto simp: at_boundary_def)

lemma at_boundary_right: "\<not> is_word c \<Longrightarrow> at_boundary prev (s @ c # t) = at_boundary prev s"
  by (cases s) (auto simp: at_boundary_def)

lemma last_of_context:
  assumes "\<not> is_word c"
  shows "at_boundary (last_of None (pre @ [c] @ b)) s = at_boundary (last_of None b) s"
  using assms by (cases b) (auto simp: last_of_def at_boundary_def)

lemma phrase_in_context:
  assumes "phrase_occurs canon t s" and "\<not> is_word c" and "\<not> is_word d"
  shows "phrase_occurs canon t (pre @ [c] @ s @ [d] @ post)"
proof -
  from assms(1) obtain l b r where s: "s = l @ b @ r" "spelled canon t b"
      "at_boundary (last_of None l) (b @ r)" "at_boundary (last_of None (l @ b)) r"
    by (auto simp: phrase_occurs_def)
  have "at_boundary (last_of None (pre @ [c] @ l)) (b @ r @ [d] @ post)"
    using s(3) last_of_context [OF assms(2), of pre l] at_boundary_right [OF assms(3), of _ "b @ r" post] by simp
  moreover have "at_boundary (last_of None ((pre @ [c] @ l) @ b)) (r @ [d] @ post)"
    using s(4) last_of_context [OF assms(2), of pre "l @ b"] at_boundary_right [OF assms(3), of _ r post] by simp
  moreover have "pre @ [c] @ s @ [d] @ post = (pre @ [c] @ l) @ b @ r @ [d] @ post" using s(1) by simp
  ultimately show ?thesis using s(2) unfolding phrase_occurs_def by blast
qed

text \<open>
  C34: A blocked phrase cannot hide in a conversation. If a term stands as a phrase in the content of
  any message, of whatever role and position, it stands as a phrase in the prompt that
  \<open>buildPromptFromMessages\<close> makes of the conversation, which is what the classifier judges.
\<close>

theorem phrase_in_any_message:
  assumes "m \<in> set messages" and "phrase_occurs canon t (units (msg_content m))"
  shows "phrase_occurs canon t (units (build_prompt_from_messages messages))"
proof -
  obtain pre post where "build_prompt_from_messages messages = pre @ '' '' @ msg_content m @ newline @ post"
    using prompt_around_message [OF assms(1)] by blast
  then have "units (build_prompt_from_messages messages) =
      units pre @ [0x20] @ units (msg_content m) @ [0x0A] @ units post"
    by (simp add: units_def)
  then show ?thesis using phrase_in_context [OF assms(2), of "0x20" "0x0A"] by (simp add: is_word_def)
qed

theorem phrase_in_any_message_witness:
  "phrase_occurs ascii_upper (units ''make gbl'') (units (build_prompt_from_messages
     [\<lparr>msg_role = RoleSystem, msg_content = ''Make GBL''\<rparr>, \<lparr>msg_role = RoleUser, msg_content = ''hi''\<rparr>]))"
proof (rule phrase_in_any_message)
  show "\<lparr>msg_role = RoleSystem, msg_content = ''Make GBL''\<rparr>
      \<in> set [\<lparr>msg_role = RoleSystem, msg_content = ''Make GBL''\<rparr>, \<lparr>msg_role = RoleUser, msg_content = ''hi''\<rparr>]"
    by simp
  have "pattern_test ascii_upper (Boundary # term_atoms (units ''make gbl'') @ [Boundary]) (units ''Make GBL'')"
    by code_simp
  then show "phrase_occurs ascii_upper (units ''make gbl'')
      (units (msg_content \<lparr>msg_role = RoleSystem, msg_content = ''Make GBL''\<rparr>))"
    by (simp only: pattern_test_term chat_message.simps)
qed

end
