(* ===== verification/Startup.thy ===== *)
theory Startup
  imports Http_Messages Safety_Classifier
begin

text \<open>
  The entry point, \<^verbatim>\<open>coordinator/src/main.ts\<close>: the checks of the token, the loading of the safety
  rules with the exit codes of its failures, and what the coordinator is started with. The
  property ties the token check to the authorization of the server. What Node does to a header
  on its way is modelled here: a value holding a control character is refused (\<open>header_char\<close>),
  and the parser strips blanks at both ends (\<open>received\<close>), so \<open>transmitted v\<close> is the value that
  arrives, if any does.
\<close>

record environment =
  env_PORT :: "string option"
  env_HOST :: "string option"
  env_SWARM_AUTH_TOKEN :: "string option"

datatype token_check = NoToken | BadToken | TokenOk string

definition check_token :: "string option \<Rightarrow> token_check" where
  "check_token token =
     (case token of
        None \<Rightarrow> NoToken
      | Some t \<Rightarrow>
          if t = [] then NoToken
          else if CHR 0x0D \<in> set t \<or> CHR 0x0A \<in> set t \<or> t \<noteq> trim t then BadToken
          else TokenOk t)"

text \<open>What the process does: exit with status 1, die of an exception, or serve.\<close>

record running =
  run_port :: number
  run_host :: string
  run_token :: string
  run_classifier :: "keyword_rule list"
  run_categories :: nat

datatype startup = ExitNoToken | ExitBadToken | ExitBadRules rules_error | UncaughtError | Running running

text \<open>The errors of the loader that are a \<open>SafetyRulesError\<close>.\<close>

fun is_rules_error :: "rules_error \<Rightarrow> bool" where
  "is_rules_error (TermSyntaxError _) = False"
| "is_rules_error _ = True"

definition start :: "engine \<Rightarrow> (string \<Rightarrow> number) \<Rightarrow> environment \<Rightarrow> rules_file \<Rightarrow> startup" where
  "start eng to_number env rules_json =
     (let port = (case env_PORT env of None \<Rightarrow> Fin 8080 | Some p \<Rightarrow> to_number p);
          host = (case env_HOST env of None \<Rightarrow> ''127.0.0.1'' | Some h \<Rightarrow> if h = [] then ''127.0.0.1'' else h)
      in case check_token (env_SWARM_AUTH_TOKEN env) of
           NoToken \<Rightarrow> ExitNoToken
         | BadToken \<Rightarrow> ExitBadToken
         | TokenOk t \<Rightarrow>
             (case load_safety_rules eng rules_json of
                Inl e \<Rightarrow> if is_rules_error e then ExitBadRules e else UncaughtError
              | Inr rules \<Rightarrow>
                  Running \<lparr>run_port = port, run_host = host, run_token = t,
                    run_classifier = keyword_safety_classifier rules,
                    run_categories = card (set (map rule_category rules))\<rparr>))"

subsection \<open>A token that starts the coordinator can be used\<close>

text \<open>
  The characters a header value may hold: the tab and everything from the blank on, without
  \<open>DEL\<close>. The rest is refused by the sender and by the parser.
\<close>

definition header_char :: "char \<Rightarrow> bool" where
  "header_char c \<longleftrightarrow> (let n = of_char c :: nat in n = 9 \<or> 32 \<le> n \<and> n \<noteq> 127)"

text \<open>The parser of a received header strips spaces and tabs at both ends of its value.\<close>

definition is_ows :: "char \<Rightarrow> bool" where
  "is_ows c \<longleftrightarrow> c = CHR 0x20 \<or> c = CHR 0x09"

definition received :: "string \<Rightarrow> string" where
  "received h = rev (dropWhile is_ows (rev (dropWhile is_ows h)))"

definition transmitted :: "string \<Rightarrow> string option" where
  "transmitted h = (if list_all header_char h then Some (received h) else None)"

text \<open>A client that sends the very token is let in.\<close>

definition authorizes :: "string \<Rightarrow> bool" where
  "authorizes t \<longleftrightarrow> is_authorized (transmitted (bearer t)) t"

lemma ows_trims: "is_ows c \<Longrightarrow> trims c"
  by (auto simp: is_ows_def trims_def)

lemma dropWhile_id_iff: "dropWhile P s = s \<longleftrightarrow> s = [] \<or> \<not> P (hd s)"
proof (cases s)
  case (Cons c cs)
  then show ?thesis using length_dropWhile_le [of P cs] by (auto dest: arg_cong [where f = length])
qed simp

lemma trim_last:
  assumes "t = trim t" and "t \<noteq> []"
  shows "\<not> trims (last t)"
proof -
  obtain s where s: "rev t = dropWhile trims s" using assms(1) by (metis rev_rev_ident trim_def)
  with assms(2) have "dropWhile trims s \<noteq> []" by (metis rev_is_Nil_conv)
  then have "\<not> trims (hd (dropWhile trims s))" by (metis dropWhile_idem dropWhile_id_iff)
  with s assms(2) show ?thesis by (metis hd_rev)
qed

lemma received_bearer:
  assumes "t \<noteq> []" and "\<not> is_ows (last t)"
  shows "received (bearer t) = bearer t"
proof -
  have "dropWhile is_ows (bearer t) = bearer t" by (simp add: bearer_def is_ows_def)
  moreover have "dropWhile is_ows (rev (bearer t)) = rev (bearer t)"
    using assms by (simp add: dropWhile_id_iff hd_rev bearer_def)
  ultimately show ?thesis by (simp add: received_def)
qed

lemma received_shorter:
  assumes "is_ows c"
  shows "received (bearer (t @ [c])) \<noteq> bearer (t @ [c])"
proof -
  have "dropWhile is_ows (bearer (t @ [c])) = bearer (t @ [c])" by (simp add: bearer_def is_ows_def)
  then have "received (bearer (t @ [c])) = rev (dropWhile is_ows (rev (bearer (t @ [c]))))"
    by (simp add: received_def)
  also have "\<dots> \<noteq> bearer (t @ [c])"
    using assms dropWhile_id_iff [of is_ows "rev (bearer (t @ [c]))"] by (metis bearer_def append_assoc hd_append2 hd_rev
        last_appendR last_snoc rev_is_Nil_conv rev_rev_ident snoc_eq_iff_butlast)
  finally show ?thesis .
qed

lemma check_token_ok: "check_token env = TokenOk t \<Longrightarrow> env = Some t \<and> t \<noteq> [] \<and> \<not> trims (last t)"
  by (auto simp: check_token_def trim_last split: option.splits if_splits)

lemma received_bearer_iff: "t \<noteq> [] \<Longrightarrow> received (bearer t) = bearer t \<longleftrightarrow> \<not> is_ows (last t)"
  using received_bearer received_shorter [of "last t" "butlast t"] by auto

lemma authorizes_iff: "t \<noteq> [] \<Longrightarrow> authorizes t \<longleftrightarrow> list_all header_char t \<and> \<not> is_ows (last t)"
  using received_bearer_iff [of t]
  by (auto simp: authorizes_def transmitted_def is_authorized_iff bearer_def header_char_def)

lemma not_header_line_end: "\<not> header_char (CHR 0x0D)" "\<not> header_char (CHR 0x0A)"
  by (simp_all add: header_char_def)

lemma check_token_blank:
  assumes "t \<noteq> []" and "is_ows (last t) \<or> CHR 0x0D \<in> set t \<or> CHR 0x0A \<in> set t"
  shows "check_token (Some t) = BadToken \<and> \<not> authorizes t"
proof -
  have "is_ows (last t) \<Longrightarrow> t \<noteq> trim t" using trim_last [of t] ows_trims [of "last t"] assms(1) by blast
  then have "check_token (Some t) = BadToken" using assms by (auto simp: check_token_def)
  moreover have "\<not> authorizes t" using assms not_header_line_end by (auto simp: authorizes_iff list_all_iff)
  ultimately show ?thesis ..
qed

text \<open>
  C16: What the check of the token achieves. If the process gets as far as serving, a client that
  sends the token of its environment is authorized exactly when every character of the token can
  stand in a header; the classifier is the one of the rules file and holds at least one rule. A
  token that ends in a blank or a tab, or holds a line end, never authorizes anyone, and the
  process refuses to start with it. A trimmed token with another control character in it authorizes
  nobody either, yet the check lets it pass: with a good rules file the coordinator starts and
  answers 401 to every client. The engine never rejects a pattern made of a term, so the
  process does not die of an uncaught exception of the loader.
\<close>

theorem startup_armed_and_reachable:
  assumes "conforming canon eng"
  shows "(start eng to_number env rules_json = Running r \<longrightarrow>
       env_SWARM_AUTH_TOKEN env = Some (run_token r) \<and>
       (authorizes (run_token r) \<longleftrightarrow> list_all header_char (run_token r)) \<and>
       run_classifier r \<noteq> [] \<and>
       (\<exists>rules. load_safety_rules eng rules_json = Inr rules \<and> run_classifier r = keyword_safety_classifier rules)) \<and>
     (t \<noteq> [] \<and> (is_ows (last t) \<or> CHR 0x0D \<in> set t \<or> CHR 0x0A \<in> set t) \<longrightarrow>
       \<not> authorizes t \<and>
       start eng to_number (env\<lparr>env_SWARM_AUTH_TOKEN := Some t\<rparr>) rules_json = ExitBadToken) \<and>
     (t = trim t \<and> CHR 0x0D \<notin> set t \<and> CHR 0x0A \<notin> set t \<and> \<not> list_all header_char t \<longrightarrow>
       \<not> authorizes t \<and>
       (load_safety_rules eng rules_json = Inr rules \<longrightarrow>
         (\<exists>r. start eng to_number (env\<lparr>env_SWARM_AUTH_TOKEN := Some t\<rparr>) rules_json = Running r \<and> run_token r = t))) \<and>
     start eng to_number env rules_json \<noteq> UncaughtError"
proof (intro conjI impI)
  assume run: "start eng to_number env rules_json = Running r"
  then obtain t rules where t: "check_token (env_SWARM_AUTH_TOKEN env) = TokenOk t"
      and rules: "load_safety_rules eng rules_json = Inr rules"
      and r: "run_token r = t" "run_classifier r = keyword_safety_classifier rules"
    by (auto simp: start_def Let_def split: token_check.splits sum.splits if_splits)
  from check_token_ok [OF t] ows_trims have ok: "env_SWARM_AUTH_TOKEN env = Some t" "t \<noteq> []" "\<not> is_ows (last t)" by blast+
  show "env_SWARM_AUTH_TOKEN env = Some (run_token r)" using ok r by simp
  show "authorizes (run_token r) \<longleftrightarrow> list_all header_char (run_token r)" using ok r by (simp add: authorizes_iff)
  show "run_classifier r \<noteq> []" using load_armed [OF assms rules] r by (simp add: keyword_safety_classifier_def)
  show "\<exists>rules. load_safety_rules eng rules_json = Inr rules \<and> run_classifier r = keyword_safety_classifier rules"
    using rules r by blast
next
  assume "t \<noteq> [] \<and> (is_ows (last t) \<or> CHR 0x0D \<in> set t \<or> CHR 0x0A \<in> set t)"
  with check_token_blank [of t] have bad: "check_token (Some t) = BadToken" "\<not> authorizes t" by blast+
  show "\<not> authorizes t" by (rule bad)
  show "start eng to_number (env\<lparr>env_SWARM_AUTH_TOKEN := Some t\<rparr>) rules_json = ExitBadToken"
    using bad by (simp add: start_def)
next
  assume t: "t = trim t \<and> CHR 0x0D \<notin> set t \<and> CHR 0x0A \<notin> set t \<and> \<not> list_all header_char t"
  then have "t \<noteq> []" by auto
  with t show "\<not> authorizes t" by (simp add: authorizes_iff)
  assume "load_safety_rules eng rules_json = Inr rules"
  with t \<open>t \<noteq> []\<close> show "\<exists>r. start eng to_number (env\<lparr>env_SWARM_AUTH_TOKEN := Some t\<rparr>) rules_json = Running r \<and> run_token r = t"
    by (simp add: start_def check_token_def)
next
  have "\<not> is_rules_error e \<Longrightarrow> \<exists>i. e = TermSyntaxError i" for e by (cases e) simp_all
  then show "start eng to_number env rules_json \<noteq> UncaughtError"
    using load_no_syntax_error [OF assms]
    by (auto simp: start_def Let_def split: token_check.splits sum.splits if_splits)
qed

text \<open>A token that can be sent, and one with a control character that starts a coordinator nobody can reach.\<close>

theorem startup_armed_and_reachable_witness:
  "authorizes ''s3cret'' \<and> \<not> authorizes [CHR ''a'', CHR 0x07, CHR ''b'']"
proof -
  let ?env = "\<lparr>env_PORT = None, env_HOST = None, env_SWARM_AUTH_TOKEN = Some ''s3cret''\<rparr>"
  let ?rules = "Parsed (JObj [(''rules'', JArr [example_entry])])"
  let ?bad = "[CHR ''a'', CHR 0x07, CHR ''b'']"
  obtain r where r: "start model_engine (\<lambda>_. NaN) ?env ?rules = Running r" "run_token r = ''s3cret''"
  proof -
    have "(case start model_engine (\<lambda>_. NaN) ?env ?rules of Running r \<Rightarrow> run_token r = ''s3cret'' | _ \<Rightarrow> False)" by code_simp
    then show ?thesis using that by (cases "start model_engine (\<lambda>_. NaN) ?env ?rules") auto
  qed
  have "?bad = trim ?bad" "\<not> list_all header_char ?bad" "list_all header_char ''s3cret''" by code_simp+
  with r startup_armed_and_reachable [OF model_engine_conforming, of "\<lambda>_. NaN" ?env ?rules r ?bad] show ?thesis by simp
qed

end
