(* ===== verification/Api_Document.thy ===== *)
theory Api_Document
  imports Server
begin

text \<open>
  The API document the coordinator serves, \<^verbatim>\<open>coordinator/src/openapi.ts\<close>: one \<open>operation\<close> per path and
  method, with the schema of its request body and, per status, the content of the reply. The
  descriptions are prose and left out, as is the format \<open>uri\<close> of a peer's endpoint, which OpenAPI
  treats as an annotation. \<open>conforms\<close> is validity under the part of the schema language that the
  document uses: a property that is not required may be missing, properties that are not listed
  may be present.
\<close>

datatype schema =
  SString
| SEnum "string list"
| SInteger
| SRange int int
| SBoolean
| SNullable schema
| SArray schema
| SObject (required: "string list") (properties: "(string \<times> schema) list")
| SOneOf "schema list"

fun conforms :: "schema \<Rightarrow> json \<Rightarrow> bool" where
  "conforms SString v = (case v of JStr _ \<Rightarrow> True | _ \<Rightarrow> False)"
| "conforms (SEnum ss) v = (case v of JStr s \<Rightarrow> s \<in> set ss | _ \<Rightarrow> False)"
| "conforms SInteger v = (case v of JNum n \<Rightarrow> is_integer n | _ \<Rightarrow> False)"
| "conforms (SRange lo hi) v = (case v of JNum n \<Rightarrow> is_integer n \<and> of_int lo \<le> num_value n \<and> num_value n \<le> of_int hi | _ \<Rightarrow> False)"
| "conforms SBoolean v = (case v of JBool _ \<Rightarrow> True | _ \<Rightarrow> False)"
| "conforms (SNullable s) v = (v = JNull \<or> conforms s v)"
| "conforms (SArray s) v = (case v of JArr vs \<Rightarrow> list_all (conforms s) vs | _ \<Rightarrow> False)"
| "conforms (SObject req props) v =
     (case v of
        JObj kvs \<Rightarrow> list_all (\<lambda>k. map_of kvs k \<noteq> None) req \<and>
          list_all (\<lambda>(k, s). case map_of kvs k of None \<Rightarrow> True | Some x \<Rightarrow> conforms s x) props
      | _ \<Rightarrow> False)"
| "conforms (SOneOf ss) v = (length (filter (\<lambda>s. conforms s v) ss) = 1)"

datatype segment = Lit string | Param

datatype content = NoContent | JsonContent schema | JsonOrEvents schema

record operation =
  op_path :: "segment list"
  op_method :: string
  op_request :: "schema option"
  op_responses :: "(int \<times> content) list"

definition error_schema :: schema where
  "error_schema = SObject [] [(''error'', SString)]"

definition UNAUTHORIZED_RESPONSE :: "int \<times> content" where
  "UNAUTHORIZED_RESPONSE = (401, JsonContent error_schema)"

text \<open>An operation that answers whether it has found the path's identifier.\<close>

definition found_operation :: "segment list \<Rightarrow> string \<Rightarrow> operation" where
  "found_operation path m =
     \<lparr>op_path = path, op_method = m, op_request = None,
      op_responses = [UNAUTHORIZED_RESPONSE, (204, NoContent), (404, NoContent)]\<rparr>"

definition listing_operation :: "segment list \<Rightarrow> schema \<Rightarrow> operation" where
  "listing_operation path s =
     \<lparr>op_path = path, op_method = ''GET'', op_request = None,
      op_responses = [UNAUTHORIZED_RESPONSE, (200, JsonContent s)]\<rparr>"

definition op_nodes_register :: operation where
  "op_nodes_register =
     \<lparr>op_path = [Lit ''nodes'', Lit ''register''], op_method = ''POST'',
      op_request = Some (SObject [''endpoint'', ''deviceTier'']
        [(''endpoint'', SString), (''deviceTier'', SEnum [''desktop'', ''android'', ''ios'']),
         (''localityGroup'', SString), (''servesModel'', SString)]),
      op_responses = [UNAUTHORIZED_RESPONSE, (200, JsonContent (SObject [] [(''nodeId'', SString)])),
         (400, JsonContent error_schema)]\<rparr>"

definition op_node_heartbeat :: operation where
  "op_node_heartbeat = found_operation [Lit ''nodes'', Param, Lit ''heartbeat''] ''POST''"

definition op_agree :: operation where
  "op_agree = found_operation [Lit ''nodes'', Param, Lit ''reputation'', Lit ''agree''] ''POST''"

definition op_disagree :: operation where
  "op_disagree = found_operation [Lit ''nodes'', Param, Lit ''reputation'', Lit ''disagree''] ''POST''"

definition op_reputation :: operation where
  "op_reputation =
     \<lparr>op_path = [Lit ''nodes'', Param, Lit ''reputation''], op_method = ''GET'', op_request = None,
      op_responses = [UNAUTHORIZED_RESPONSE,
         (200, JsonContent (SObject [] [(''agreements'', SInteger), (''disagreements'', SInteger), (''trusted'', SBoolean)])),
         (404, NoContent)]\<rparr>"

definition op_nodes :: operation where
  "op_nodes = listing_operation [Lit ''nodes''] (SArray (SObject []
     [(''nodeId'', SString), (''endpoint'', SString), (''deviceTier'', SString), (''localityGroup'', SString)]))"

definition op_locality :: operation where
  "op_locality = listing_operation [Lit ''nodes'', Lit ''locality''] (SObject [] [])"

definition op_capacity :: operation where
  "op_capacity = listing_operation [Lit ''capacity''] (SObject [] [(''activeNodes'', SInteger)])"

definition op_peers_register :: operation where
  "op_peers_register =
     \<lparr>op_path = [Lit ''peers'', Lit ''register''], op_method = ''POST'',
      op_request = Some (SObject [''endpoint''] [(''endpoint'', SString)]),
      op_responses = [UNAUTHORIZED_RESPONSE, (200, JsonContent (SObject [] [(''peerId'', SString)])),
         (400, JsonContent error_schema)]\<rparr>"

definition op_peer_heartbeat :: operation where
  "op_peer_heartbeat = found_operation [Lit ''peers'', Param, Lit ''heartbeat''] ''POST''"

definition op_peers :: operation where
  "op_peers = listing_operation [Lit ''peers''] (SArray (SObject [] [(''peerId'', SString), (''endpoint'', SString)]))"

definition op_delete_peer :: operation where
  "op_delete_peer = found_operation [Lit ''peers'', Param] ''DELETE''"

definition op_catalog :: operation where
  "op_catalog = listing_operation [Lit ''catalog''] (SArray (SObject []
     [(''id'', SString), (''displayName'', SString), (''minActiveNodes'', SInteger), (''available'', SBoolean)]))"

definition verdict_properties :: "(string \<times> schema) list" where
  "verdict_properties = [(''safe'', SBoolean), (''categories'', SArray SString)]"

definition op_classify :: operation where
  "op_classify =
     \<lparr>op_path = [Lit ''classify''], op_method = ''POST'',
      op_request = Some (SObject [''prompt''] [(''prompt'', SString)]),
      op_responses = [UNAUTHORIZED_RESPONSE, (200, JsonContent (SObject [] verdict_properties)),
         (400, JsonContent error_schema)]\<rparr>"

definition op_generate :: operation where
  "op_generate =
     \<lparr>op_path = [Lit ''generate''], op_method = ''POST'',
      op_request = Some (SObject [''prompt'', ''modelId'']
        [(''prompt'', SString), (''modelId'', SString), (''n_predict'', SRange 1 512), (''stream'', SBoolean)]),
      op_responses = [UNAUTHORIZED_RESPONSE, (200, JsonOrEvents (SObject [] [(''text'', SString)])),
         (400, JsonContent (SOneOf [SObject [''error''] [(''error'', SString)],
                                    SObject [''safe'', ''categories''] verdict_properties])),
         (503, JsonContent error_schema), (502, JsonContent error_schema)]\<rparr>"

definition op_models :: operation where
  "op_models = listing_operation [Lit ''v1'', Lit ''models''] (SObject []
     [(''object'', SString),
      (''data'', SArray (SObject [] [(''id'', SString), (''object'', SString), (''created'', SInteger), (''owned_by'', SString)]))])"

definition message_schema :: schema where
  "message_schema = SObject [''role'', ''content'']
     [(''role'', SEnum [''system'', ''user'', ''assistant'']), (''content'', SString)]"

definition completion_schema :: schema where
  "completion_schema = SObject []
     [(''id'', SString), (''object'', SString), (''created'', SInteger), (''model'', SString),
      (''choices'', SArray (SObject []
        [(''index'', SInteger), (''message'', SObject [] [(''role'', SString), (''content'', SString)]),
         (''finish_reason'', SString)])),
      (''usage'', SObject []
        [(''prompt_tokens'', SInteger), (''completion_tokens'', SInteger), (''total_tokens'', SInteger)])]"

definition op_chat :: operation where
  "op_chat =
     \<lparr>op_path = [Lit ''v1'', Lit ''chat'', Lit ''completions''], op_method = ''POST'',
      op_request = Some (SObject [''model'', ''messages'']
        [(''model'', SString), (''messages'', SArray message_schema), (''max_tokens'', SNullable (SRange 1 512)),
         (''stream'', SBoolean), (''stream_options'', SObject [] [(''include_usage'', SBoolean)])]),
      op_responses = [UNAUTHORIZED_RESPONSE, (200, JsonOrEvents completion_schema),
         (400, JsonContent (SObject [] [(''error'', SObject []
            [(''message'', SString), (''type'', SString), (''code'', SNullable SString)])])),
         (503, JsonContent (SObject [] [(''error'', SObject [] [])])),
         (502, JsonContent (SObject [] [(''error'', SObject [] [])]))]\<rparr>"

definition openapi_operations :: "operation list" where
  "openapi_operations =
     [op_nodes_register, op_node_heartbeat, op_agree, op_disagree, op_reputation, op_nodes, op_locality, op_capacity,
      op_peers_register, op_peer_heartbeat, op_peers, op_delete_peer, op_catalog, op_classify, op_generate, op_models,
      op_chat]"

end
