(* ===== verification/Api_Conformance.thy ===== *)
theory Api_Conformance
  imports Api_Document
begin

text \<open>
  The server against its API document: every reply to a documented operation has a documented
  status and a body of the documented schema. One lemma per route; the property puts them
  together over the dispatch.
\<close>

fun matches :: "segment list \<Rightarrow> string list \<Rightarrow> bool" where
  "matches [] ps \<longleftrightarrow> ps = []"
| "matches (s # ss) [] \<longleftrightarrow> False"
| "matches (Lit s # ss) (p # ps) \<longleftrightarrow> s = p \<and> matches ss ps"
| "matches (Param # ss) (p # ps) \<longleftrightarrow> matches ss ps"

definition content_ok :: "content \<Rightarrow> payload \<Rightarrow> bool" where
  "content_ok c p =
     (case (c, p) of
        (NoContent, NoPayload) \<Rightarrow> True
      | (JsonContent s, JsonPayload v) \<Rightarrow> conforms s v
      | (JsonOrEvents s, JsonPayload v) \<Rightarrow> conforms s v
      | (JsonOrEvents s, StreamPayload _) \<Rightarrow> True
      | _ \<Rightarrow> False)"

definition documented :: "operation \<Rightarrow> response \<Rightarrow> bool" where
  "documented oper res =
     (case map_of (op_responses oper) (rs_status res) of None \<Rightarrow> False | Some c \<Rightarrow> content_ok c (rs_payload res))"

text \<open>A documented reply, or the undocumented status 500 of a route that reads a body.\<close>

definition answered :: "operation \<Rightarrow> response \<Rightarrow> bool" where
  "answered oper res \<longleftrightarrow> documented oper res \<or> op_request oper \<noteq> None \<and> rs_status res = 500"

lemma documented_answered: "documented oper res \<Longrightarrow> answered oper res"
  by (simp add: answered_def)

named_theorems document \<open>the operations of the document\<close>

lemmas document_defs [document] =
  op_nodes_register_def op_node_heartbeat_def op_agree_def op_disagree_def op_reputation_def op_nodes_def
  op_locality_def op_capacity_def op_peers_register_def op_peer_heartbeat_def op_peers_def op_delete_peer_def
  op_catalog_def op_classify_def op_generate_def op_models_def op_chat_def found_operation_def
  listing_operation_def UNAUTHORIZED_RESPONSE_def error_schema_def verdict_properties_def

lemma every_operation_has_401: "oper \<in> set openapi_operations \<Longrightarrow> documented oper send_unauthorized"
  by (auto simp: openapi_operations_def document documented_def content_ok_def send_unauthorized_def error_json_def)

subsection \<open>Routes without a body\<close>

lemma found_documented: "answered (found_operation path m) (found_reply ok)"
  by (simp add: answered_def documented_def content_ok_def document found_reply_def send_status_def)

lemma listing_documented: "conforms s v \<Longrightarrow> answered (listing_operation path s) (send_json 200 v)"
  by (simp add: answered_def documented_def content_ok_def document send_json_def)

lemma node_json_conforms: "conforms (SObject []
     [(''nodeId'', SString), (''endpoint'', SString), (''deviceTier'', SString), (''localityGroup'', SString)]) (node_json n)"
  by (simp add: node_json_def optional_field_def split: option.split)

lemma availability_conforms:
  "is_integer (Fin (minActiveNodes (fst ea))) \<Longrightarrow> conforms (SObject []
     [(''id'', SString), (''displayName'', SString), (''minActiveNodes'', SInteger), (''available'', SBoolean)])
     (availability_json ea)"
  by (simp add: availability_json_def Let_def optional_field_def split: option.split)

lemma json_of_nat_integer: "conforms SInteger (json_of_nat n)"
  by (simp add: json_of_nat_def)

definition whole_thresholds :: "config \<Rightarrow> bool" where
  "whole_thresholds cfg \<longleftrightarrow> (\<forall>e \<in> set (cfg_catalog cfg). is_integer (Fin (minActiveNodes e)))"

lemma get_nodes_answered: "answered op_nodes (fst (get_nodes w st))"
  unfolding op_nodes_def get_nodes_def case_prod_beta Let_def fst_conv
  by (rule listing_documented) (simp add: list_all_iff node_json_conforms del: conforms.simps(8))

lemma get_peers_answered: "answered op_peers (fst (get_peers w st))"
  unfolding op_peers_def get_peers_def case_prod_beta Let_def fst_conv
  by (rule listing_documented) (simp add: list_all_iff peer_json_def)

lemma get_locality_answered: "answered op_locality (fst (get_nodes_locality w st))"
  unfolding op_locality_def get_nodes_locality_def case_prod_beta Let_def fst_conv
  by (rule listing_documented) simp

lemma get_capacity_answered: "answered op_capacity (fst (get_capacity w st))"
  unfolding op_capacity_def get_capacity_def case_prod_beta Let_def fst_conv
  by (rule listing_documented) (simp add: json_of_nat_def)

lemma get_models_answered: "answered op_models (fst (get_models w st))"
  unfolding op_models_def get_models_def fst_conv
  by (rule listing_documented) (simp add: list_all_iff json_of_nat_def)

lemma get_catalog_answered:
  assumes "whole_thresholds (hw_config w)"
  shows "answered op_catalog (fst (get_catalog w st))"
  unfolding op_catalog_def get_catalog_def case_prod_beta Let_def fst_conv
proof (rule listing_documented)
  have "is_integer (Fin (minActiveNodes (fst ea)))" if "ea \<in> set (availability count (cfg_catalog (hw_config w)))" for ea count
    using that assms by (auto simp: whole_thresholds_def availability_def simp del: is_integer.simps)
  then show "conforms (SArray (SObject [] [(''id'', SString), (''displayName'', SString), (''minActiveNodes'', SInteger),
      (''available'', SBoolean)])) (JArr (map availability_json (availability count (cfg_catalog (hw_config w)))))" for count
    by (simp add: list_all_iff availability_conforms del: conforms.simps(8) is_integer.simps)
qed

lemma get_reputation_answered: "answered op_reputation (fst (get_reputation w nid st))"
  by (simp add: get_reputation_def case_prod_beta Let_def answered_def documented_def content_ok_def document
      send_json_def send_status_def json_of_nat_def)

lemma post_reputation_answered:
  "answered op_agree (fst (post_reputation w nid v st))" "answered op_disagree (fst (post_reputation w nid v st))"
  by (simp_all add: post_reputation_def case_prod_beta Let_def answered_def documented_def content_ok_def document
      send_status_def)

lemma identifier_routes_answered:
  "answered op_node_heartbeat (fst (post_node_heartbeat w i st))"
  "answered op_peer_heartbeat (fst (post_peer_heartbeat w i st))"
  "answered op_delete_peer (fst (delete_peer w i st))"
  by (simp_all add: op_node_heartbeat_def op_peer_heartbeat_def op_delete_peer_def post_node_heartbeat_def
      post_peer_heartbeat_def delete_peer_def case_prod_beta Let_def found_documented)

subsection \<open>Routes with a body\<close>

lemma error_documented:
  assumes "map_of (op_responses oper) s = Some (JsonContent error_schema)"
  shows "documented oper (send_json s (error_json msg))"
  using assms by (simp add: documented_def content_ok_def send_json_def error_json_def error_schema_def)

lemma error_500: "op_request oper \<noteq> None \<Longrightarrow> answered oper internal_error"
  by (simp add: answered_def internal_error_def send_json_def)

lemma with_body_answered:
  assumes body: "op_request oper \<noteq> None" and bad: "documented oper bad_json"
    and rest: "\<And>v st. answered oper (fst (k v st))"
  shows "answered oper (fst (with_body w rq st k))"
proof -
  have "answered oper bad_json" using bad by (simp add: answered_def)
  with with_body_cases [of w rq st k] show ?thesis
    by (elim disjE exE conjE) (simp_all add: error_500 [OF body] rest)
qed

lemma registration_answered:
  assumes "op_request oper \<noteq> None" and bad: "\<And>msg. documented oper (send_json 400 (error_json msg))"
    and "\<And>v st. answered oper (fst (k v st))"
  shows "answered oper (fst (with_body w rq st (\<lambda>body st. checked_reply (c body) st (\<lambda>v. k v st))))"
proof (rule with_body_answered)
  show "documented oper bad_json" unfolding bad_json_def by (rule bad)
  show "answered oper (fst (checked_reply (c v) st (\<lambda>v. k v st)))" for v st
    using assms(3) bad by (simp add: checked_reply_def answered_def split: sum.split)
qed (rule assms)

lemma post_nodes_register_answered: "answered op_nodes_register (fst (post_nodes_register w rq st))"
  unfolding post_nodes_register_def
  by (rule registration_answered)
    (simp_all add: document case_prod_beta answered_def documented_def content_ok_def send_json_def error_json_def)

lemma post_peers_register_answered: "answered op_peers_register (fst (post_peers_register w rq st))"
  unfolding post_peers_register_def
  by (rule registration_answered)
    (simp_all add: document case_prod_beta answered_def documented_def content_ok_def send_json_def error_json_def)

lemma verdict_conforms: "conforms (SObject [] verdict_properties) (verdict_json ok cats)"
  by (simp add: verdict_properties_def verdict_json_def list_all_iff)

lemma post_classify_answered: "answered op_classify (fst (post_classify w rq st))"
  unfolding post_classify_def
proof (rule registration_answered)
  show "op_request op_classify \<noteq> None" by (simp add: document)
  show "documented op_classify (send_json 400 (error_json msg))" for msg
    by (rule error_documented) (simp add: document)
  have "documented op_classify (send_json 200 (verdict_json ok cats))" for ok cats
    using verdict_conforms [of ok cats]
    by (simp add: op_classify_def UNAUTHORIZED_RESPONSE_def documented_def content_ok_def send_json_def)
  then show "answered op_classify (fst (let st = hw_others w 1 st; closed = send_json 200 (verdict_json False [''classifier_error''])
      in (case verdict w prompt of None \<Rightarrow> closed
          | Some (ok, cats) \<Rightarrow> (case unique_categories (hw_show w) cats of None \<Rightarrow> closed
              | Some us \<Rightarrow> send_json 200 (verdict_json ok us)), [], st)))" for prompt st
    by (simp add: answered_def Let_def split: option.split)
qed

lemma generate_replies_documented:
  "documented op_generate (send_json 400 (error_json msg))"
  "documented op_generate (send_json 400 (verdict_json False cats))"
  "documented op_generate (send_json 502 (error_json msg))"
  "documented op_generate (send_json 503 (error_json msg))"
  "documented op_generate (send_json 200 (JObj [(''text'', JStr t)]))"
  "documented op_generate (event_stream chunks)"
  by (simp_all add: documented_def content_ok_def document send_json_def error_json_def verdict_json_def event_stream_def
      list_all_iff)

lemma forward_documented: "documented op_generate (fst (forward w g n calls st))"
proof -
  have "documented op_generate (fst (forward_stream g n answer st))" for answer st
    by (simp add: forward_stream_def forward_failed_def generate_replies_documented
        split: node_answer.split option.split prod.split)
  moreover have "documented op_generate (fst (forward_whole g n answer st))" for answer st
    by (simp add: forward_whole_def forward_failed_def generate_replies_documented
        split: node_answer.split option.split json_value.split)
  ultimately show ?thesis by (simp add: forward_def Let_def case_prod_beta)
qed

lemma generate_500: "answered op_generate internal_error"
  by (rule error_500) (simp add: op_generate_def)

lemmas generate_answered = generate_500 forward_documented [THEN documented_answered]
  generate_replies_documented [THEN documented_answered]

lemma generate_cold_answered: "answered op_generate (fst (generate_cold w g st))"
  by (simp add: generate_cold_def case_prod_beta Let_def generate_answered split: bool.split option.split)

lemma post_generate_answered: "answered op_generate (fst (post_generate w rq st))"
  unfolding post_generate_def
proof (rule registration_answered)
  show "op_request op_generate \<noteq> None" by (simp add: op_generate_def)
  show "documented op_generate (send_json 400 (error_json msg))" for msg by (rule generate_replies_documented)
  show "answered op_generate (fst (case blocked_categories w (gen_prompt g) of
      Some cats \<Rightarrow> (send_json 400 (verdict_json False cats), [], hw_others w 1 st)
    | None \<Rightarrow> generate_admitted w g (hw_others w 1 st)))" for g st
    by (simp add: generate_admitted_def generate_cold_answered generate_answered split: option.split prod.split)
qed

subsection \<open>Chat completions\<close>

text \<open>Nodes report numbers of tokens as whole numbers.\<close>

definition whole_counts :: "http_world \<Rightarrow> bool" where
  "whole_counts w \<longleftrightarrow>
     (\<forall>url c r v k. hw_node w url c = NodeReplied r \<longrightarrow> nr_json r = Some v \<longrightarrow> is_integer (token_field k v))"

lemma num_add_integer:
  assumes "is_integer a" and "is_integer b"
  shows "is_integer (num_add a b)"
proof -
  from assms obtain r s where ab: "a = Fin r" "b = Fin s" and int: "of_int \<lfloor>r\<rfloor> = r" "of_int \<lfloor>s\<rfloor> = s"
    by (cases a; cases b) auto
  have "of_int \<lfloor>r + s\<rfloor> = r + s" by (metis int floor_of_int of_int_add)
  then show ?thesis by (simp add: ab)
qed

lemma completion_conforms:
  assumes "is_integer (us_promptTokens u)" and "is_integer (us_completionTokens u)"
  shows "conforms completion_schema (chat_completion c t u)"
  using assms num_add_integer [OF assms]
  by (simp add: completion_schema_def chat_completion_def chat_id_fields_def usage_json_def)

lemma chat_replies_documented:
  "documented op_chat (send_json 400 (chat_error_json msg code))"
  "documented op_chat (chat_reply 400 msg)"
  "documented op_chat (chat_reply 502 msg)"
  "documented op_chat (chat_reply 503 msg)"
  "documented op_chat (event_stream chunks)"
  by (simp_all add: documented_def content_ok_def document send_json_def chat_reply_def chat_error_json_def event_stream_def
      split: option.split)

lemma chat_200_documented:
  "conforms completion_schema v \<Longrightarrow> documented op_chat (send_json 200 v)"
  by (simp add: documented_def content_ok_def op_chat_def UNAUTHORIZED_RESPONSE_def send_json_def)

lemma chat_forward_documented:
  assumes "whole_counts w"
  shows "documented op_chat (fst (chat_forward w q prompt n st))"
proof -
  have "documented op_chat (chat_whole c (hw_node w url b))" for c url b
  proof -
    have "is_integer (token_field k v)" if "hw_node w url b = NodeReplied r" "nr_json r = Some v" for r v k
      using assms that unfolding whole_counts_def by blast
    then have "documented op_chat (send_json 200 (chat_completion c t (usage_of v)))"
      if "hw_node w url b = NodeReplied r" "nr_json r = Some v" for r v t
      using that by (intro chat_200_documented completion_conforms) (simp_all add: usage_of_def)
    then show ?thesis
      by (simp add: chat_whole_def chat_replies_documented split: node_answer.split option.split json_value.split)
  qed
  moreover have "documented op_chat (chat_streamed w c i answer)" for c i answer
    by (simp add: chat_streamed_def chat_replies_documented split: node_answer.split option.split prod.split)
  ultimately show ?thesis by (simp add: chat_forward_def Let_def)
qed

lemma chat_500: "answered op_chat internal_error"
  by (rule error_500) (simp add: op_chat_def)

lemma post_chat_answered:
  assumes "whole_counts w"
  shows "answered op_chat (fst (post_chat_completions w rq st))"
proof -
  note ok = chat_500 chat_replies_documented [THEN documented_answered]
    chat_forward_documented [OF assms, THEN documented_answered]
  have "answered op_chat (fst (chat_admitted w q prompt st))" for q prompt st
    by (simp add: chat_admitted_def Let_def case_prod_beta ok split: option.split)
  then have "answered op_chat (fst (chat_checked w body st))" for body st
    by (simp add: chat_checked_def Let_def ok split: sum.split chat_error.split option.split)
  then show ?thesis
    by (simp add: post_chat_completions_def Let_def ok split: sum.split body_error.split)
qed

subsection \<open>Bodies that are accepted\<close>

text \<open>The part of a request schema whose types the code checks: all but \<open>stream\<close> and \<open>stream_options\<close>.\<close>

fun checked_part :: "schema \<Rightarrow> schema" where
  "checked_part (SObject req props) = SObject req (filter (\<lambda>p. fst p \<noteq> ''stream'' \<and> fst p \<noteq> ''stream_options'') props)"
| "checked_part s = s"

definition accepts_checked :: "operation \<Rightarrow> request \<Rightarrow> response \<Rightarrow> bool" where
  "accepts_checked oper rq res \<longleftrightarrow>
     (case op_request oper of
        None \<Rightarrow> True
      | Some s \<Rightarrow> rs_status res = 200 \<longrightarrow> (\<exists>body. read_json_body (rq_body rq) = Inr body \<and> conforms (checked_part s) body))"

lemma accepted_body:
  assumes "rs_status (fst (with_body w rq st (\<lambda>body st. checked_reply (c body) st (\<lambda>v. k v st)))) = 200"
  shows "\<exists>body v. read_json_body (rq_body rq) = Inr body \<and> c body = Inr v"
  using assms by (auto simp: with_body_def checked_reply_def bad_json_def internal_error_def send_json_def
      split: sum.splits body_error.splits)

lemma registration_accepts:
  assumes "op_request oper = Some s" and "\<And>body v. c body = Inr v \<Longrightarrow> conforms (checked_part s) body"
  shows "accepts_checked oper rq (fst (with_body w rq st (\<lambda>body st. checked_reply (c body) st (\<lambda>v. k v st))))"
  using accepted_body [of w rq st c k] assms by (auto simp: accepts_checked_def)

lemma field_object: "field k c = Some x \<Longrightarrow> \<exists>kvs. c = JObj kvs \<and> map_of kvs k = Some x"
  by (cases c) simp_all

lemma checked_fields:
  "checked_endpoint cfg c = Inr e \<Longrightarrow> \<exists>s. field ''endpoint'' c = Some (JStr s)"
  "checked_tier c = Inr t \<Longrightarrow> \<exists>s \<in> {''desktop'', ''android'', ''ios''}. field ''deviceTier'' c = Some (JStr s)"
  "checked_locality c = Inr l \<Longrightarrow> field ''localityGroup'' c = None \<or> (\<exists>s. field ''localityGroup'' c = Some (JStr s))"
  "checked_model cfg c = Inr m \<Longrightarrow> field ''servesModel'' c = None \<or> (\<exists>s. field ''servesModel'' c = Some (JStr s))"
  "checked_prompt c = Inr p \<Longrightarrow> \<exists>s. field ''prompt'' c = Some (JStr s)"
  "checked_model_id cfg c = Inr i \<Longrightarrow> \<exists>s. field ''modelId'' c = Some (JStr s)"
  by (auto simp: checked_endpoint_def checked_tier_def checked_locality_def checked_model_def checked_prompt_def
      checked_model_id_def split: option.splits json_value.splits if_splits)

lemma checked_counts:
  "token_count v = Some n \<Longrightarrow> \<exists>x. v = JNum x \<and> is_integer x \<and> 1 \<le> num_value x \<and> num_value x \<le> 512"
proof -
  assume count: "token_count v = Some n"
  then obtain r where "v = JNum (Fin r)" "of_int \<lfloor>r\<rfloor> = r" "1 \<le> r" "r \<le> 512"
    by (cases v rule: token_count.cases; cases "case v of JNum x \<Rightarrow> x")
      (auto simp: token_count.simps MAX_N_PREDICT_def split: if_splits)
  then show ?thesis by simp
qed

lemma nodes_register_accepts: "accepts_checked op_nodes_register rq (fst (post_nodes_register w rq st))"
  unfolding post_nodes_register_def
proof (rule registration_accepts)
  show "op_request op_nodes_register = Some (SObject [''endpoint'', ''deviceTier'']
      [(''endpoint'', SString), (''deviceTier'', SEnum [''desktop'', ''android'', ''ios'']),
       (''localityGroup'', SString), (''servesModel'', SString)])"
    by (simp add: op_nodes_register_def)
  fix body r
  assume "checked_node (hw_config w) body = Inr r"
  then obtain e t l m where e: "checked_endpoint (hw_config w) body = Inr e" and t: "checked_tier body = Inr t"
      and l: "checked_locality body = Inr l" and m: "checked_model (hw_config w) body = Inr m"
    by (auto simp: checked_node_def checked_iff json_object_def split: if_splits)
  note fields = checked_fields(1) [OF e] checked_fields(2) [OF t] checked_fields(3) [OF l] checked_fields(4) [OF m]
  then obtain kvs where "body = JObj kvs" using field_object by blast
  with fields show "conforms (checked_part (SObject [''endpoint'', ''deviceTier'']
      [(''endpoint'', SString), (''deviceTier'', SEnum [''desktop'', ''android'', ''ios'']),
       (''localityGroup'', SString), (''servesModel'', SString)])) body"
    by auto
qed

lemma peers_register_accepts: "accepts_checked op_peers_register rq (fst (post_peers_register w rq st))"
  unfolding post_peers_register_def
proof (rule registration_accepts)
  show "op_request op_peers_register = Some (SObject [''endpoint''] [(''endpoint'', SString)])"
    by (simp add: op_peers_register_def)
  show "conforms (checked_part (SObject [''endpoint''] [(''endpoint'', SString)])) body"
    if "checked_peer (hw_config w) body = Inr r" for body r
    using that by (auto simp: checked_peer_def checked_iff json_object_def dest!: checked_fields field_object split: if_splits)
qed

lemma classify_accepts: "accepts_checked op_classify rq (fst (post_classify w rq st))"
  unfolding post_classify_def
proof (rule registration_accepts)
  show "op_request op_classify = Some (SObject [''prompt''] [(''prompt'', SString)])"
    by (simp add: op_classify_def)
  show "conforms (checked_part (SObject [''prompt''] [(''prompt'', SString)])) body"
    if "bind_checked (json_object body) checked_prompt = Inr r" for body r
    using that by (auto simp: checked_iff json_object_def dest!: checked_fields field_object split: if_splits)
qed

lemma generate_accepts: "accepts_checked op_generate rq (fst (post_generate w rq st))"
  unfolding post_generate_def
proof (rule registration_accepts)
  show "op_request op_generate = Some (SObject [''prompt'', ''modelId'']
      [(''prompt'', SString), (''modelId'', SString), (''n_predict'', SRange 1 512), (''stream'', SBoolean)])"
    by (simp add: op_generate_def)
  fix body g
  assume "checked_generation (hw_config w) body = Inr g"
  then obtain p i n where p: "checked_prompt body = Inr p" and i: "checked_model_id (hw_config w) body = Inr i"
      and n: "checked_n_predict body = Inr n"
    by (auto simp: checked_generation_def checked_iff json_object_def split: if_splits)
  have "field ''n_predict'' body = None \<or>
      (\<exists>x. field ''n_predict'' body = Some (JNum x) \<and> is_integer x \<and> 1 \<le> num_value x \<and> num_value x \<le> 512)"
    using n by (auto simp: checked_n_predict_def split: option.splits dest!: checked_counts)
  moreover obtain kvs where "body = JObj kvs" using checked_fields(5) [OF p] field_object by blast
  ultimately show "conforms (checked_part (SObject [''prompt'', ''modelId'']
      [(''prompt'', SString), (''modelId'', SString), (''n_predict'', SRange 1 512), (''stream'', SBoolean)])) body"
    using checked_fields(5) [OF p] checked_fields(6) [OF i] by auto
qed

lemma checked_messages_conform: "checked_messages ms = Inr rs \<Longrightarrow> list_all (conforms message_schema) ms"
proof (induction ms arbitrary: rs)
  case (Cons m ms)
  from Cons.prems obtain r c rs' where role: "role_of (field ''role'' m) = Some r"
      and content: "field ''content'' m = Some (JStr c)" and rest: "checked_messages ms = Inr rs'"
    by (auto simp: checked_iff split: if_splits option.splits json_value.splits)
  from role obtain s where s: "field ''role'' m = Some (JStr s)" "s \<in> {''system'', ''user'', ''assistant''}"
    by (cases "field ''role'' m" rule: role_of.cases) (auto split: if_splits)
  obtain kvs where "m = JObj kvs" using field_object [OF content] by blast
  with s content have "conforms message_schema m" by (auto simp: message_schema_def)
  with Cons.IH [OF rest] show ?case by simp
qed simp

lemma chat_accepts: "accepts_checked op_chat rq (fst (post_chat_completions w rq st))"
proof -
  let ?schema = "SObject [''model'', ''messages'']
      [(''model'', SString), (''messages'', SArray message_schema), (''max_tokens'', SNullable (SRange 1 512)),
       (''stream'', SBoolean), (''stream_options'', SObject [] [(''include_usage'', SBoolean)])]"
  have "conforms (checked_part ?schema) body" if "checked_chat w body = Inr q" for body q
  proof -
    from that obtain m ms n where m: "checked_chat_model w body = Inr m" and ms: "checked_message_list body = Inr ms"
        and n: "checked_max_tokens body = Inr n"
      by (auto simp: checked_chat_def checked_iff split: if_splits)
    have model: "\<exists>s. field ''model'' body = Some (JStr s)"
      using m by (auto simp: checked_chat_model_def Let_def split: option.splits json_value.splits if_splits)
    have messages: "\<exists>vs. field ''messages'' body = Some (JArr vs) \<and> list_all (conforms message_schema) vs"
      using ms by (auto simp: checked_message_list_def split: option.splits json_value.splits if_splits
          dest: checked_messages_conform)
    have tokens: "field ''max_tokens'' body = None \<or> field ''max_tokens'' body = Some JNull \<or>
        (\<exists>x. field ''max_tokens'' body = Some (JNum x) \<and> is_integer x \<and> 1 \<le> num_value x \<and> num_value x \<le> 512)"
    proof (cases "field ''max_tokens'' body")
      case (Some v)
      with n have "v = JNull \<or> token_count v \<noteq> None"
        by (cases v) (auto simp: checked_max_tokens_def split: option.splits)
      with Some show ?thesis by (auto dest: checked_counts)
    qed simp
    obtain kvs where "body = JObj kvs" using model field_object by blast
    with model messages tokens show ?thesis by auto
  qed
  moreover have "\<exists>body q. read_json_body (rq_body rq) = Inr body \<and> checked_chat w body = Inr q"
    if "rs_status (fst (post_chat_completions w rq st)) = 200"
    using that by (auto simp: post_chat_completions_def chat_checked_def Let_def chat_reply_def internal_error_def
        send_json_def split: sum.splits body_error.splits chat_error.splits)
  ultimately show ?thesis by (auto simp: accepts_checked_def op_chat_def simp del: checked_part.simps)
qed

text \<open>
  A model that cannot be printed is not the 400 the document promises for an unknown model: the
  conversion of an object whose \<open>toString\<close> is not a function throws, and the reply is a 500.
\<close>

lemma unprintable_model_is_500:
  "rs_status (fst (handle example_http (example_request ''POST'' ''/v1/chat/completions''
     [(''model'', JObj [(''toString'', JNum (Fin 1))])]) example_server)) = 500"
  by code_simp

subsection \<open>The routes of the document\<close>

text \<open>Paths, methods and the operations without a body, as rewrite rules.\<close>

lemma matches_iff:
  "matches (Lit s # ss) ps \<longleftrightarrow> (\<exists>qs. ps = s # qs \<and> matches ss qs)"
  "matches (Param # ss) ps \<longleftrightarrow> (\<exists>p qs. ps = p # qs \<and> matches ss qs)"
  by (cases ps; auto)+

lemma op_paths [document]:
  "op_path op_nodes_register = [Lit ''nodes'', Lit ''register'']" "op_method op_nodes_register = ''POST''"
  "op_path op_node_heartbeat = [Lit ''nodes'', Param, Lit ''heartbeat'']" "op_method op_node_heartbeat = ''POST''"
  "op_path op_agree = [Lit ''nodes'', Param, Lit ''reputation'', Lit ''agree'']" "op_method op_agree = ''POST''"
  "op_path op_disagree = [Lit ''nodes'', Param, Lit ''reputation'', Lit ''disagree'']" "op_method op_disagree = ''POST''"
  "op_path op_reputation = [Lit ''nodes'', Param, Lit ''reputation'']" "op_method op_reputation = ''GET''"
  "op_path op_nodes = [Lit ''nodes'']" "op_method op_nodes = ''GET''"
  "op_path op_locality = [Lit ''nodes'', Lit ''locality'']" "op_method op_locality = ''GET''"
  "op_path op_capacity = [Lit ''capacity'']" "op_method op_capacity = ''GET''"
  "op_path op_peers_register = [Lit ''peers'', Lit ''register'']" "op_method op_peers_register = ''POST''"
  "op_path op_peer_heartbeat = [Lit ''peers'', Param, Lit ''heartbeat'']" "op_method op_peer_heartbeat = ''POST''"
  "op_path op_peers = [Lit ''peers'']" "op_method op_peers = ''GET''"
  "op_path op_delete_peer = [Lit ''peers'', Param]" "op_method op_delete_peer = ''DELETE''"
  "op_path op_catalog = [Lit ''catalog'']" "op_method op_catalog = ''GET''"
  "op_path op_classify = [Lit ''classify'']" "op_method op_classify = ''POST''"
  "op_path op_generate = [Lit ''generate'']" "op_method op_generate = ''POST''"
  "op_path op_models = [Lit ''v1'', Lit ''models'']" "op_method op_models = ''GET''"
  "op_path op_chat = [Lit ''v1'', Lit ''chat'', Lit ''completions'']" "op_method op_chat = ''POST''"
  by (simp_all only: document_defs operation.select_convs)

lemma no_body_accepts: "op_request oper = None \<Longrightarrow> accepts_checked oper rq res"
  by (simp add: accepts_checked_def)

lemma listing_accepts:
  "accepts_checked op_node_heartbeat rq res" "accepts_checked op_agree rq res" "accepts_checked op_disagree rq res"
  "accepts_checked op_reputation rq res" "accepts_checked op_nodes rq res" "accepts_checked op_locality rq res"
  "accepts_checked op_capacity rq res" "accepts_checked op_peer_heartbeat rq res" "accepts_checked op_peers rq res"
  "accepts_checked op_delete_peer rq res" "accepts_checked op_catalog rq res" "accepts_checked op_models rq res"
  by (rule no_body_accepts, simp add: document_defs)+

lemmas routes_answered = get_nodes_answered get_peers_answered get_locality_answered get_capacity_answered
  get_models_answered get_reputation_answered post_reputation_answered identifier_routes_answered
  post_nodes_register_answered post_peers_register_answered post_classify_answered post_generate_answered

lemmas routes_accept = listing_accepts nodes_register_accepts peers_register_accepts classify_accepts generate_accepts
  chat_accepts

lemma dispatch_routes:
  "dispatch w rq ''POST'' [''nodes'', ''register''] st = post_nodes_register w rq st"
  "dispatch w rq ''POST'' [''nodes'', i, ''heartbeat''] st = post_node_heartbeat w i st"
  "dispatch w rq ''POST'' [''nodes'', i, ''reputation'', ''agree''] st = post_reputation w i ''agree'' st"
  "dispatch w rq ''POST'' [''nodes'', i, ''reputation'', ''disagree''] st = post_reputation w i ''disagree'' st"
  "dispatch w rq ''GET'' [''nodes'', i, ''reputation''] st = get_reputation w i st"
  "dispatch w rq ''GET'' [''nodes''] st = get_nodes w st"
  "dispatch w rq ''GET'' [''nodes'', ''locality''] st = get_nodes_locality w st"
  "dispatch w rq ''GET'' [''capacity''] st = get_capacity w st"
  "dispatch w rq ''POST'' [''peers'', ''register''] st = post_peers_register w rq st"
  "dispatch w rq ''POST'' [''peers'', i, ''heartbeat''] st = post_peer_heartbeat w i st"
  "dispatch w rq ''GET'' [''peers''] st = get_peers w st"
  "dispatch w rq ''DELETE'' [''peers'', i] st = delete_peer w i st"
  "dispatch w rq ''GET'' [''catalog''] st = get_catalog w st"
  "dispatch w rq ''POST'' [''classify''] st = post_classify w rq st"
  "dispatch w rq ''POST'' [''generate''] st = post_generate w rq st"
  "dispatch w rq ''GET'' [''v1'', ''models''] st = get_models w st"
  "dispatch w rq ''POST'' [''v1'', ''chat'', ''completions''] st = post_chat_completions w rq st"
  by (simp_all add: dispatch_def dispatch_fixed_def dispatch_ident_def)

lemma dispatch_kept:
  assumes "whole_thresholds (hw_config w)" and "whole_counts w"
    and oper: "oper \<in> set openapi_operations" and "matches (op_path oper) parts"
  shows "answered oper (fst (dispatch w rq (op_method oper) parts st)) \<and>
    accepts_checked oper rq (fst (dispatch w rq (op_method oper) parts st))"
proof -
  note this_w = get_catalog_answered [OF assms(1)] post_chat_answered [OF assms(2)]
  from oper assms(4) show ?thesis unfolding openapi_operations_def
    by (auto simp: op_paths matches_iff dispatch_routes routes_answered routes_accept this_w)
qed

subsection \<open>The two fields whose types are not checked\<close>

text \<open>
  What the code takes \<open>stream\<close> and \<open>stream_options\<close> for: it compares the one with \<open>true\<close>, and looks
  for an \<open>include_usage\<close> that is \<open>true\<close> in the other. Every other value counts as \<open>false\<close>.
\<close>

definition as_read_value :: "string \<Rightarrow> json \<Rightarrow> json" where
  "as_read_value k v =
     (if k = ''stream'' then JBool (v = JBool True)
      else if k = ''stream_options''
      then JObj [(''include_usage'', JBool (is_object v \<and> field ''include_usage'' v = Some (JBool True)))]
      else v)"

fun as_read :: "json \<Rightarrow> json" where
  "as_read (JObj kvs) = JObj (map (\<lambda>(k, v). (k, as_read_value k v)) kvs)"
| "as_read v = v"

definition accepts_documented :: "operation \<Rightarrow> request \<Rightarrow> response \<Rightarrow> bool" where
  "accepts_documented oper rq res \<longleftrightarrow>
     (case op_request oper of
        None \<Rightarrow> True
      | Some s \<Rightarrow> rs_status res = 200 \<longrightarrow> (\<exists>body. read_json_body (rq_body rq) = Inr body \<and> conforms s (as_read body)))"

lemma map_of_as_read: "map_of (map (\<lambda>(k, v). (k, as_read_value k v)) kvs) k = map_option (as_read_value k) (map_of kvs k)"
  by (induction kvs) auto

lemma field_as_read: "field k (as_read b) = map_option (as_read_value k) (field k b)"
  by (cases b) (simp_all add: map_of_as_read)

lemma is_object_as_read [simp]: "is_object (as_read b) = is_object b"
  by (cases b) simp_all

lemma other_field_as_read: "k \<noteq> ''stream'' \<Longrightarrow> k \<noteq> ''stream_options'' \<Longrightarrow> field k (as_read b) = field k b"
  by (cases "field k b") (simp_all add: field_as_read as_read_value_def)

definition options_schema :: schema where
  "options_schema = SObject [] [(''include_usage'', SBoolean)]"

lemma conforms_as_read:
  assumes "conforms (checked_part (SObject req props)) body"
    and "list_all (\<lambda>(k, s). (k = ''stream'' \<longrightarrow> s = SBoolean) \<and> (k = ''stream_options'' \<longrightarrow> s = options_schema)) props"
  shows "conforms (SObject req props) (as_read body)"
proof -
  from assms(1) obtain kvs where body: "body = JObj kvs" and req: "list_all (\<lambda>k. map_of kvs k \<noteq> None) req"
    and checked: "\<forall>(k, s) \<in> set props. k \<noteq> ''stream'' \<and> k \<noteq> ''stream_options'' \<longrightarrow>
      (case map_of kvs k of None \<Rightarrow> True | Some x \<Rightarrow> conforms s x)"
    by (cases body) (auto simp: list_all_iff)
  have "conforms s (as_read_value k x)" if "(k, s) \<in> set props" "map_of kvs k = Some x" for k s x
    using bspec [OF checked that(1)] bspec [OF assms(2) [unfolded list_all_iff] that(1)] that(2)
    by (cases "k = ''stream'' \<or> k = ''stream_options''") (auto simp: as_read_value_def options_schema_def)
  then show ?thesis using req by (auto simp: body map_of_as_read list_all_iff split: option.split)
qed

lemma accepts_as_read:
  assumes "oper \<in> set openapi_operations" and "accepts_checked oper rq res"
  shows "accepts_documented oper rq res"
proof (cases "op_request oper")
  case (Some s)
  have shape: "\<exists>req props. s = SObject req props \<and>
      list_all (\<lambda>(k, s). (k = ''stream'' \<longrightarrow> s = SBoolean) \<and> (k = ''stream_options'' \<longrightarrow> s = options_schema)) props"
    using assms(1) Some unfolding openapi_operations_def
    by (auto simp: document_defs options_schema_def)
  then show ?thesis
    using assms(2) Some conforms_as_read by (auto simp: accepts_checked_def accepts_documented_def simp del: checked_part.simps conforms.simps)
qed (simp add: accepts_documented_def)

subsection \<open>The server handles a body as it reads it\<close>

lemma checked_as_read [simp]:
  "checked_endpoint cfg (as_read b) = checked_endpoint cfg b" "checked_tier (as_read b) = checked_tier b"
  "checked_locality (as_read b) = checked_locality b" "checked_model cfg (as_read b) = checked_model cfg b"
  "checked_memory (as_read b) = checked_memory b" "checked_prompt (as_read b) = checked_prompt b"
  "checked_model_id cfg (as_read b) = checked_model_id cfg b" "checked_n_predict (as_read b) = checked_n_predict b"
  "checked_chat_model w (as_read b) = checked_chat_model w b" "checked_message_list (as_read b) = checked_message_list b"
  "checked_max_tokens (as_read b) = checked_max_tokens b"
  by (simp_all add: checked_endpoint_def checked_tier_def checked_locality_def checked_model_def checked_memory_def
      checked_prompt_def checked_model_id_def checked_n_predict_def checked_chat_model_def checked_message_list_def
      checked_max_tokens_def other_field_as_read)

lemma stream_as_read [simp]:
  "field ''stream'' (as_read b) = Some (JBool True) \<longleftrightarrow> field ''stream'' b = Some (JBool True)"
  by (auto simp: field_as_read as_read_value_def)

lemma bodies_as_read:
  "checked_node cfg (as_read b) = checked_node cfg b" "checked_peer cfg (as_read b) = checked_peer cfg b"
  "bind_checked (json_object (as_read b)) checked_prompt = bind_checked (json_object b) checked_prompt"
  "checked_generation cfg (as_read b) = checked_generation cfg b"
  by (cases "is_object b"; simp add: checked_node_def checked_peer_def checked_generation_def json_object_def)+

lemma chat_as_read: "checked_chat w (as_read b) = checked_chat w b"
proof -
  have "(case field ''stream_options'' (as_read b) of
      Some v \<Rightarrow> is_object v \<and> field ''include_usage'' v = Some (JBool True) | None \<Rightarrow> False) =
    (case field ''stream_options'' b of
      Some v \<Rightarrow> is_object v \<and> field ''include_usage'' v = Some (JBool True) | None \<Rightarrow> False)"
    by (simp add: field_as_read as_read_value_def split: option.split)
  then show ?thesis by (simp add: checked_chat_def)
qed

lemma routes_as_read:
  assumes "rq_body rq = JsonBody body"
  shows "post_nodes_register w (rq\<lparr>rq_body := JsonBody (as_read body)\<rparr>) st = post_nodes_register w rq st"
    and "post_peers_register w (rq\<lparr>rq_body := JsonBody (as_read body)\<rparr>) st = post_peers_register w rq st"
    and "post_classify w (rq\<lparr>rq_body := JsonBody (as_read body)\<rparr>) st = post_classify w rq st"
    and "post_generate w (rq\<lparr>rq_body := JsonBody (as_read body)\<rparr>) st = post_generate w rq st"
    and "post_chat_completions w (rq\<lparr>rq_body := JsonBody (as_read body)\<rparr>) st = post_chat_completions w rq st"
proof -
  have body: "read_json_body (rq_body (rq\<lparr>rq_body := JsonBody (as_read body)\<rparr>)) = Inr (as_read body)"
    "read_json_body (rq_body rq) = Inr body" using assms by simp_all
  show "post_nodes_register w (rq\<lparr>rq_body := JsonBody (as_read body)\<rparr>) st = post_nodes_register w rq st"
    "post_peers_register w (rq\<lparr>rq_body := JsonBody (as_read body)\<rparr>) st = post_peers_register w rq st"
    "post_classify w (rq\<lparr>rq_body := JsonBody (as_read body)\<rparr>) st = post_classify w rq st"
    "post_generate w (rq\<lparr>rq_body := JsonBody (as_read body)\<rparr>) st = post_generate w rq st"
    "post_chat_completions w (rq\<lparr>rq_body := JsonBody (as_read body)\<rparr>) st = post_chat_completions w rq st"
    unfolding post_nodes_register_def post_peers_register_def post_classify_def post_generate_def
      post_chat_completions_def with_body_def body chat_checked_def
    by (simp_all only: bodies_as_read chat_as_read sum.case Let_def)
qed

lemma dispatch_as_read:
  assumes "rq_body rq = JsonBody body" and oper: "oper \<in> set openapi_operations" and "matches (op_path oper) parts"
  shows "dispatch w (rq\<lparr>rq_body := JsonBody (as_read body)\<rparr>) (op_method oper) parts st = dispatch w rq (op_method oper) parts st"
  using oper assms(3) unfolding openapi_operations_def
  by (auto simp: op_paths matches_iff dispatch_routes routes_as_read [OF assms(1)])

lemma handle_dispatch:
  assumes "rq_method rq = Some m" and "rq_pathname rq = Some path"
  shows "handle w rq st =
    (if \<not> is_public_route m (path_parts path) \<and> \<not> is_authorized (rq_authorization rq) (hw_token w)
     then (send_unauthorized, [], st) else dispatch w rq m (path_parts path) st)"
  using assms by (simp add: handle_def Let_def)

subsection \<open>The document is kept, but for two types\<close>

text \<open>
  C8: The server keeps its API document, up to two types. The thresholds of the catalog being whole
  numbers, and the token counts that nodes report as well, every reply to a documented path and
  method has a status the document lists for it and a body of the schema given there, or it is a
  500, which the document lists nowhere, of a route that reads a body. A request answered 200 had a
  body that conforms to the documented schema once \<open>stream\<close> and \<open>stream_options\<close> are replaced by
  what the code takes them for; their types are not checked, and the server handles any request, to
  the reply, the calls and the state, as the one with these two replaced. So a \<open>stream\<close> that is no
  boolean, which the document forbids, is no error: it counts as false.
\<close>

theorem api_document_kept:
  assumes thresholds: "whole_thresholds (hw_config w)" and counts: "whole_counts w"
    and oper: "oper \<in> set openapi_operations"
    and call: "rq_method rq = Some (op_method oper)" "rq_pathname rq = Some path" "matches (op_path oper) (path_parts path)"
  shows "answered oper (fst (handle w rq st)) \<and> accepts_documented oper rq (fst (handle w rq st)) \<and>
    (rq_body rq = JsonBody body \<longrightarrow> handle w (rq\<lparr>rq_body := JsonBody (as_read body)\<rparr>) st = handle w rq st)"
proof (intro conjI impI)
  note unauthorized = every_operation_has_401 [OF oper, THEN documented_answered]
  note run = handle_dispatch [OF call(1,2)]
  show "answered oper (fst (handle w rq st))"
    using dispatch_kept [OF thresholds counts oper call(3)] unauthorized by (simp add: run)
  show "accepts_documented oper rq (fst (handle w rq st))"
    using dispatch_kept [OF thresholds counts oper call(3)] accepts_as_read [OF oper]
    by (auto simp: run accepts_documented_def send_unauthorized_def split: option.splits)
  show "handle w (rq\<lparr>rq_body := JsonBody (as_read body)\<rparr>) st = handle w rq st" if "rq_body rq = JsonBody body"
    using dispatch_as_read [OF that oper call(3)] call by (simp add: handle_dispatch)
qed

text \<open>A request whose \<open>stream\<close> is the string \<open>yes\<close>, handled as one that does not stream.\<close>

theorem api_document_kept_witness:
  "answered op_generate (fst (handle example_http (example_generate ''bad'') example_server)) \<and>
   handle example_http (example_request ''POST'' ''/generate''
       [(''prompt'', JStr ''hi''), (''modelId'', JStr ''m1''), (''stream'', JStr ''yes'')]) example_server =
     handle example_http (example_request ''POST'' ''/generate''
       [(''prompt'', JStr ''hi''), (''modelId'', JStr ''m1''), (''stream'', JBool False)]) example_server"
proof -
  let ?lax = "example_request ''POST'' ''/generate''
    [(''prompt'', JStr ''hi''), (''modelId'', JStr ''m1''), (''stream'', JStr ''yes'')]"
  have thresholds: "whole_thresholds (hw_config example_http)" by code_simp
  have counts: "whole_counts example_http"
    by (simp add: whole_counts_def example_http_def example_reply_def token_field_def)
  have oper: "op_generate \<in> set openapi_operations" by (simp add: openapi_operations_def)
  have call: "rq_method (example_generate ''bad'') = Some (op_method op_generate)"
    "rq_pathname (example_generate ''bad'') = Some ''/generate''"
    "matches (op_path op_generate) (path_parts ''/generate'')" by code_simp+
  have lax: "rq_method ?lax = Some (op_method op_generate)" "rq_pathname ?lax = Some ''/generate''" by code_simp+
  have "rq_body ?lax = JsonBody (JObj [(''prompt'', JStr ''hi''), (''modelId'', JStr ''m1''), (''stream'', JStr ''yes'')])"
    by (simp add: example_request_def)
  with api_document_kept [OF thresholds counts oper lax call(3)]
  have "handle example_http (?lax\<lparr>rq_body := JsonBody (as_read (JObj [(''prompt'', JStr ''hi''), (''modelId'', JStr ''m1''),
      (''stream'', JStr ''yes'')]))\<rparr>) example_server = handle example_http ?lax example_server" by blast
  moreover have "answered op_generate (fst (handle example_http (example_generate ''bad'') example_server))"
    using api_document_kept [OF thresholds counts oper call] by blast
  ultimately show ?thesis by (simp add: example_request_def as_read_value_def)
qed

end
