(* ===== verification/Swarm_Client.thy ===== *)
theory Swarm_Client
  imports Server
begin

text \<open>
  The client library, class \<open>SwarmClient\<close> of \<^verbatim>\<open>coordinator/src/client.ts\<close>: one function per method,
  from the answer of \<open>fetch\<close> to the value the method returns or the error it throws.
  \<open>fetch\<close> is an argument (it rejects where it has no answer). The streaming method is the third use
  of the shared reading loop and an interpretation of \<open>frame_reader\<close>. The properties compose the
  client with the server's handlers.
\<close>

record swarm_client =
  sc_baseUrl :: string
  sc_authToken :: string

record fetch_request =
  fr_method :: string
  fr_url :: string
  fr_authorization :: string
  fr_body :: "json option"

type_synonym fetch = "fetch_request \<Rightarrow> response option"

datatype 'a outcome = Throws string | Returns 'a

definition new_swarm_client :: "string \<Rightarrow> string \<Rightarrow> swarm_client" where
  "new_swarm_client baseUrl authToken = \<lparr>sc_baseUrl = strip_slash baseUrl, sc_authToken = authToken\<rparr>"

definition client_request :: "swarm_client \<Rightarrow> string \<Rightarrow> string \<Rightarrow> json option \<Rightarrow> fetch_request" where
  "client_request c m path body =
     \<lparr>fr_method = m, fr_url = sc_baseUrl c @ path, fr_authorization = bearer (sc_authToken c), fr_body = body\<rparr>"

text \<open>\<open>res.text()\<close>\<close>

fun payload_text :: "(number \<Rightarrow> string) \<Rightarrow> payload \<Rightarrow> string" where
  "payload_text show NoPayload = []"
| "payload_text show (JsonPayload v) = json_text show v"
| "payload_text show (FilePayload s) = s"
| "payload_text show (StreamPayload chunks) = concat chunks"

definition failed :: "(number \<Rightarrow> string) \<Rightarrow> string \<Rightarrow> response \<Rightarrow> 'a outcome" where
  "failed show name res =
     Throws (name @ '' failed: '' @ string_of_int (rs_status res) @ '' '' @ payload_text show (rs_payload res))"

text \<open>A call whose promise rejects makes the method throw.\<close>

definition on_answer :: "response option \<Rightarrow> (response \<Rightarrow> 'a outcome) \<Rightarrow> 'a outcome" where
  "on_answer answer k = (case answer of None \<Rightarrow> Throws ''fetch failed'' | Some res \<Rightarrow> k res)"

subsection \<open>The methods that answer found or not found\<close>

definition throw_if_unauthorized :: "(number \<Rightarrow> string) \<Rightarrow> string \<Rightarrow> response \<Rightarrow> 'a outcome \<Rightarrow> 'a outcome" where
  "throw_if_unauthorized show name res k =
     (if rs_status res = 401
      then Throws (name @ '' failed: 401 '' @ payload_text show (rs_payload res)) else k)"

definition boolean_call ::
  "(number \<Rightarrow> string) \<Rightarrow> fetch \<Rightarrow> swarm_client \<Rightarrow> string \<Rightarrow> string \<Rightarrow> string \<Rightarrow> bool outcome" where
  "boolean_call show fetch c name m path =
     on_answer (fetch (client_request c m path None)) (\<lambda>res.
       throw_if_unauthorized show name res (Returns (rs_status res = 204)))"

definition client_heartbeat :: "(number \<Rightarrow> string) \<Rightarrow> fetch \<Rightarrow> swarm_client \<Rightarrow> string \<Rightarrow> bool outcome" where
  "client_heartbeat show fetch c nid =
     boolean_call show fetch c ''heartbeat'' ''POST'' (''/nodes/'' @ nid @ ''/heartbeat'')"

definition client_record_agreement :: "(number \<Rightarrow> string) \<Rightarrow> fetch \<Rightarrow> swarm_client \<Rightarrow> string \<Rightarrow> bool outcome" where
  "client_record_agreement show fetch c nid =
     boolean_call show fetch c ''recordAgreement'' ''POST'' (''/nodes/'' @ nid @ ''/reputation/agree'')"

definition client_record_disagreement :: "(number \<Rightarrow> string) \<Rightarrow> fetch \<Rightarrow> swarm_client \<Rightarrow> string \<Rightarrow> bool outcome" where
  "client_record_disagreement show fetch c nid =
     boolean_call show fetch c ''recordDisagreement'' ''POST'' (''/nodes/'' @ nid @ ''/reputation/disagree'')"

definition client_peer_heartbeat :: "(number \<Rightarrow> string) \<Rightarrow> fetch \<Rightarrow> swarm_client \<Rightarrow> string \<Rightarrow> bool outcome" where
  "client_peer_heartbeat show fetch c pid =
     boolean_call show fetch c ''peerHeartbeat'' ''POST'' (''/peers/'' @ pid @ ''/heartbeat'')"

definition client_deregister_peer :: "(number \<Rightarrow> string) \<Rightarrow> fetch \<Rightarrow> swarm_client \<Rightarrow> string \<Rightarrow> bool outcome" where
  "client_deregister_peer show fetch c pid =
     boolean_call show fetch c ''deregisterPeer'' ''DELETE'' (''/peers/'' @ pid)"

subsection \<open>The methods that answer with data\<close>

text \<open>\<open>if (!res.ok) throw ...; return res.json()\<close>\<close>

definition json_reply :: "(number \<Rightarrow> string) \<Rightarrow> string \<Rightarrow> response \<Rightarrow> json outcome" where
  "json_reply show name res =
     (if \<not> status_ok (rs_status res) then failed show name res
      else (case rs_payload res of JsonPayload v \<Rightarrow> Returns v | _ \<Rightarrow> Throws ''invalid JSON''))"

text \<open>The property of a reply's body; \<open>undefined\<close> where it has none, an error where it is null.\<close>

fun member_of :: "string \<Rightarrow> json outcome \<Rightarrow> json option outcome" where
  "member_of k (Throws e) = Throws e"
| "member_of k (Returns v) =
     (case read_field k v of None \<Rightarrow> Throws ''cannot read properties of null'' | Some x \<Rightarrow> Returns x)"

definition client_register_node ::
  "(number \<Rightarrow> string) \<Rightarrow> fetch \<Rightarrow> swarm_client \<Rightarrow> string \<Rightarrow> device_tier \<Rightarrow> string option \<Rightarrow> string option \<Rightarrow> json option outcome" where
  "client_register_node show fetch c endpoint tier loc model =
     on_answer (fetch (client_request c ''POST'' ''/nodes/register''
         (Some (JObj ([(''endpoint'', JStr endpoint), (''deviceTier'', JStr (tier_text tier))] @
            optional_field ''localityGroup'' JStr loc @ optional_field ''servesModel'' JStr model)))))
       (\<lambda>res. member_of ''nodeId'' (json_reply show ''registerNode'' res))"

definition client_generate ::
  "(number \<Rightarrow> string) \<Rightarrow> fetch \<Rightarrow> swarm_client \<Rightarrow> string \<Rightarrow> string \<Rightarrow> number option \<Rightarrow> json outcome" where
  "client_generate show fetch c prompt modelId n =
     on_answer (fetch (client_request c ''POST'' ''/generate''
         (Some (JObj ([(''prompt'', JStr prompt), (''modelId'', JStr modelId)] @ optional_field ''n_predict'' JNum n)))))
       (json_reply show ''generate'')"

text \<open>\<open>null\<close> is \<open>None\<close>.\<close>

definition client_get_reputation :: "(number \<Rightarrow> string) \<Rightarrow> fetch \<Rightarrow> swarm_client \<Rightarrow> string \<Rightarrow> json option outcome" where
  "client_get_reputation show fetch c nid =
     on_answer (fetch (client_request c ''GET'' (''/nodes/'' @ nid @ ''/reputation'') None)) (\<lambda>res.
       if rs_status res = 404 then Returns None
       else (case json_reply show ''getReputation'' res of Throws e \<Rightarrow> Throws e | Returns v \<Rightarrow> Returns (Some v)))"

definition client_list_nodes :: "(number \<Rightarrow> string) \<Rightarrow> fetch \<Rightarrow> swarm_client \<Rightarrow> json outcome" where
  "client_list_nodes show fetch c =
     on_answer (fetch (client_request c ''GET'' ''/nodes'' None)) (json_reply show ''listNodes'')"

definition client_list_nodes_by_locality :: "(number \<Rightarrow> string) \<Rightarrow> fetch \<Rightarrow> swarm_client \<Rightarrow> json outcome" where
  "client_list_nodes_by_locality show fetch c =
     on_answer (fetch (client_request c ''GET'' ''/nodes/locality'' None)) (json_reply show ''listNodesByLocality'')"

definition client_get_capacity :: "(number \<Rightarrow> string) \<Rightarrow> fetch \<Rightarrow> swarm_client \<Rightarrow> json option outcome" where
  "client_get_capacity show fetch c =
     on_answer (fetch (client_request c ''GET'' ''/capacity'' None))
       (\<lambda>res. member_of ''activeNodes'' (json_reply show ''getCapacity'' res))"

definition client_register_peer :: "(number \<Rightarrow> string) \<Rightarrow> fetch \<Rightarrow> swarm_client \<Rightarrow> string \<Rightarrow> json option outcome" where
  "client_register_peer show fetch c endpoint =
     on_answer (fetch (client_request c ''POST'' ''/peers/register'' (Some (JObj [(''endpoint'', JStr endpoint)]))))
       (\<lambda>res. member_of ''peerId'' (json_reply show ''registerPeer'' res))"

definition client_list_peers :: "(number \<Rightarrow> string) \<Rightarrow> fetch \<Rightarrow> swarm_client \<Rightarrow> json outcome" where
  "client_list_peers show fetch c =
     on_answer (fetch (client_request c ''GET'' ''/peers'' None)) (json_reply show ''listPeers'')"

definition client_get_catalog :: "(number \<Rightarrow> string) \<Rightarrow> fetch \<Rightarrow> swarm_client \<Rightarrow> json outcome" where
  "client_get_catalog show fetch c =
     on_answer (fetch (client_request c ''GET'' ''/catalog'' None)) (json_reply show ''getCatalog'')"

definition client_classify :: "(number \<Rightarrow> string) \<Rightarrow> fetch \<Rightarrow> swarm_client \<Rightarrow> string \<Rightarrow> json outcome" where
  "client_classify show fetch c prompt =
     on_answer (fetch (client_request c ''POST'' ''/classify'' (Some (JObj [(''prompt'', JStr prompt)]))))
       (json_reply show ''classify'')"

subsection \<open>The streaming method\<close>

datatype client_end = Finished | LostConnection | ReadFailed | FailedMidStream string | BadErrorFrame

text \<open>The message of an error frame; parsing it, reading it and printing it may throw.\<close>

definition client_error :: "(number \<Rightarrow> string) \<Rightarrow> (string \<Rightarrow> json option) \<Rightarrow> string \<Rightarrow> client_end" where
  "client_error show parse frame =
     (case find (starts_with ''data: '') (split newline frame) of
        None \<Rightarrow> FailedMidStream ''generation failed mid-stream''
      | Some line \<Rightarrow>
          (case parse (drop 6 line) of
             None \<Rightarrow> BadErrorFrame
           | Some v \<Rightarrow>
               (case read_field ''error'' v of
                  None \<Rightarrow> BadErrorFrame
                | Some e \<Rightarrow> (case js_string_of show e of None \<Rightarrow> BadErrorFrame | Some m \<Rightarrow> FailedMidStream m))))"

definition on_client_frame ::
  "(number \<Rightarrow> string) \<Rightarrow> (string \<Rightarrow> json option) \<Rightarrow> string list \<Rightarrow> string \<Rightarrow> (string list, string list \<times> client_end) step" where
  "on_client_frame show parse texts frame =
     (if starts_with ''event: error'' frame then Stop (texts, client_error show parse frame)
      else if data_lines frame = [] then Continue texts
      else (let t = join newline (data_lines frame)
            in if t = ''[DONE]'' then Stop (texts, Finished) else Continue (texts @ [t])))"

fun client_finish :: "source_end \<Rightarrow> string list \<Rightarrow> string list \<times> client_end" where
  "client_finish Closed texts = (texts, LostConnection)"
| "client_finish Aborted texts = (texts, ReadFailed)"

definition client_read ::
  "(number \<Rightarrow> string) \<Rightarrow> (string \<Rightarrow> json option) \<Rightarrow> string list \<Rightarrow> source_end \<Rightarrow> string list \<times> client_end" where
  "client_read show parse chunks e = frame_loop (on_client_frame show parse) (client_finish e) [] [] chunks"

definition client_generate_stream ::
  "(number \<Rightarrow> string) \<Rightarrow> (string \<Rightarrow> json option) \<Rightarrow> source_end \<Rightarrow> fetch \<Rightarrow> swarm_client \<Rightarrow> string \<Rightarrow> string \<Rightarrow>
   number option \<Rightarrow> (string list \<times> client_end) outcome" where
  "client_generate_stream show parse e fetch c prompt modelId n =
     on_answer (fetch (client_request c ''POST'' ''/generate''
         (Some (JObj ([(''prompt'', JStr prompt), (''modelId'', JStr modelId)] @ optional_field ''n_predict'' JNum n @
            [(''stream'', JBool True)])))))
       (\<lambda>res. if \<not> status_ok (rs_status res) \<or> rs_payload res = NoPayload then failed show ''generateStream'' res
              else Returns (client_read show parse
                     (case rs_payload res of StreamPayload chunks \<Rightarrow> chunks | p \<Rightarrow> [payload_text show p]) e))"

definition client_terminal :: "string \<Rightarrow> bool" where
  "client_terminal x \<longleftrightarrow> starts_with ''event: error'' x \<or> data_lines x \<noteq> [] \<and> join newline (data_lines x) = ''[DONE]''"

lemma client_error_not_lost: "client_error show parse x \<noteq> LostConnection"
  by (simp add: client_error_def split: option.split)

interpretation client_reader: frame_reader "on_client_frame show parse" "client_finish Closed" "\<lambda>_. True" client_terminal
  "\<lambda>r. snd r = LostConnection" for "show" parse
proof unfold_locales
  fix s :: "string list" and x
  assume "\<not> client_terminal x"
  then show "\<exists>s'. on_client_frame show parse s x = Continue s' \<and> True"
    by (auto simp: client_terminal_def on_client_frame_def Let_def)
next
  fix s :: "string list" and x
  assume "client_terminal x \<or> \<not> True"
  then show "case on_client_frame show parse s x of Continue s' \<Rightarrow> \<not> True | Stop r \<Rightarrow> \<not> snd r = LostConnection"
    by (auto simp: client_terminal_def on_client_frame_def Let_def client_error_not_lost)
next
  fix s :: "string list"
  show "snd (client_finish Closed s) = LostConnection \<longleftrightarrow> True" by simp
qed

lemma client_read_lost_iff:
  "snd (client_read show parse chunks Closed) = LostConnection \<longleftrightarrow>
   \<not> list_ex client_terminal (whole_frames (concat chunks))"
  using client_reader.truncated_iff [of "show" parse "[]" chunks] by (simp add: client_read_def)

lemma client_reads_texts:
  assumes "list_all plain_frame fs" and "list_all (\<lambda>f. frame_event f = None) fs"
  shows "react_all (on_client_frame show parse) fin out (whole_frames (concat (map frame_text fs) @ s)) =
    react_all (on_client_frame show parse) fin (out @ map frame_data fs) (whole_frames s)"
  using assms
proof (induction fs arbitrary: out)
  case Nil
  then show ?case by simp
next
  case (Cons f fs)
  then have plain: "plain_frame f" and not_done: "frame_data f \<noteq> ''[DONE]''" by (simp_all add: plain_frame_def)
  have event: "frame_event f = None" using Cons.prems by simp
  have "on_client_frame show parse out (join newline (frame_lines f)) = Continue (out @ [frame_data f])"
    using text_frame_read [OF plain event] not_done by (simp add: on_client_frame_def)
  with Cons show ?case by (simp add: whole_frames_text [OF plain] react_all_def)
qed

text \<open>
  C18: A client sees the node's text. When \<open>POST /generate\<close> relays a node's stream of text frames closed
  by \<open>[DONE]\<close>, \<open>generateStream\<close> yields exactly the node's pieces of text, in order, and finishes,
  however the bytes are cut. When the stream is closed after some of the frames, or in the midst of
  one, with no terminal frame, it yields the pieces of the whole frames and then throws the error of
  a lost connection.
\<close>

theorem client_sees_the_nodes_text:
  assumes plain: "list_all plain_frame fs" and pieces: "list_all (\<lambda>f. frame_event f = None) fs"
    and stream: "nr_status r = 200" "nr_contentType r = Some ''text/event-stream''" "nr_stream r = Some (chunks, completed)"
    and sent: "concat chunks = concat (map frame_text fs) @ done_text @ rest"
    and broken: "nr_stream r' = Some (chunks', completed')" "nr_status r' = 200" "nr_contentType r' = Some ''text/event-stream''"
      "concat chunks' = concat (map frame_text fs) @ part" "split blank_line part = [part]"
  shows "fst (forward_stream g n (NodeReplied r) st) = event_stream chunks \<and>
    client_read show parse chunks e = (map frame_data fs, Finished) \<and>
    fst (forward_stream g n (NodeReplied r') st) = event_stream chunks' \<and>
    client_read show parse chunks' Closed = (map frame_data fs, LostConnection)"
proof -
  have ct: "starts_with ''text/event-stream'' (to_lower ''text/event-stream'')" by code_simp
  have "client_read show parse chunks e = react_all (on_client_frame show parse) (client_finish e) [] (whole_frames (concat (map frame_text fs) @ done_text @ rest))"
    using sent by (simp add: client_read_def frame_loop_start del: frame_loop.simps)
  moreover have "on_client_frame show parse out ''data: [DONE]'' = Stop (out, Finished)" for out
  proof -
    have "data_lines ''data: [DONE]'' = [''[DONE]'']" by code_simp
    then show ?thesis by (simp add: on_client_frame_def)
  qed
  ultimately have "client_read show parse chunks e = (map frame_data fs, Finished)"
    unfolding client_reads_texts [OF plain pieces] whole_frames_done by (simp add: react_all_def)
  moreover have "client_read show parse chunks' Closed =
      react_all (on_client_frame show parse) (client_finish Closed) [] (whole_frames (concat (map frame_text fs) @ part))"
    using broken(4) by (simp add: client_read_def frame_loop_start del: frame_loop.simps)
  then have "client_read show parse chunks' Closed = (map frame_data fs, LostConnection)"
    unfolding client_reads_texts [OF plain pieces]
    using broken(5) by (simp add: react_all_def whole_frames_def del: split.simps)
  ultimately show ?thesis using stream broken(1-3) ct by (simp add: forward_stream_def status_ok_def)
qed

theorem client_sees_the_nodes_text_witness:
  "client_read (\<lambda>_. ''0'') (\<lambda>_. None) [''data: He'', ''llo'' @ blank_line @ ''data: !'' @ blank_line @ ''data: [DONE]'' @ blank_line] Closed =
     ([''Hello'', ''!''], Finished)"
proof -
  let ?fs = "[\<lparr>frame_event = None, frame_data = ''Hello''\<rparr>, \<lparr>frame_event = None, frame_data = ''!''\<rparr>]"
  let ?chunks = "[''data: He'', ''llo'' @ blank_line @ ''data: !'' @ blank_line @ ''data: [DONE]'' @ blank_line]"
  let ?cut = "[''data: He'', ''llo'' @ blank_line @ ''data: !'' @ blank_line @ ''dat'']"
  let ?r = "\<lambda>cs. \<lparr>nr_status = 200, nr_contentType = Some ''text/event-stream'', nr_json = None, nr_stream = Some (cs, True)\<rparr>"
  have plain: "list_all plain_frame ?fs" and pieces: "list_all (\<lambda>f. frame_event f = None) ?fs" by code_simp+
  have stream: "nr_status (?r cs) = 200" "nr_contentType (?r cs) = Some ''text/event-stream''"
      "nr_stream (?r cs) = Some (cs, True)" for cs by simp_all
  have sent: "concat ?chunks = concat (map frame_text ?fs) @ done_text @ []"
    and broken: "concat ?cut = concat (map frame_text ?fs) @ ''dat''" "split blank_line ''dat'' = [''dat'']" by code_simp+
  from client_sees_the_nodes_text [OF plain pieces stream sent stream(3,1,2) broken]
  show ?thesis by simp
qed

subsection \<open>The client against the server\<close>

text \<open>
  The answer of the server to a call of the client, for a base URL without a path: the request
  that arrives has the path after the base URL and the header as it was sent.
\<close>

definition delivered :: "string \<Rightarrow> fetch_request \<Rightarrow> request" where
  "delivered base fr =
     \<lparr>rq_method = Some (fr_method fr), rq_pathname = Some (drop (length base) (fr_url fr)),
      rq_authorization = Some (fr_authorization fr),
      rq_body = (case fr_body fr of None \<Rightarrow> EmptyBody | Some v \<Rightarrow> JsonBody v)\<rparr>"

definition server_fetch :: "http_world \<Rightarrow> server_state \<Rightarrow> string \<Rightarrow> fetch" where
  "server_fetch w st base fr = Some (fst (handle w (delivered base fr) st))"

text \<open>A path made of parts that are not empty and hold no slash.\<close>

definition plain_part :: "string \<Rightarrow> bool" where
  "plain_part p \<longleftrightarrow> p \<noteq> [] \<and> CHR ''/'' \<notin> set p"

lemma split_slash: "split ''/'' (CHR ''/'' # s) = [] # split ''/'' s"
  by simp

lemma path_parts_plain:
  "list_all plain_part ps \<Longrightarrow> path_parts (concat (map ((#) (CHR ''/'')) ps)) = ps"
proof (induction ps)
  case Nil
  then show ?case by (simp add: path_parts_def)
next
  case (Cons p ps)
  let ?rest = "concat (map ((#) (CHR ''/'')) ps)"
  from Cons.prems have p: "CHR ''/'' \<notin> set p" "p \<noteq> []" by (simp_all add: plain_part_def)
  have IH: "filter (\<lambda>p. p \<noteq> []) (split ''/'' ?rest) = ps"
    using Cons by (simp add: path_parts_def)
  have "filter (\<lambda>p. p \<noteq> []) (split ''/'' (p @ ?rest)) = p # ps"
  proof (cases ps)
    case Nil
    with p show ?thesis by (simp add: split_one del: split.simps)
  next
    case (Cons q qs)
    then have rest: "?rest = ''/'' @ q @ concat (map ((#) (CHR ''/'')) qs)" by simp
    have "split ''/'' (p @ ?rest) = p # split ''/'' (q @ concat (map ((#) (CHR ''/'')) qs))"
      unfolding rest by (rule split_piece) (use p in auto)
    moreover have "split ''/'' ?rest = [] # split ''/'' (q @ concat (map ((#) (CHR ''/'')) qs))"
      unfolding rest by (simp add: split_slash del: split.simps)
    ultimately show ?thesis using IH p by simp
  qed
  then show ?case by (simp add: path_parts_def split_slash del: split.simps)
qed

text \<open>
  A heartbeat's answer means what it says. Against the coordinator, \<open>heartbeat(nodeId)\<close> returns true
  exactly if the node's entry is still within its timeout and false if it is unknown or lapsed; a
  client with a wrong token gets an exception, never the answer that the node is unknown.
\<close>

theorem client_heartbeat_truthful:
  assumes "plain_part nid"
  shows "client_heartbeat show (server_fetch w st (sc_baseUrl c)) c nid =
    (if sc_authToken c = hw_token w
     then Returns (within_timeout (node_timeoutMs (co_nodes (sv_co st))) (hw_clock w 0) (node_seen (co_nodes (sv_co st)) nid))
     else Throws (''heartbeat failed: 401 '' @ json_text show (error_json ''missing or invalid Authorization header'')))"
proof -
  let ?path = "''/nodes/'' @ nid @ ''/heartbeat''"
  let ?fr = "client_request c ''POST'' ?path None"
  let ?rq = "delivered (sc_baseUrl c) ?fr"
  have parts: "path_parts ?path = [''nodes'', nid, ''heartbeat'']"
    using path_parts_plain [of "[''nodes'', nid, ''heartbeat'']"] assms by (simp add: plain_part_def)
  have rq: "rq_method ?rq = Some ''POST''" "rq_pathname ?rq = Some ?path"
      "rq_authorization ?rq = Some (bearer (sc_authToken c))"
    by (simp_all add: delivered_def client_request_def)
  have bearer_inj: "bearer a = bearer b \<longleftrightarrow> a = b" for a b by (simp add: bearer_def)
  have guarded: "\<not> is_public_route ''POST'' (path_parts ?path)" by (simp add: is_public_route_def)
  show ?thesis
  proof (cases "sc_authToken c = hw_token w")
    case True
    have "fst (handle w ?rq st) = found_reply (fst (node_heartbeat nid (hw_clock w 0) (co_nodes (sv_co st))))"
      using rq parts True by (simp add: handle_def is_authorized_iff dispatch_def dispatch_fixed_def dispatch_ident_def
          post_node_heartbeat_def case_prod_beta)
    with True show ?thesis
      by (simp add: client_heartbeat_def boolean_call_def on_answer_def server_fetch_def throw_if_unauthorized_def
          noderegistry.beat_reply)
  next
    case False
    then have "handle w ?rq st = (send_unauthorized, [], st)"
      using rq guarded by (simp add: handle_def is_authorized_iff bearer_inj)
    with False show ?thesis
      by (simp add: client_heartbeat_def boolean_call_def on_answer_def server_fetch_def throw_if_unauthorized_def
          send_unauthorized_def)
  qed
qed

theorem client_heartbeat_truthful_witness:
  "client_heartbeat (\<lambda>_. ''0'') (server_fetch example_http example_server ''http://s'')
     (new_swarm_client ''http://s/'' ''secret'') ''gone'' = Returns False"
proof -
  have part: "plain_part ''gone''" by (simp add: plain_part_def)
  have base: "sc_baseUrl (new_swarm_client ''http://s/'' ''secret'') = ''http://s''" by code_simp
  have "\<not> within_timeout (node_timeoutMs (co_nodes (sv_co example_server))) (hw_clock example_http 0)
      (node_seen (co_nodes (sv_co example_server)) ''gone'')"
    by code_simp
  with client_heartbeat_truthful [OF part, of "\<lambda>_. ''0''" example_http example_server "new_swarm_client ''http://s/'' ''secret''"]
  show ?thesis by (simp add: base) (simp add: new_swarm_client_def example_http_def)
qed

end
