(* ===== verification/Dashboard.thy ===== *)
theory Dashboard
  imports Swarm_Client Safety_Classifier
begin

text \<open>
  The dashboard in the browser, \<^verbatim>\<open>coordinator/public/app.js\<close>: the status poll, the model selector,
  the chat with its streamed replies and the classify demo, as changes of one record that holds the
  script's variables and what the page shows. A row of the chat is the class and the text of
  its element; \<open>Thinking\<close> is the placeholder element with its text.

  The reply is read by a loop of its own: an error frame does not leave the loop at once but after
  the frames of its chunk, so \<open>dashboard_loop\<close> is not an instance of \<open>frame_loop\<close>; the lemma
  \<open>dashboard_loop_react\<close> says when it behaves like one. While a reply is awaited the input and both
  buttons are disabled, so no other part of the script touches the chat: a message is one function
  from the answer of \<open>fetch\<close>. The dash in two of the messages is written as a hyphen. Values that the
  coordinator never sends are simplified in three places: a catalog that is a JSON string counts as
  not iterable, \<open>categories\<close> that is an object with a \<open>length\<close> as positive in it, and an \<open>error\<close> that
  cannot be converted to a string throws when it is read, not when it is shown.
\<close>

datatype speaker = SpeakerUser | SpeakerAssistant
datatype chat_status = Blocked | Errored

record chat_entry =
  ce_role :: speaker
  ce_text :: string
  ce_status :: "chat_status option"

datatype chat_row = MessageRow string string | Thinking string

record dashboard =
  db_token :: "string option"
  db_tokenStatus :: string
  db_activeCount :: string
  db_table :: "(string \<times> string \<times> string) list"
  chatCatalog :: json
  chatHistory :: "chat_entry list"
  chatModelLocked :: bool
  db_options :: "(string \<times> string) list"
  db_selected :: string
  db_selectDisabled :: bool
  db_chatDisabled :: bool
  db_rows :: "chat_row list"
  db_chatInput :: string
  db_promptInput :: string
  db_classifyResult :: string

definition CHAT_HISTORY_WINDOW :: nat where "CHAT_HISTORY_WINDOW = 6"
definition CHAT_N_PREDICT :: int where "CHAT_N_PREDICT = 256"

definition get_token :: "dashboard \<Rightarrow> string" where
  "get_token d = (case db_token d of None \<Rightarrow> [] | Some t \<Rightarrow> t)"

definition authed_fetch :: "dashboard \<Rightarrow> string \<Rightarrow> string \<Rightarrow> json option \<Rightarrow> fetch_request" where
  "authed_fetch d m url body =
     \<lparr>fr_method = m, fr_url = url, fr_authorization = bearer (get_token d), fr_body = body\<rparr>"

definition bad_token_text :: string where
  "bad_token_text = ''Invalid or missing token - paste a valid SWARM_AUTH_TOKEN above.''"

definition response_json :: "response \<Rightarrow> json option" where
  "response_json res = (case rs_payload res of JsonPayload v \<Rightarrow> Some v | _ \<Rightarrow> None)"

subsection \<open>Values as the page shows them\<close>

fun truthy :: "json option \<Rightarrow> bool" where
  "truthy (Some (JBool b)) = b"
| "truthy (Some (JNum n)) = (n \<noteq> NaN \<and> n \<noteq> Fin 0)"
| "truthy (Some (JStr s)) = (s \<noteq> [])"
| "truthy (Some (JArr _)) = True"
| "truthy (Some (JObj _)) = True"
| "truthy _ = False"

text \<open>The value assigned to \<open>textContent\<close>, where null and \<open>undefined\<close> give the empty text.\<close>

fun shown_text :: "(number \<Rightarrow> string) \<Rightarrow> json option \<Rightarrow> string option" where
  "shown_text show None = Some []"
| "shown_text show (Some JNull) = Some []"
| "shown_text show (Some v) = js_string show v"

text \<open>The categories of a verdict, joined, or a word for none; nothing where the code throws.\<close>

definition category_text :: "(number \<Rightarrow> string) \<Rightarrow> string \<Rightarrow> json \<Rightarrow> string option" where
  "category_text show none body =
     (case field ''categories'' body of
        None \<Rightarrow> None
      | Some JNull \<Rightarrow> None
      | Some (JArr vs) \<Rightarrow>
          if vs = [] then Some none
          else map_option (join '', '') (those (map (\<lambda>v. if v = JNull then Some [] else js_string show v) vs))
      | Some (JStr s) \<Rightarrow> if s = [] then Some none else None
      | Some (JObj kvs) \<Rightarrow> if ''length'' \<in> fst ` set kvs then None else Some none
      | Some _ \<Rightarrow> Some none)"

text \<open>A \<open>for\<close> loop whose body may throw: the state so far, and whether the loop came to its end.\<close>

fun for_each :: "('a \<Rightarrow> 's \<Rightarrow> 's option) \<Rightarrow> 'a list \<Rightarrow> 's \<Rightarrow> 's \<times> bool" where
  "for_each f [] s = (s, True)"
| "for_each f (x # xs) s = (case f x s of None \<Rightarrow> (s, False) | Some s' \<Rightarrow> for_each f xs s')"

subsection \<open>The model selector and the status poll\<close>

definition add_option :: "(number \<Rightarrow> string) \<Rightarrow> json \<Rightarrow> dashboard \<Rightarrow> dashboard option" where
  "add_option show entry d =
     (if entry = JNull then None
      else
        (case (js_string_of show (field ''id'' entry),
               if truthy (field ''available'' entry) then shown_text show (field ''displayName'' entry)
               else map_option (\<lambda>s. s @ '' (unavailable)'') (js_string_of show (field ''displayName'' entry))) of
           (Some value, Some text) \<Rightarrow>
             Some (d\<lparr>db_options := db_options d @ [(value, text)],
                     db_selected := (if db_options d = [] then value else db_selected d)\<rparr>)
         | _ \<Rightarrow> None))"

definition populate_model_select :: "(number \<Rightarrow> string) \<Rightarrow> dashboard \<Rightarrow> dashboard \<times> bool" where
  "populate_model_select show d =
     (if chatModelLocked d then (d, True)
      else
        (case chatCatalog d of
           JArr entries \<Rightarrow>
             (case for_each (add_option show) entries (d\<lparr>db_options := [], db_selected := []\<rparr>) of
                (d', False) \<Rightarrow> (d', False)
              | (d', True) \<Rightarrow>
                  (if list_ex (\<lambda>e. field ''id'' e = Some (JStr (db_selected d))) entries
                   then d'\<lparr>db_selected := db_selected d\<rparr> else d', True))
         | _ \<Rightarrow> (d\<lparr>db_options := [], db_selected := []\<rparr>, False)))"

definition add_table_row :: "(number \<Rightarrow> string) \<Rightarrow> json \<Rightarrow> dashboard \<Rightarrow> dashboard option" where
  "add_table_row show entry d =
     (if entry = JNull then None
      else
        (case (shown_text show (field ''displayName'' entry), js_string_of show (field ''minActiveNodes'' entry)) of
           (Some name, Some minimum) \<Rightarrow>
             Some (d\<lparr>db_table := db_table d @
                      [(name, minimum, if truthy (field ''available'' entry) then ''yes'' else ''no'')]\<rparr>)
         | _ \<Rightarrow> None))"

text \<open>The effects after both replies have been read, and whether they came to their end.\<close>

definition show_status :: "(number \<Rightarrow> string) \<Rightarrow> json \<Rightarrow> json \<Rightarrow> dashboard \<Rightarrow> dashboard \<times> bool" where
  "show_status show capacity catalog d =
     (case (case read_field ''activeNodes'' capacity of None \<Rightarrow> None | Some v \<Rightarrow> js_string_of show v) of
        None \<Rightarrow> (d, False)
      | Some active \<Rightarrow>
          (case populate_model_select show (d\<lparr>db_activeCount := active, chatCatalog := catalog\<rparr>) of
             (d', False) \<Rightarrow> (d', False)
           | (d', True) \<Rightarrow>
               (case catalog of
                  JArr entries \<Rightarrow> for_each (add_table_row show) entries (d'\<lparr>db_table := []\<rparr>)
                | _ \<Rightarrow> (d'\<lparr>db_table := []\<rparr>, False))))"

definition refresh_status ::
  "(number \<Rightarrow> string) \<Rightarrow> response option \<Rightarrow> response option \<Rightarrow> dashboard \<Rightarrow> dashboard" where
  "refresh_status show capacityRes catalogRes d =
     (case (capacityRes, catalogRes) of
        (Some a, Some b) \<Rightarrow>
          if rs_status a = 401 \<or> rs_status b = 401
          then d\<lparr>db_activeCount := ''token required'', db_table := [], db_tokenStatus := bad_token_text\<rparr>
          else (case (response_json a, response_json b) of
                  (Some capacity, Some catalog) \<Rightarrow>
                    (case show_status show capacity catalog d of
                       (d', True) \<Rightarrow> d'
                     | (d', False) \<Rightarrow> d'\<lparr>db_activeCount := ''unavailable''\<rparr>)
                | _ \<Rightarrow> d\<lparr>db_activeCount := ''unavailable''\<rparr>)
      | _ \<Rightarrow> d\<lparr>db_activeCount := ''unavailable''\<rparr>)"

subsection \<open>The chat\<close>

fun speaker_label :: "speaker \<Rightarrow> string" where
  "speaker_label SpeakerUser = ''User''"
| "speaker_label SpeakerAssistant = ''Assistant''"

text \<open>\<open>xs.slice(-n)\<close>\<close>

definition last_n :: "nat \<Rightarrow> 'a list \<Rightarrow> 'a list" where
  "last_n n xs = drop (length xs - n) xs"

definition prior_turns :: "chat_entry list \<Rightarrow> chat_entry list" where
  "prior_turns h = last_n CHAT_HISTORY_WINDOW (filter (\<lambda>m. ce_status m = None) h)"

definition turn_line :: "chat_entry \<Rightarrow> string" where
  "turn_line m = speaker_label (ce_role m) @ '': '' @ ce_text m"

definition build_chat_prompt :: "chat_entry list \<Rightarrow> string \<Rightarrow> string" where
  "build_chat_prompt h newMessage =
     (let transcript = join newline (map turn_line (prior_turns h))
      in (if transcript \<noteq> [] then transcript @ newline else []) @
         ''User: '' @ newMessage @ newline @ ''Assistant:'')"

fun speaker_class :: "speaker \<Rightarrow> string" where
  "speaker_class SpeakerUser = ''user''"
| "speaker_class SpeakerAssistant = ''assistant''"

fun status_class :: "chat_status option \<Rightarrow> string" where
  "status_class None = []"
| "status_class (Some Blocked) = '' chat-blocked''"
| "status_class (Some Errored) = '' chat-error''"

definition entry_row :: "chat_entry \<Rightarrow> chat_row" where
  "entry_row m = MessageRow (''chat-message chat-'' @ speaker_class (ce_role m) @ status_class (ce_status m)) (ce_text m)"

definition render_chat_history :: "dashboard \<Rightarrow> dashboard" where
  "render_chat_history d = d\<lparr>db_rows := map entry_row (chatHistory d)\<rparr>"

fun append_text :: "string \<Rightarrow> chat_row \<Rightarrow> chat_row" where
  "append_text piece (MessageRow c t) = MessageRow c (t @ piece)"
| "append_text piece (Thinking t) = Thinking (t @ piece)"

definition append_to_last_chat_message :: "string \<Rightarrow> chat_row list \<Rightarrow> chat_row list" where
  "append_to_last_chat_message piece rows =
     (if rows = [] then [] else butlast rows @ [append_text piece (last rows)])"

fun is_thinking :: "chat_row \<Rightarrow> bool" where
  "is_thinking (Thinking _) = True"
| "is_thinking (MessageRow _ _) = False"

definition set_chat_busy :: "bool \<Rightarrow> dashboard \<Rightarrow> dashboard" where
  "set_chat_busy busy d =
     (let locked = chatModelLocked d \<or> busy
      in d\<lparr>db_chatDisabled := busy, chatModelLocked := locked, db_selectDisabled := busy \<or> locked,
           db_rows := (if busy then (if list_ex is_thinking (db_rows d) then db_rows d else db_rows d @ [Thinking ''Thinking...''])
                       else filter (\<lambda>r. \<not> is_thinking r) (db_rows d))\<rparr>)"

definition push_entry :: "speaker \<Rightarrow> string \<Rightarrow> chat_status option \<Rightarrow> dashboard \<Rightarrow> dashboard" where
  "push_entry r t s d = d\<lparr>chatHistory := chatHistory d @ [\<lparr>ce_role = r, ce_text = t, ce_status = s\<rparr>]\<rparr>"

text \<open>Up to the call of \<open>fetch\<close>: nothing for an empty message, else the body of the request.\<close>

definition send_begin :: "dashboard \<Rightarrow> (json \<times> dashboard) option" where
  "send_begin d =
     (let text = trim (db_chatInput d)
      in if text = [] then None
         else
           (let prompt = build_chat_prompt (chatHistory d) text;
                d1 = set_chat_busy True
                       ((render_chat_history (push_entry SpeakerUser text None d))\<lparr>db_chatInput := []\<rparr>)
            in Some (JObj [(''prompt'', JStr prompt), (''modelId'', JStr (db_selected d1)),
                           (''n_predict'', JNum (Fin (of_int CHAT_N_PREDICT))), (''stream'', JBool True)], d1)))"

text \<open>A reply other than 200: the entry for it, or nothing where the code throws.\<close>

definition rejection_entry :: "(number \<Rightarrow> string) \<Rightarrow> response \<Rightarrow> (string \<times> chat_status) option" where
  "rejection_entry show res =
     (case response_json res of
        None \<Rightarrow> None
      | Some body \<Rightarrow>
          if rs_status res = 400 \<and> body = JNull then None
          else if rs_status res = 400 \<and> field ''safe'' body = Some (JBool False)
          then map_option (\<lambda>c. (''Blocked by safety filter ('' @ c @ '').'', Blocked)) (category_text show ''unspecified'' body)
          else if rs_status res = 401 then Some (bad_token_text, Errored)
          else (case read_field ''error'' body of
                  None \<Rightarrow> None
                | Some e \<Rightarrow>
                    if e = None \<or> e = Some JNull
                    then Some (''Request failed ('' @ string_of_int (rs_status res) @ '').'', Errored)
                    else map_option (\<lambda>t. (t, Errored)) (js_string_of show e)))"

subsection \<open>The streamed reply\<close>

text \<open>The message under construction, whether it is in the history yet, \<open>sawDone\<close>, and the rows shown.\<close>

record chat_stream =
  cs_text :: string
  cs_status :: "chat_status option"
  cs_added :: bool
  cs_sawDone :: bool
  cs_rows :: "chat_row list"

datatype loop_exit = LeftLoop | Threw

text \<open>The message is in the history by reference, so the history changes with it.\<close>

definition history_with :: "chat_entry list \<Rightarrow> chat_stream \<Rightarrow> chat_entry list" where
  "history_with h s =
     h @ (if cs_added s then [\<lparr>ce_role = SpeakerAssistant, ce_text = cs_text s, ce_status = cs_status s\<rparr>] else [])"

definition rendered :: "chat_entry list \<Rightarrow> chat_stream \<Rightarrow> chat_stream" where
  "rendered h s = s\<lparr>cs_rows := map entry_row (history_with h s)\<rparr>"

definition is_error_frame :: "string \<Rightarrow> bool" where
  "is_error_frame frame = starts_with ''event: error'' frame"

text \<open>The value in the template of the error message; nothing where reading it throws.\<close>

definition error_value :: "(string \<Rightarrow> json option) \<Rightarrow> string \<Rightarrow> json option option" where
  "error_value parse frame =
     (case find (starts_with ''data: '') (split newline frame) of
        None \<Rightarrow> Some (Some (JStr ''generation failed mid-stream''))
      | Some line \<Rightarrow> (case parse (drop 6 line) of None \<Rightarrow> None | Some v \<Rightarrow> read_field ''error'' v))"

definition on_error_frame ::
  "(number \<Rightarrow> string) \<Rightarrow> (string \<Rightarrow> json option) \<Rightarrow> chat_entry list \<Rightarrow> chat_stream \<Rightarrow> string \<Rightarrow>
   (chat_stream, chat_stream \<times> loop_exit) step" where
  "on_error_frame show parse h s frame =
     (case error_value parse frame of
        None \<Rightarrow> Stop (s, Threw)
      | Some v \<Rightarrow>
          (let s1 = s\<lparr>cs_added := True, cs_status := Some Errored\<rparr>
           in case js_string_of show v of
                None \<Rightarrow> Stop (s1, Threw)
              | Some m \<Rightarrow>
                  Continue ((rendered h (s1\<lparr>cs_text := cs_text s @
                      (if cs_text s \<noteq> [] then '' [error: '' @ m @ '']'' else ''Error: '' @ m)\<rparr>))\<lparr>cs_sawDone := True\<rparr>)))"

definition on_piece :: "chat_entry list \<Rightarrow> chat_stream \<Rightarrow> string \<Rightarrow> chat_stream" where
  "on_piece h s piece =
     (let s1 = s\<lparr>cs_text := cs_text s @ piece\<rparr>
      in if \<not> cs_added s then rendered h (s1\<lparr>cs_added := True\<rparr>)
         else s1\<lparr>cs_rows := append_to_last_chat_message piece (cs_rows s)\<rparr>)"

definition on_chat_frame ::
  "(number \<Rightarrow> string) \<Rightarrow> (string \<Rightarrow> json option) \<Rightarrow> chat_entry list \<Rightarrow> chat_stream \<Rightarrow> string \<Rightarrow>
   (chat_stream, chat_stream \<times> loop_exit) step" where
  "on_chat_frame show parse h s frame =
     (if is_error_frame frame then on_error_frame show parse h s frame
      else if data_lines frame = [] then Continue s
      else (let piece = join newline (data_lines frame)
            in if piece = ''[DONE]'' then Stop (s\<lparr>cs_sawDone := True\<rparr>, LeftLoop) else Continue (on_piece h s piece)))"

text \<open>Where the stream ends, a read that rejects throws.\<close>

fun stream_over :: "source_end \<Rightarrow> chat_stream \<Rightarrow> chat_stream \<times> loop_exit" where
  "stream_over Closed s = (s, LeftLoop)"
| "stream_over Aborted s = (s, Threw)"

fun dashboard_loop ::
  "(chat_stream \<Rightarrow> string \<Rightarrow> (chat_stream, chat_stream \<times> loop_exit) step) \<Rightarrow> source_end \<Rightarrow> chat_stream \<Rightarrow> string \<Rightarrow>
   string list \<Rightarrow> chat_stream \<times> loop_exit" where
  "dashboard_loop f e s buffer [] = stream_over e s"
| "dashboard_loop f e s buffer (chunk # chunks) =
     (let frames = split blank_line (buffer @ chunk)
      in case run_frames f s (butlast frames) of
           Stop r \<Rightarrow> r
         | Continue s' \<Rightarrow> if cs_sawDone s' then (s', LeftLoop) else dashboard_loop f e s' (last frames) chunks)"

text \<open>What follows the loop, and the \<open>catch\<close> around it.\<close>

definition after_loop :: "chat_entry list \<Rightarrow> chat_stream \<times> loop_exit \<Rightarrow> chat_entry list" where
  "after_loop h r =
     (let s = fst r
      in case snd r of
           LeftLoop \<Rightarrow>
             if \<not> cs_sawDone s then
               if cs_added s
               then history_with h (s\<lparr>cs_status := Some Errored,
                      cs_text := cs_text s @ '' [truncated: connection lost before the reply finished]''\<rparr>)
               else h @ [\<lparr>ce_role = SpeakerAssistant, ce_text = ''Connection lost before any output arrived.'',
                          ce_status = Some Errored\<rparr>]
             else if \<not> cs_added s
             then h @ [\<lparr>ce_role = SpeakerAssistant, ce_text = ''(no output)'', ce_status = None\<rparr>]
             else history_with h s
         | Threw \<Rightarrow>
             if \<not> cs_added s
             then h @ [\<lparr>ce_role = SpeakerAssistant, ce_text = ''Network error reaching the coordinator.'',
                        ce_status = Some Errored\<rparr>]
             else history_with h s)"

definition read_reply ::
  "(number \<Rightarrow> string) \<Rightarrow> (string \<Rightarrow> json option) \<Rightarrow> source_end \<Rightarrow> string list \<Rightarrow> dashboard \<Rightarrow> chat_stream \<times> loop_exit" where
  "read_reply show parse e chunks d =
     dashboard_loop (on_chat_frame show parse (chatHistory d)) e
       \<lparr>cs_text = [], cs_status = None, cs_added = False, cs_sawDone = False, cs_rows = db_rows d\<rparr> [] chunks"

definition send_finish ::
  "(number \<Rightarrow> string) \<Rightarrow> (string \<Rightarrow> json option) \<Rightarrow> source_end \<Rightarrow> response option \<Rightarrow> dashboard \<Rightarrow> dashboard" where
  "send_finish show parse e answer d =
     (let network = push_entry SpeakerAssistant ''Network error reaching the coordinator.'' (Some Errored) d
      in render_chat_history (set_chat_busy False
           (case answer of
              None \<Rightarrow> network
            | Some res \<Rightarrow>
                if rs_status res \<noteq> 200
                then (case rejection_entry show res of
                        None \<Rightarrow> network
                      | Some (t, s) \<Rightarrow> push_entry SpeakerAssistant t (Some s) d)
                else (let r = read_reply show parse e
                                (case rs_payload res of StreamPayload chunks \<Rightarrow> chunks | p \<Rightarrow> [payload_text show p]) d
                      in d\<lparr>chatHistory := after_loop (chatHistory d) r, db_rows := cs_rows (fst r)\<rparr>))))"

definition send_chat_message ::
  "(number \<Rightarrow> string) \<Rightarrow> (string \<Rightarrow> json option) \<Rightarrow> source_end \<Rightarrow> fetch \<Rightarrow> dashboard \<Rightarrow> dashboard" where
  "send_chat_message show parse e fetch d =
     (case send_begin d of
        None \<Rightarrow> d
      | Some (body, d1) \<Rightarrow> send_finish show parse e (fetch (authed_fetch d1 ''POST'' ''/generate'' (Some body))) d1)"

subsection \<open>The other buttons\<close>

definition reset_chat :: "(number \<Rightarrow> string) \<Rightarrow> dashboard \<Rightarrow> dashboard" where
  "reset_chat show d =
     (case populate_model_select show (render_chat_history (d\<lparr>chatHistory := [], chatModelLocked := False\<rparr>)) of
        (d', False) \<Rightarrow> d'
      | (d', True) \<Rightarrow> set_chat_busy False d')"

definition classify_prompt :: "(number \<Rightarrow> string) \<Rightarrow> fetch \<Rightarrow> dashboard \<Rightarrow> dashboard" where
  "classify_prompt show fetch d =
     (let failed = ''Error checking prompt.''
      in d\<lparr>db_classifyResult :=
        (case fetch (authed_fetch d ''POST'' ''/classify'' (Some (JObj [(''prompt'', JStr (db_promptInput d))]))) of
           None \<Rightarrow> failed
         | Some res \<Rightarrow>
             if rs_status res = 401 then bad_token_text
             else (case response_json res of
                     None \<Rightarrow> failed
                   | Some body \<Rightarrow>
                       if body = JNull then failed
                       else if truthy (field ''safe'' body) then ''safe: true''
                       else (case category_text show ''none'' body of
                               None \<Rightarrow> failed
                             | Some c \<Rightarrow> ''safe: false (categories: '' @ c @ '')'')))\<rparr>)"

definition save_token :: "string \<Rightarrow> dashboard \<Rightarrow> dashboard" where
  "save_token input d = d\<lparr>db_token := Some input, db_tokenStatus := ''Token saved for this tab.''\<rparr>"

end
