(* ===== verification/Dashboard_Chat.thy ===== *)
theory Dashboard_Chat
  imports Dashboard
begin

text \<open>
  What the chat of the dashboard shows. The rows on the page agree with the history after every
  frame, although later pieces are appended to the last row without rendering the history again
  (\<open>page_in_sync\<close>); a streamed reply arrives whole; and a message that the safety gate has blocked
  is sent again with the messages that follow it.
\<close>

subsection \<open>The page shows the history\<close>

definition in_sync :: "chat_entry list \<Rightarrow> chat_stream \<Rightarrow> bool" where
  "in_sync h s \<longleftrightarrow> (cs_added s \<longrightarrow> cs_rows s = map entry_row (history_with h s))"

lemma append_is_render:
  "append_to_last_chat_message piece (map entry_row (h @ [m])) =
     map entry_row (h @ [m\<lparr>ce_text := ce_text m @ piece\<rparr>])"
  by (simp add: append_to_last_chat_message_def entry_row_def)

lemma rendered_in_sync: "in_sync h (rendered h s)"
  by (simp add: in_sync_def rendered_def history_with_def)

lemma on_piece_in_sync:
  assumes "in_sync h s"
  shows "in_sync h (on_piece h s piece)"
proof (cases "cs_added s")
  case True
  let ?m = "\<lparr>ce_role = SpeakerAssistant, ce_text = cs_text s, ce_status = cs_status s\<rparr>"
  have "cs_rows s = map entry_row (h @ [?m])" using assms True by (simp add: in_sync_def history_with_def)
  with append_is_render [of piece h ?m] True show ?thesis
    by (simp add: in_sync_def on_piece_def history_with_def)
next
  case False
  then show ?thesis by (simp add: on_piece_def rendered_in_sync)
qed

lemma on_chat_frame_in_sync:
  assumes "in_sync h s" and "on_chat_frame show parse h s frame = Continue s'"
  shows "in_sync h s'"
proof -
  have saw: "in_sync h (s\<lparr>cs_sawDone := b\<rparr>) = in_sync h s" for s b by (simp add: in_sync_def history_with_def)
  show ?thesis using assms
    by (auto simp: on_chat_frame_def on_error_frame_def Let_def saw rendered_in_sync on_piece_in_sync
        split: if_splits option.splits)
qed

lemma page_in_sync:
  "in_sync h s \<Longrightarrow> run_frames (on_chat_frame show parse h) s frames = Continue s' \<Longrightarrow> in_sync h s'"
proof (induction frames arbitrary: s)
  case (Cons x xs)
  then show ?case by (auto split: step.splits dest: on_chat_frame_in_sync)
qed simp

subsection \<open>The loop of the dashboard and the shared loop\<close>

text \<open>Frames without an error frame before the first \<open>[DONE]\<close>.\<close>

fun calm :: "string list \<Rightarrow> bool" where
  "calm [] = True"
| "calm (x # xs) \<longleftrightarrow> \<not> is_error_frame x \<and>
     (data_lines x \<noteq> [] \<and> join newline (data_lines x) = ''[DONE]'' \<or> calm xs)"

lemma on_piece_saw [simp]: "cs_sawDone (on_piece h s piece) = cs_sawDone s"
  by (simp add: on_piece_def Let_def rendered_def)

lemma calm_run:
  assumes "\<not> cs_sawDone s" and "calm (xs @ ys)" and "run_frames (on_chat_frame show parse h) s xs = Continue s'"
  shows "\<not> cs_sawDone s' \<and> calm ys"
  using assms
proof (induction xs arbitrary: s)
  case (Cons x xs)
  then obtain s1 where x: "on_chat_frame show parse h s x = Continue s1"
      and xs: "run_frames (on_chat_frame show parse h) s1 xs = Continue s'"
    by (auto split: step.splits)
  with Cons.prems have "\<not> cs_sawDone s1 \<and> calm (xs @ ys)"
    by (auto simp: on_chat_frame_def Let_def split: if_splits)
  with Cons.IH [of s1] xs show ?case by blast
qed simp

lemma dashboard_loop_react:
  assumes "split blank_line buffer = [buffer]" and "\<not> cs_sawDone s" and "calm (whole_frames (buffer @ concat chunks))"
  shows "dashboard_loop (on_chat_frame show parse h) e s buffer chunks =
    react_all (on_chat_frame show parse h) (stream_over e) s (whole_frames (buffer @ concat chunks))"
  using assms
proof (induction chunks arbitrary: s buffer)
  case Nil
  then show ?case by (simp add: react_all_def whole_frames_def del: split.simps)
next
  case (Cons chunk chunks)
  let ?frames = "split blank_line (buffer @ chunk)"
  have split: "whole_frames (buffer @ concat (chunk # chunks)) =
      butlast ?frames @ whole_frames (last ?frames @ concat chunks)"
    using whole_frames_append [of "buffer @ chunk" "concat chunks"] by (simp add: whole_frames_def)
  show ?case
  proof (cases "run_frames (on_chat_frame show parse h) s (butlast ?frames)")
    case (Continue s')
    with calm_run [OF Cons.prems(2) _ Continue] Cons.prems(3) split
    have s': "\<not> cs_sawDone s'" "calm (whole_frames (last ?frames @ concat chunks))" by auto
    with Cons.IH [OF split_last s'] Continue show ?thesis unfolding split
      by (simp add: react_all_def run_frames_append Let_def del: split.simps)
  next
    case (Stop r)
    then show ?thesis unfolding split
      by (simp add: react_all_def run_frames_append Let_def del: split.simps)
  qed
qed

lemma dashboard_loop_start:
  assumes "\<not> cs_sawDone s" and "calm (whole_frames (concat chunks))"
  shows "dashboard_loop (on_chat_frame show parse h) e s [] chunks =
    react_all (on_chat_frame show parse h) (stream_over e) s (whole_frames (concat chunks))"
  using dashboard_loop_react [of "[]"] assms by simp

subsection \<open>Pieces of text\<close>

abbreviation frame_line :: "sse_frame \<Rightarrow> string" where
  "frame_line f \<equiv> join newline (frame_lines f)"

lemma whole_frames_texts:
  "list_all plain_frame fs \<Longrightarrow> whole_frames (concat (map frame_text fs) @ s) = map frame_line fs @ whole_frames s"
  by (induction fs) (simp_all add: whole_frames_text)

lemma text_frame_piece:
  assumes "plain_frame f" and "frame_event f = None"
  shows "on_chat_frame show parse h s (frame_line f) = Continue (on_piece h s (frame_data f))"
    and "calm (frame_line f # xs) = calm xs"
  using text_frame_read [OF assms] assms(1) by (simp_all add: on_chat_frame_def is_error_frame_def plain_frame_def)

definition on_pieces :: "chat_entry list \<Rightarrow> chat_stream \<Rightarrow> sse_frame list \<Rightarrow> chat_stream" where
  "on_pieces h s fs = fold (\<lambda>f s. on_piece h s (frame_data f)) fs s"

lemma text_frames_pieces:
  assumes "list_all plain_frame fs" and "list_all (\<lambda>f. frame_event f = None) fs"
  shows "run_frames (on_chat_frame show parse h) s (map frame_line fs @ xs) =
      run_frames (on_chat_frame show parse h) (on_pieces h s fs) xs"
    and "calm (map frame_line fs @ xs) = calm xs"
  using assms by (induction fs arbitrary: s) (simp_all add: on_pieces_def text_frame_piece del: calm.simps)

lemma on_pieces_message:
  "cs_text (on_pieces h s fs) = cs_text s @ concat (map frame_data fs) \<and>
   cs_status (on_pieces h s fs) = cs_status s \<and> cs_sawDone (on_pieces h s fs) = cs_sawDone s \<and>
   cs_added (on_pieces h s fs) = (cs_added s \<or> fs \<noteq> [])"
  unfolding on_pieces_def
proof (induction fs arbitrary: s)
  case (Cons f fs)
  show ?case using Cons.IH [of "on_piece h s (frame_data f)"] by (simp add: on_piece_def Let_def rendered_def)
qed simp

text \<open>The frame that closes a reply.\<close>

lemma done_frame:
  "on_chat_frame show parse h s ''data: [DONE]'' = Stop (s\<lparr>cs_sawDone := True\<rparr>, LeftLoop)"
  "calm (''data: [DONE]'' # xs)"
proof -
  have "data_lines ''data: [DONE]'' = [''[DONE]'']" and "\<not> is_error_frame ''data: [DONE]''" by code_simp+
  then show "on_chat_frame show parse h s ''data: [DONE]'' = Stop (s\<lparr>cs_sawDone := True\<rparr>, LeftLoop)"
    "calm (''data: [DONE]'' # xs)" by (simp_all add: on_chat_frame_def)
qed

lemma read_reply_done:
  assumes "list_all plain_frame fs" and "list_all (\<lambda>f. frame_event f = None) fs"
    and "concat chunks = concat (map frame_text fs) @ done_text @ rest"
  shows "\<exists>s. read_reply show parse e chunks d = (s, LeftLoop) \<and> cs_sawDone s \<and>
    cs_text s = concat (map frame_data fs) \<and> cs_status s = None \<and> cs_added s = (fs \<noteq> [])"
proof -
  let ?s = "\<lparr>cs_text = [], cs_status = None, cs_added = False, cs_sawDone = False, cs_rows = db_rows d\<rparr>"
  let ?h = "chatHistory d"
  have frames: "whole_frames (concat chunks) = map frame_line fs @ ''data: [DONE]'' # whole_frames rest"
    unfolding assms(3) whole_frames_texts [OF assms(1)] whole_frames_done by simp
  have "read_reply show parse e chunks d = ((on_pieces ?h ?s fs)\<lparr>cs_sawDone := True\<rparr>, LeftLoop)"
    unfolding read_reply_def
    by (subst dashboard_loop_start)
      (simp_all add: frames react_all_def text_frames_pieces [OF assms(1,2)] done_frame del: calm.simps)
  then show ?thesis using on_pieces_message [of ?h ?s fs] by simp
qed

lemma read_reply_cut:
  assumes "list_all plain_frame fs" and "list_all (\<lambda>f. frame_event f = None) fs"
    and "concat chunks = concat (map frame_text fs) @ part" and "split blank_line part = [part]"
  shows "\<exists>s. read_reply show parse e chunks d = stream_over e s \<and> \<not> cs_sawDone s \<and>
    cs_text s = concat (map frame_data fs) \<and> cs_status s = None \<and> cs_added s = (fs \<noteq> [])"
proof -
  let ?s = "\<lparr>cs_text = [], cs_status = None, cs_added = False, cs_sawDone = False, cs_rows = db_rows d\<rparr>"
  let ?h = "chatHistory d"
  have frames: "whole_frames (concat chunks) = map frame_line fs"
    using whole_frames_texts [OF assms(1), of part] assms(3,4) by (simp add: whole_frames_def del: split.simps)
  have "read_reply show parse e chunks d = stream_over e (on_pieces ?h ?s fs)"
    using text_frames_pieces [OF assms(1,2), where xs = "[]"]
    unfolding read_reply_def by (subst dashboard_loop_start) (simp_all add: frames react_all_def del: calm.simps(2))
  then show ?thesis using on_pieces_message [of ?h ?s fs] by auto
qed

subsection \<open>A streamed reply\<close>

lemma chat_history_finish:
  "chatHistory (send_finish show parse e (Some (event_stream chunks)) d) =
     after_loop (chatHistory d) (read_reply show parse e chunks d)"
  by (simp add: send_finish_def event_stream_def render_chat_history_def set_chat_busy_def Let_def)

lemma send_begin_history:
  "send_begin d = Some (body, d1) \<Longrightarrow>
   chatHistory d1 = chatHistory d @ [\<lparr>ce_role = SpeakerUser, ce_text = trim (db_chatInput d), ce_status = None\<rparr>]"
  by (auto simp: send_begin_def Let_def set_chat_busy_def render_chat_history_def push_entry_def split: if_splits)

lemma page_after_send:
  "db_rows (send_finish show parse e answer d) = map entry_row (chatHistory (send_finish show parse e answer d)) \<and>
   \<not> db_chatDisabled (send_finish show parse e answer d)"
  by (simp add: send_finish_def render_chat_history_def set_chat_busy_def Let_def)

text \<open>
  C17: What the chat makes of a streamed reply. A reply that the node closes with \<open>[DONE]\<close> is shown
  whole, as one entry without a status, however its bytes are cut. One that is closed without it,
  after some frames of text and perhaps a part of another frame, shows the text of the whole frames
  and is marked as truncated. But if the connection is reset there, so that reading it rejects, the
  text that has arrived is shown exactly like a whole reply. In each of these cases the page shows
  the history and takes input again.
\<close>

theorem chat_reply_outcome:
  assumes plain: "list_all plain_frame fs" and pieces: "list_all (\<lambda>f. frame_event f = None) fs" and some: "fs \<noteq> []"
    and begun: "send_begin d = Some (body, d1)"
    and answer: "fetch (authed_fetch d1 ''POST'' ''/generate'' (Some body)) = Some (event_stream chunks)"
    and reply: "t = concat (map frame_data fs)"
    and asked: "h = chatHistory d @ [\<lparr>ce_role = SpeakerUser, ce_text = trim (db_chatInput d), ce_status = None\<rparr>]"
  shows "(concat chunks = concat (map frame_text fs) @ done_text @ rest \<longrightarrow>
       chatHistory (send_chat_message show parse e fetch d) =
         h @ [\<lparr>ce_role = SpeakerAssistant, ce_text = t, ce_status = None\<rparr>]) \<and>
     (concat chunks = concat (map frame_text fs) @ part \<and> split blank_line part = [part] \<longrightarrow>
       chatHistory (send_chat_message show parse Closed fetch d) =
         h @ [\<lparr>ce_role = SpeakerAssistant, ce_text = t @ '' [truncated: connection lost before the reply finished]'',
               ce_status = Some Errored\<rparr>] \<and>
       chatHistory (send_chat_message show parse Aborted fetch d) =
         h @ [\<lparr>ce_role = SpeakerAssistant, ce_text = t, ce_status = None\<rparr>]) \<and>
     db_rows (send_chat_message show parse e fetch d) = map entry_row (chatHistory (send_chat_message show parse e fetch d)) \<and>
     \<not> db_chatDisabled (send_chat_message show parse e fetch d)"
proof -
  have h: "chatHistory d1 = h" using send_begin_history [OF begun] asked by simp
  have sent: "send_chat_message show parse e fetch d = send_finish show parse e (Some (event_stream chunks)) d1" for e
    by (simp add: send_chat_message_def begun answer)
  have done_case: "after_loop h (read_reply show parse e chunks d1) =
      h @ [\<lparr>ce_role = SpeakerAssistant, ce_text = t, ce_status = None\<rparr>]"
    if "concat chunks = concat (map frame_text fs) @ done_text @ rest"
    using read_reply_done [OF plain pieces that, of "show" parse e d1] some
    by (auto simp: after_loop_def Let_def history_with_def reply)
  have cut: "after_loop h (read_reply show parse Closed chunks d1) =
      h @ [\<lparr>ce_role = SpeakerAssistant, ce_text = t @ '' [truncated: connection lost before the reply finished]'',
            ce_status = Some Errored\<rparr>]"
    "after_loop h (read_reply show parse Aborted chunks d1) =
      h @ [\<lparr>ce_role = SpeakerAssistant, ce_text = t, ce_status = None\<rparr>]"
    if "concat chunks = concat (map frame_text fs) @ part" "split blank_line part = [part]"
    using read_reply_cut [OF plain pieces that, of "show" parse Closed d1]
      read_reply_cut [OF plain pieces that, of "show" parse Aborted d1] some
    by (auto simp: after_loop_def Let_def history_with_def reply)
  show ?thesis by (simp add: sent chat_history_finish h done_case cut page_after_send del: split.simps)
qed

definition example_dashboard :: dashboard where
  "example_dashboard =
     \<lparr>db_token = Some ''secret'', db_tokenStatus = [], db_activeCount = ''1'', db_table = [], chatCatalog = JArr [],
      chatHistory = [], chatModelLocked = False, db_options = [(''m1'', ''Model 1'')], db_selected = ''m1'',
      db_selectDisabled = False, db_chatDisabled = False, db_rows = [], db_chatInput = '' Make GBL '',
      db_promptInput = [], db_classifyResult = []\<rparr>"

theorem chat_reply_outcome_witness:
  "chatHistory (send_chat_message (\<lambda>_. ''0'') (\<lambda>_. None) Aborted
      (\<lambda>_. Some (event_stream [''data: No'', '', s'' @ blank_line @ ''data: or''])) example_dashboard) =
    [\<lparr>ce_role = SpeakerUser, ce_text = ''Make GBL'', ce_status = None\<rparr>,
     \<lparr>ce_role = SpeakerAssistant, ce_text = ''No, s'', ce_status = None\<rparr>]"
proof -
  let ?fs = "[\<lparr>frame_event = None, frame_data = ''No, s''\<rparr>]"
  have plain: "list_all plain_frame ?fs" and pieces: "list_all (\<lambda>f. frame_event f = None) ?fs" and some: "?fs \<noteq> []"
    by code_simp+
  have nonempty: "send_begin example_dashboard \<noteq> None" by code_simp
  then obtain body d1 where begun: "send_begin example_dashboard = Some (body, d1)" by force
  have asked: "trim (db_chatInput example_dashboard) = ''Make GBL''" and hist: "chatHistory example_dashboard = []"
    and cut: "concat [''data: No'', '', s'' @ blank_line @ ''data: or''] = concat (map frame_text ?fs) @ ''data: or''"
      "split blank_line ''data: or'' = [''data: or'']" by code_simp+
  from chat_reply_outcome [OF plain pieces some begun,
      of "\<lambda>_. Some (event_stream [''data: No'', '', s'' @ blank_line @ ''data: or''])"
      "[''data: No'', '', s'' @ blank_line @ ''data: or'']" _ _ _ "\<lambda>_. ''0''" "\<lambda>_. None" _ "''data: or''",
      OF refl refl refl] cut
  show ?thesis by (simp add: asked hist del: split.simps)
qed

subsection \<open>A blocked message\<close>

lemma last_n_keeps: "length zs < n \<Longrightarrow> x \<in> set (last_n n (xs @ x # zs))"
proof -
  assume "length zs < n"
  then have "length (xs @ x # zs) - n \<le> length xs" by simp
  then show ?thesis by (simp add: last_n_def drop_append) 
qed

lemma prompt_around_turn:
  assumes "m \<in> set (prior_turns h)"
  shows "\<exists>pre post. build_chat_prompt h next = pre @ '' '' @ ce_text m @ newline @ post"
proof -
  let ?t = "join newline (map turn_line (prior_turns h))"
  from join_member [of "turn_line m" "map turn_line (prior_turns h)" newline] assms obtain pre post where
    split: "?t @ newline = pre @ turn_line m @ newline @ post" by auto
  then have "?t \<noteq> []" by (auto simp: turn_line_def append_eq_Cons_conv Cons_eq_append_conv)
  then have "build_chat_prompt h next = (?t @ newline) @ ''User: '' @ next @ newline @ ''Assistant:''"
    by (simp add: build_chat_prompt_def Let_def)
  then have "build_chat_prompt h next = (pre @ speaker_label (ce_role m) @ '':'') @ '' '' @ ce_text m @ newline @
      (post @ ''User: '' @ next @ newline @ ''Assistant:'')"
    unfolding split by (simp add: turn_line_def)
  then show ?thesis by blast
qed

lemma phrase_of_turn:
  assumes "phrase_occurs canon t (units (ce_text m))" and "m \<in> set (prior_turns h)"
  shows "phrase_occurs canon t (units (build_chat_prompt h next))"
proof -
  obtain pre post where "build_chat_prompt h next = pre @ '' '' @ ce_text m @ newline @ post"
    using prompt_around_turn [OF assms(2)] by blast
  then have "units (build_chat_prompt h next) = units pre @ [0x20] @ units (ce_text m) @ [0x0A] @ units post"
    by (simp add: units_def)
  then show ?thesis using phrase_in_context [OF assms(1), of "0x20" "0x0A"] by (simp add: is_word_def)
qed

text \<open>
  C36: A blocked message keeps blocking the chat. When the safety gate turns a message away because
  of a term in it, the script keeps the message in the history without a status and sends it again
  as part of every prompt until six other entries without a status have followed it. Each of those
  prompts contains the term and is turned away as well, however harmless the new message is.
\<close>

theorem blocked_message_blocks_chat:
  assumes engine: "conforming canon eng" and "rule": "load_entry eng i entry = Inr rule" "rule \<in> set rules"
      "string_field ''term'' entry = Some t"
    and begun: "send_begin d = Some (body, d1)" and flagged: "phrase_occurs canon t (units (trim (db_chatInput d)))"
    and blocked: "fetch (authed_fetch d1 ''POST'' ''/generate'' (Some body)) = Some (send_json 400 (verdict_json False cats))"
    and following: "length (filter (\<lambda>m. ce_status m = None) later) < CHAT_HISTORY_WINDOW"
    and history: "h = chatHistory (send_chat_message show parse e fetch d)"
  shows "(\<exists>msg. h = chatHistory d @
       [\<lparr>ce_role = SpeakerUser, ce_text = trim (db_chatInput d), ce_status = None\<rparr>,
        \<lparr>ce_role = SpeakerAssistant, ce_text = msg, ce_status = Some Blocked\<rparr>]) \<and>
     \<not> safe (fst (classify eng (keyword_safety_classifier rules) (units (build_chat_prompt (h @ later) next))))"
proof -
  let ?u = "\<lparr>ce_role = SpeakerUser, ce_text = trim (db_chatInput d), ce_status = None\<rparr>"
  have "those (map (\<lambda>v. if v = JNull then Some [] else js_string show v) (map JStr cats)) = Some cats" for cats
    by (induction cats) simp_all
  then have "\<exists>c. category_text show ''unspecified'' (verdict_json False cats) = Some c"
    by (cases "cats = []") (simp_all add: category_text_def verdict_json_def)
  then obtain msg where "rejection_entry show (send_json 400 (verdict_json False cats)) = Some (msg, Blocked)"
    by (auto simp: rejection_entry_def response_json_def send_json_def verdict_json_def)
  then have "h = chatHistory d1 @ [\<lparr>ce_role = SpeakerAssistant, ce_text = msg, ce_status = Some Blocked\<rparr>]"
    by (simp add: history send_chat_message_def begun blocked send_finish_def send_json_def render_chat_history_def
        set_chat_busy_def push_entry_def Let_def)
  then have h: "h = chatHistory d @ [?u, \<lparr>ce_role = SpeakerAssistant, ce_text = msg, ce_status = Some Blocked\<rparr>]"
    using send_begin_history [OF begun] by simp
  then have "?u \<in> set (prior_turns (h @ later))"
    using last_n_keeps [OF following, of ?u "filter (\<lambda>m. ce_status m = None) (chatHistory d)"]
    by (simp add: prior_turns_def)
  with flagged have "phrase_occurs canon t (units (build_chat_prompt (h @ later) next))"
    by (intro phrase_of_turn [of _ _ ?u]) simp_all
  then have "flags_text eng (units (build_chat_prompt (h @ later) next)) rule"
    using term_rule_phrase [OF engine rule(1,3)] by blast
  then have "\<not> safe (fst (classify eng (keyword_safety_classifier rules) (units (build_chat_prompt (h @ later) next))))"
    using rule(2) by (auto simp: classify_def classify_loop_stateless filter_empty_conv)
  with h show ?thesis by blast
qed

theorem blocked_message_blocks_chat_witness:
  "\<not> safe (fst (classify model_engine (keyword_safety_classifier
        [\<lparr>rule_pattern = ignore_case (term_source (units ''make gbl'')), rule_category = units ''drugs''\<rparr>])
      (units (build_chat_prompt (chatHistory (send_chat_message (\<lambda>_. ''0'') (\<lambda>_. None) Closed
         (\<lambda>_. Some (send_json 400 (verdict_json False [''drugs'']))) example_dashboard)) ''how are you?''))))"
proof -
  let ?rule = "\<lparr>rule_pattern = ignore_case (term_source (units ''make gbl'')), rule_category = units ''drugs''\<rparr>"
  let ?entry = "JObj [(''category'', JStr (units ''drugs'')), (''term'', JStr (units ''make gbl''))]"
  have loaded: "load_entry model_engine 0 ?entry = Inr ?rule" "?rule \<in> set [?rule]"
      "string_field ''term'' ?entry = Some (units ''make gbl'')" by code_simp+
  have "send_begin example_dashboard \<noteq> None" by code_simp
  then obtain body d1 where begun: "send_begin example_dashboard = Some (body, d1)" by force
  have asked: "trim (db_chatInput example_dashboard) = ''Make GBL''" by code_simp
  have "pattern_test ascii_upper (Boundary # term_atoms (units ''make gbl'') @ [Boundary]) (units ''Make GBL'')"
    by code_simp
  then have flagged: "phrase_occurs ascii_upper (units ''make gbl'') (units (trim (db_chatInput example_dashboard)))"
    unfolding pattern_test_term asked .
  have few: "length (filter (\<lambda>m. ce_status m = None) []) < CHAT_HISTORY_WINDOW" by code_simp
  from blocked_message_blocks_chat [OF model_engine_conforming loaded begun flagged refl few refl]
  show ?thesis by simp
qed

end
