(* ===== verification/Spec2Isabelle.thy ===== *)
theory Spec2Isabelle
  imports Launcher_Exclusivity Known_Races Server_Types Chat_Relay Registration_Visibility Startup
    Api_Conformance Dashboard_Chat
begin

text \<open>
  The swarm coordinator (\<^verbatim>\<open>coordinator/src\<close>, TypeScript on Node.js, and the script of its dashboard):
  a service that registers inference nodes, peers and launchers, ranks nodes by reputation,
  assembles multi-node pipelines through launchers, keeps a pool of warm pipelines per model
  matched to demand, checks prompts against safety rules, and routes requests to nodes.

  The parts and their theories, in the order of their imports:

  \<^item> Coordinator_Prelude: JavaScript's Map, numbers, array slicing and random indices, with the
    lemma collections the other theories use; Js_Doubles: its division, with the rounding to doubles.
  \<^item> Expiring_Registry and Endpoint_Registry: the contracts the registries share, as locales.
  \<^item> Reputation (\<^verbatim>\<open>reputation_tracker.ts\<close>), Node_Registry (\<^verbatim>\<open>registry.ts\<close>), Peer_Registry
    (\<^verbatim>\<open>peer_registry.ts\<close>), Launcher_Registry (\<^verbatim>\<open>launcher_registry.ts\<close>), Demand_Tracker
    (\<^verbatim>\<open>demand_tracker.ts\<close>), Model_Catalog (\<^verbatim>\<open>catalog.ts\<close>), Pipeline_Tracker
    (\<^verbatim>\<open>pipeline_tracker.ts\<close>): one state record and one function per method each. The three
    registries interpret the locales.
  \<^item> Pipeline_Selector: \<open>rankCandidates\<close> and \<open>selectPipeline\<close> (\<^verbatim>\<open>pipeline_selector.ts\<close>) and
    \<open>selectNode\<close> (\<^verbatim>\<open>server.ts\<close>).
  \<^item> Pool_Planner: the pure functions of \<^verbatim>\<open>pipeline_pool_manager.ts\<close>.
  \<^item> Pipeline_Assembly: \<open>tryAssemble\<close> (\<^verbatim>\<open>pipeline_pool_manager.ts\<close>) and \<open>assemblePipeline\<close>
    (\<^verbatim>\<open>server.ts\<close>), cut at their awaits; Example_Swarm: a concrete swarm for witnesses;
    Assembly_Outcomes: what every path of an assembly does.
  \<^item> Request_Routing: pool-first routing and the eviction of failed drivers (\<^verbatim>\<open>server.ts\<close>).
  \<^item> Pool_Manager: the reconciliation pass and its timer (\<^verbatim>\<open>pipeline_pool_manager.ts\<close>).
  \<^item> Interleaving and Launcher_Exclusivity: all of these as one transition system whose steps are
    the code's synchronous segments, its invariant, and the exclusive use of launchers.
  \<^item> Known_Races: under which conditions the code does three things its comments rule out.
  \<^item> Js_Strings: \<open>startsWith\<close>, \<open>split\<close>, \<open>join\<close>; Sse_Frames (\<^verbatim>\<open>sse_frames.ts\<close>): the reading loop all
    readers of event streams share, the coordinator's reader, and the locale \<open>frame_reader\<close> with
    the contract of a reader that notices truncation; Json: values, \<open>String\<close> and \<open>JSON.stringify\<close>;
    Chat_Prompt (\<^verbatim>\<open>chat_prompt.ts\<close>).
  \<^item> Safety_Rules and Safety_Classifier (\<^verbatim>\<open>safety_rules_loader.ts\<close>, \<^verbatim>\<open>safety_classifier.ts\<close>): patterns over
    UTF-16 code units, their source texts, the loader with every error, the classifier.
  \<^item> Http_Messages, Registry_Routes, Generate_Route, Chat_Route, Server (\<^verbatim>\<open>server.ts\<close>): requests and
    replies, one function per body check and per route, and the listener \<open>handle\<close>; Example_Http: a
    concrete world for witnesses; Server_Types, Chat_Relay, Registration_Visibility: what all requests
    preserve, what a streaming client reads, and what a registration leads to.
  \<^item> Swarm_Client (\<^verbatim>\<open>client.ts\<close>): one function per method, over any \<open>fetch\<close>; Startup (\<^verbatim>\<open>main.ts\<close>): the
    checks and exits of the start.
  \<^item> Api_Document (\<^verbatim>\<open>openapi.ts\<close>): the operations of the API document with their schemas;
    Api_Conformance: the server keeps them.
  \<^item> Dashboard (\<^verbatim>\<open>public/app.js\<close>): the script of the dashboard over the page it changes;
    Dashboard_Chat: what the chat shows of a reply, and what becomes of a blocked message.

  Conventions. A method becomes a function from its arguments, the clock's value where it reads the
  clock, and its object's state, to its result and the new state. A Map is an association list in
  insertion order. \<open>undefined\<close> is \<open>None\<close>. Time is an integer number of milliseconds. Doubles are
  rationals with NaN and the infinities apart. The quotients of the ledger are rounded to doubles as
  in JavaScript. The other two divisions are exact: that of the demand by the requests per pipeline,
  whose ceiling is the same for a whole number of requests, and the seconds of the chat's timestamps. Strings are lists of
  8-bit characters, in the theories on safety rules lists of UTF-16 code units. Code outside the
  repository is a parameter: the SHA-256 digest and the URL parser (in the record \<open>config\<close>), the
  answers of launchers, nodes and peers, \<open>randomUUID\<close>, \<open>Math.random\<close>, the decimal form of numbers,
  \<open>JSON.parse\<close> on the text of a frame, and the regular expression engine. Where a theorem needs
  something of one of them it is a named assumption: \<open>conforming\<close> (the engine follows the language
  standard on the patterns the loader makes of terms), \<open>number_texts_ok\<close> (no line break in a number),
  \<open>whole_counts\<close> (nodes count tokens in whole numbers), \<open>whole_thresholds\<close> (the catalog's minima are
  whole), \<open>is_double\<close> (a threshold is a double). What Node does to a header on its way is written out
  in Startup.
  A new UUID differs from those handed out before, in the transition system only.

  A handler is one function from the request and the state to the reply, the calls it makes and the
  new state; the world \<open>http_world\<close> gives it, at each of its awaits, the clock and an arbitrary change
  \<open>hw_others\<close> of the state by the handlers that run meanwhile. The interleaving of the assemblies
  themselves, segment by segment, is the transition system of Interleaving.

  What the lemmas show. For the registries: one entry per endpoint or identity, no revival of a
  lapsed entry, and pruning that cannot be observed. For the ledger and the demand tracker: they
  are abstractions of the histories of events and requests. For selection, planning and routing:
  full functional specifications for every random generator. For assemblies and the
  reconciliation pass, each with nothing in between: the outcome on every path, and the ceiling. For
  the whole: no interleaving lets two pipelines claim one launcher, but some let a pool exceed its
  ceiling or stop an agent that is being started. For the HTTP surface: nothing happens without the token,
  nothing reaches a node that the classifier has not passed, a rejected request leaves no trace,
  stored data keeps its types. For the streams: cuts do not matter, text arrives whole, truncation
  is noticed on every hop. For the safety rules: exactly the well-formed files load, and a term
  flags exactly the texts in which it stands as a phrase. For the API document: every reply is one it
  lists, but for the status 500, and the types of \<open>stream\<close> and \<open>stream_options\<close> are not checked. For the dashboard: the page shows the history, a finished reply
  arrives whole; a reset connection and a blocked message are handled otherwise than the comments
  say. All recursion is total: list recursion,
  and measures for the shuffles, the splitting of strings and the loops that claim launchers.

  Not modelled: the bytes of HTTP and of UTF-8 decoding (a request arrives with its path, header and
  parsed body, a stream as the decoded text of its chunks), logging, the listening socket, the
  files behind the static routes, the prose of the API document and the scroll position of the page.
  The C++ node agent, launcher and engine (\<^verbatim>\<open>core\<close>) are another program behind the HTTP interface.
\<close>

section \<open>Properties that span components\<close>

lemma failed_entries_reaped: "entry_state e = Failed \<Longrightarrow> reaped cfg st now e"
  by (simp add: reaped_def)

text \<open>
  C21: A failed forward heals by the next tick. When a forward of a request for a model to a node has
  failed, the next health check of the pool leaves no entry of that model with the node as its
  driver, although the node is still registered and heartbeated: the launcher is free again.
\<close>

theorem failed_forward_heals:
  assumes wf: "nodes_wf sha256 (co_nodes st)" and tmo: "0 \<le> node_timeoutMs (co_nodes st)"
    and ids: "\<And>m. ids_distinct (get_pool (co_tracker st) m)" and m: "m \<in> set ms"
    and p: "ps_co p = mark_driver_failed m nid st"
  shows "\<forall>e \<in> set (get_pool (co_tracker (ps_co (health_check cfg w ms p))) m). driverNodeId e \<noteq> nid"
proof -
  have keeps: "co_nodes (ps_co p) = co_nodes st" by (simp add: p mark_driver_failed_def)
  have ids': "ids_distinct (get_pool (co_tracker (ps_co p)) m')" for m'
    using pools_distinct_mark_driver [of st m nid] ids by (simp add: p)
  have "get_pool (co_tracker (ps_co (health_check cfg w ms p))) m =
      filter (\<lambda>e. \<not> reaped cfg (ps_co p) (w_clock w (ps_awaits p)) e) (get_pool (co_tracker (ps_co p)) m)"
    using health_check_pools [of sha256 p cfg w ms m] wf tmo ids' m by (simp add: keeps)
  moreover have "reaped cfg (ps_co p) now e"
    if "e \<in> set (get_pool (co_tracker (ps_co p)) m)" "driverNodeId e = nid" for e now
  proof -
    from that(1) obtain x where "e = (if driverNodeId x = nid then x\<lparr>entry_state := Failed\<rparr> else x)"
      unfolding p mark_driver_failed_pool [OF ids] set_map by blast
    with that(2) have "entry_state e = Failed" by (cases "driverNodeId x = nid") simp_all
    then show ?thesis by (rule failed_entries_reaped)
  qed
  ultimately show ?thesis by auto
qed

theorem failed_forward_heals_witness:
  "''http://h1:7000'' \<notin> driverNodeId ` set (get_pool (co_tracker (ps_co (health_check example_config example_world [''m1'']
       (pass_of (mark_driver_failed ''m1'' ''http://h1:7000'' example_warm))))) ''m1'')"
proof -
  have tmo: "0 \<le> node_timeoutMs (co_nodes example_warm)" by code_simp
  have ids: "ids_distinct (get_pool (co_tracker example_warm) m)" for m
    using example_warm_ids [of m] by (simp add: pass_of_def)
  have m: "''m1'' \<in> set [''m1'']" by simp
  have p: "ps_co (pass_of (mark_driver_failed ''m1'' ''http://h1:7000'' example_warm)) =
      mark_driver_failed ''m1'' ''http://h1:7000'' example_warm" by (simp add: pass_of_def)
  from failed_forward_heals [OF example_warm_nodes_wf tmo ids m p, of example_config example_world]
  show ?thesis unfolding image_iff by metis
qed

end
